theory Spec2Isabelle
  imports Main "HOL-Library.Sublist" "HOL-Library.AList" "HOL-Library.Extended_Nat"
begin

section \<open>Strings\<close>

text \<open>
  JavaScript strings are modelled as \<open>string\<close>. The case mapping is the ASCII part of
  \<open>String.prototype.toLowerCase\<close>: the letters A to Z are mapped, every other character is
  kept.
\<close>

definition toLowerChar :: "char \<Rightarrow> char" where
  "toLowerChar c =
     (case map_of (zip ''ABCDEFGHIJKLMNOPQRSTUVWXYZ'' ''abcdefghijklmnopqrstuvwxyz'') c of
        Some l \<Rightarrow> l
      | None \<Rightarrow> c)"

definition toLowerCase :: "string \<Rightarrow> string" where
  "toLowerCase s = map toLowerChar s"

text \<open>\<open>s.includes(t)\<close>: \<open>t\<close> occurs in \<open>s\<close> as a contiguous substring.\<close>

fun str_includes :: "string \<Rightarrow> string \<Rightarrow> bool" where
  "str_includes [] t = (t = [])"
| "str_includes (c # cs) t = (prefix t (c # cs) \<or> str_includes cs t)"

text \<open>\<open>s.startsWith(t)\<close>.\<close>

definition startsWith :: "string \<Rightarrow> string \<Rightarrow> bool" where
  "startsWith s t = prefix t s"

text \<open>\<open>s.trim()\<close> on the ASCII white space characters.\<close>

definition isSpace :: "char \<Rightarrow> bool" where
  "isSpace c = (c \<in> set [CHR '' '', CHR 0x09, CHR 0x0A, CHR 0x0B, CHR 0x0C, CHR 0x0D])"

definition trim :: "string \<Rightarrow> string" where
  "trim s = rev (dropWhile isSpace (rev (dropWhile isSpace s)))"

text \<open>
  \<open>s.split(separator)\<close> where the separator is one character of a class: the pieces
  between the separators, empty ones included.
\<close>

fun splitBy :: "(char \<Rightarrow> bool) \<Rightarrow> string \<Rightarrow> string list" where
  "splitBy sep [] = [[]]"
| "splitBy sep (c # cs) =
     (if sep c then [] # splitBy sep cs
      else (case splitBy sep cs of [] \<Rightarrow> [[c]] | x # xs \<Rightarrow> (c # x) # xs))"

section \<open>JSON values\<close>

text \<open>
  The documents handled by the cache, the index and the session state are JSON values.
  An object keeps its members in an association list; no modelled operation inspects the
  payload of a number.
\<close>

datatype json =
    JNull
  | JBool bool
  | JNum int
  | JStr string
  | JArr "json list"
  | JObj "(string \<times> json) list"

text \<open>Member access \<open>o.k\<close>: \<open>None\<close> stands for \<open>undefined\<close>.\<close>

fun member :: "json \<Rightarrow> string \<Rightarrow> json option" where
  "member (JObj kvs) k = map_of kvs k"
| "member _ k = None"

text \<open>\<open>typeof v === 'string' ? v : undefined\<close>.\<close>

fun asString :: "json option \<Rightarrow> string option" where
  "asString (Some (JStr s)) = Some s"
| "asString _ = None"

section \<open>Session state\<close>

record Technology =
  tech_identifier :: string
  tech_title :: string
  tech_url :: string
  tech_kind :: "string option"
  tech_role :: "string option"

text \<open>\<open>TechnologyState\<close>: the active technology selection.\<close>

record TechnologyState =
  activeTechnology :: "Technology option"

text \<open>
  \<open>FrameworkState\<close>: the loaded framework document, the index derived from it and the set
  of identifiers whose nested references were already fetched.
\<close>

record 'i FrameworkState =
  activeFrameworkData :: "json option"
  frameworkIndex :: "'i option"
  expandedIdentifiers :: "string set"

text \<open>\<open>SearchState\<close>: the last discovery result and the local symbol index.\<close>

record ('q, 'l) SearchState =
  lastDiscovery :: "'q option"
  localSymbolIndex :: "'l option"

record ('i, 'q, 'l) ServerState =
  technologyState :: TechnologyState
  frameworkState :: "'i FrameworkState"
  searchState :: "('q, 'l) SearchState"

definition newServerState :: "('i, 'q, 'l) ServerState" where
  "newServerState =
     \<lparr> technologyState = \<lparr> activeTechnology = None \<rparr>,
       frameworkState =
         \<lparr> activeFrameworkData = None, frameworkIndex = None, expandedIdentifiers = {} \<rparr>,
       searchState = \<lparr> lastDiscovery = None, localSymbolIndex = None \<rparr> \<rparr>"

subsection \<open>TechnologyState\<close>

definition ts_setActiveTechnology :: "Technology option \<Rightarrow> TechnologyState \<Rightarrow> TechnologyState" where
  "ts_setActiveTechnology technology ts = ts\<lparr>activeTechnology := technology\<rparr>"

text \<open>\<open>previousIdentifier !== this.activeTechnology?.identifier\<close>.\<close>

definition hasChanged :: "string option \<Rightarrow> TechnologyState \<Rightarrow> bool" where
  "hasChanged previousIdentifier ts =
     (previousIdentifier \<noteq> map_option tech_identifier (activeTechnology ts))"

subsection \<open>FrameworkState\<close>

definition fs_clearActiveFrameworkData :: "'i FrameworkState \<Rightarrow> 'i FrameworkState" where
  "fs_clearActiveFrameworkData fs = fs\<lparr>activeFrameworkData := None\<rparr>"

definition fs_clearFrameworkIndex :: "'i FrameworkState \<Rightarrow> 'i FrameworkState" where
  "fs_clearFrameworkIndex fs = fs\<lparr>frameworkIndex := None, expandedIdentifiers := {}\<rparr>"

definition fs_markIdentifierExpanded :: "string \<Rightarrow> 'i FrameworkState \<Rightarrow> 'i FrameworkState" where
  "fs_markIdentifierExpanded i fs = fs\<lparr>expandedIdentifiers := insert i (expandedIdentifiers fs)\<rparr>"

definition fs_reset :: "'i FrameworkState \<Rightarrow> 'i FrameworkState" where
  "fs_reset fs =
     fs\<lparr>activeFrameworkData := None, frameworkIndex := None, expandedIdentifiers := {}\<rparr>"

subsection \<open>SearchState\<close>

definition ss_resetForTechnologyChange :: "('q, 'l) SearchState \<Rightarrow> ('q, 'l) SearchState" where
  "ss_resetForTechnologyChange ss = ss\<lparr>localSymbolIndex := None\<rparr>"

subsection \<open>ServerState\<close>

definition getActiveTechnology :: "('i, 'q, 'l) ServerState \<Rightarrow> Technology option" where
  "getActiveTechnology st = activeTechnology (technologyState st)"

definition getActiveFrameworkData :: "('i, 'q, 'l) ServerState \<Rightarrow> json option" where
  "getActiveFrameworkData st = activeFrameworkData (frameworkState st)"

definition getFrameworkIndex :: "('i, 'q, 'l) ServerState \<Rightarrow> 'i option" where
  "getFrameworkIndex st = frameworkIndex (frameworkState st)"

definition getExpandedIdentifiers :: "('i, 'q, 'l) ServerState \<Rightarrow> string set" where
  "getExpandedIdentifiers st = expandedIdentifiers (frameworkState st)"

definition hasExpandedIdentifier :: "string \<Rightarrow> ('i, 'q, 'l) ServerState \<Rightarrow> bool" where
  "hasExpandedIdentifier i st = (i \<in> expandedIdentifiers (frameworkState st))"

definition getLocalSymbolIndex :: "('i, 'q, 'l) ServerState \<Rightarrow> 'l option" where
  "getLocalSymbolIndex st = localSymbolIndex (searchState st)"

definition getLastDiscovery :: "('i, 'q, 'l) ServerState \<Rightarrow> 'q option" where
  "getLastDiscovery st = lastDiscovery (searchState st)"

definition setActiveFrameworkData ::
  "json option \<Rightarrow> ('i, 'q, 'l) ServerState \<Rightarrow> ('i, 'q, 'l) ServerState" where
  "setActiveFrameworkData d st =
     st\<lparr>frameworkState := (frameworkState st)\<lparr>activeFrameworkData := d\<rparr>\<rparr>"

definition clearActiveFrameworkData :: "('i, 'q, 'l) ServerState \<Rightarrow> ('i, 'q, 'l) ServerState" where
  "clearActiveFrameworkData st =
     st\<lparr>frameworkState := fs_clearActiveFrameworkData (frameworkState st)\<rparr>"

definition setFrameworkIndex ::
  "'i option \<Rightarrow> ('i, 'q, 'l) ServerState \<Rightarrow> ('i, 'q, 'l) ServerState" where
  "setFrameworkIndex ix st = st\<lparr>frameworkState := (frameworkState st)\<lparr>frameworkIndex := ix\<rparr>\<rparr>"

definition markIdentifierExpanded ::
  "string \<Rightarrow> ('i, 'q, 'l) ServerState \<Rightarrow> ('i, 'q, 'l) ServerState" where
  "markIdentifierExpanded i st =
     st\<lparr>frameworkState := fs_markIdentifierExpanded i (frameworkState st)\<rparr>"

definition setLocalSymbolIndex ::
  "'l \<Rightarrow> ('i, 'q, 'l) ServerState \<Rightarrow> ('i, 'q, 'l) ServerState" where
  "setLocalSymbolIndex ix st = st\<lparr>searchState := (searchState st)\<lparr>localSymbolIndex := Some ix\<rparr>\<rparr>"

definition resetForTechnologyChange :: "('i, 'q, 'l) ServerState \<Rightarrow> ('i, 'q, 'l) ServerState" where
  "resetForTechnologyChange st =
     st\<lparr>frameworkState := fs_reset (frameworkState st),
        searchState := ss_resetForTechnologyChange (searchState st)\<rparr>"

text \<open>
  \<open>ServerState.setActiveTechnology\<close>: remember the previous identifier, store the new
  technology, and reset the dependent state when the identifier changed.
\<close>

definition setActiveTechnology ::
  "Technology option \<Rightarrow> ('i, 'q, 'l) ServerState \<Rightarrow> ('i, 'q, 'l) ServerState" where
  "setActiveTechnology technology st =
     (let previousIdentifier = map_option tech_identifier (activeTechnology (technologyState st));
          st1 = st\<lparr>technologyState := ts_setActiveTechnology technology (technologyState st)\<rparr>
      in if hasChanged previousIdentifier (technologyState st1)
         then resetForTechnologyChange st1
         else st1)"

section \<open>The choose-technology handler\<close>

text \<open>Truthiness of an optional string: present and not empty.\<close>

definition truthy :: "string option \<Rightarrow> bool" where
  "truthy s = (case s of None \<Rightarrow> False | Some t \<Rightarrow> t \<noteq> [])"

text \<open>
  \<open>fuzzyScore\<close>: 0 for equal names, 1 for a prefix, 2 for a substring, 3 otherwise, and
  infinity when either string is empty or missing.
\<close>

definition fuzzyScore :: "string option \<Rightarrow> string option \<Rightarrow> enat" where
  "fuzzyScore a b =
     (case (a, b) of
        (Some sa, Some sb) \<Rightarrow>
          if sa = [] \<or> sb = [] then \<infinity>
          else let lowerA = toLowerCase sa; lowerB = toLowerCase sb in
            if lowerA = lowerB then 0
            else if startsWith lowerA lowerB \<or> startsWith lowerB lowerA then 1
            else if str_includes lowerA lowerB \<or> str_includes lowerB lowerA then 2
            else 3
      | _ \<Rightarrow> \<infinity>)"

datatype McpError = InvalidRequest string

text \<open>\<open>ensureFramework\<close> raises unless the technology is a symbol collection.\<close>

definition ensureFramework :: "Technology \<Rightarrow> McpError + unit" where
  "ensureFramework technology =
     (if tech_kind technology \<noteq> Some ''symbol'' \<or> tech_role technology \<noteq> Some ''collection''
      then Inl (InvalidRequest (tech_title technology @ '' is not a framework collection. Please choose a framework technology instead.''))
      else Inr ())"

text \<open>
  The lookup of the handler: by identifier, then by exact title, then by the best fuzzy
  score below 3. \<open>name\<close> and \<open>identifier\<close> are the optional arguments of the call;
  \<open>candidates\<close> are the values of the technology table, in its order.
\<close>

definition resolveTechnology ::
  "Technology list \<Rightarrow> string option \<Rightarrow> string option \<Rightarrow> Technology option" where
  "resolveTechnology candidates name ident =
     (let normalizedName = map_option (\<lambda>n. trim (toLowerCase n)) name;
          normalizedIdentifier = map_option (\<lambda>i. trim (toLowerCase i)) ident;
          chosen1 =
            (if truthy normalizedIdentifier
             then find (\<lambda>tech. Some (toLowerCase (tech_identifier tech)) = normalizedIdentifier) candidates
             else None);
          chosen2 =
            (if chosen1 = None \<and> truthy normalizedName
             then find (\<lambda>tech. Some (toLowerCase (tech_title tech)) = normalizedName) candidates
             else chosen1);
          chosen3 =
            (if chosen2 = None \<and> truthy normalizedName
             then (case sort_key snd (map (\<lambda>tech. (tech, fuzzyScore (Some (tech_title tech)) name)) candidates) of
                     [] \<Rightarrow> None
                   | (tech, score) # _ \<Rightarrow> if score < 3 then Some tech else None)
             else chosen2)
      in chosen3)"

datatype ChooseOutcome = NotFound | Selected Technology

text \<open>
  The handler on the technology table it fetched: an unresolved name answers with
  suggestions and leaves the state alone; a technology that is not a framework raises;
  otherwise the technology is stored and the active framework data cleared. The
  overview that follows reads the client only.
\<close>

definition chooseTechnology ::
  "Technology list \<Rightarrow> string option \<Rightarrow> string option \<Rightarrow> ('i, 'q, 'l) ServerState
     \<Rightarrow> McpError + (ChooseOutcome \<times> ('i, 'q, 'l) ServerState)" where
  "chooseTechnology candidates name ident st =
     (case resolveTechnology candidates name ident of
        None \<Rightarrow> Inr (NotFound, st)
      | Some chosen \<Rightarrow>
          (case ensureFramework chosen of
             Inl e \<Rightarrow> Inl e
           | Inr _ \<Rightarrow>
               Inr (Selected chosen,
                    clearActiveFrameworkData (setActiveTechnology (Some chosen) st))))"

section \<open>The in-memory response cache\<close>

text \<open>
  \<open>MemoryCache\<close>: a JavaScript \<open>Map\<close> from keys to entries (data and timestamp), kept in
  insertion order, with a time to live and a maximal size. Time is the millisecond clock
  read by \<open>Date.now()\<close>.
\<close>

record MemoryCache =
  mc_entries :: "(string \<times> (json \<times> nat)) list"
  cacheTimeout :: int
  maxSize :: int

text \<open>
  \<open>get\<close>: a live entry is moved to the end and returned; an expired entry is removed.
\<close>

definition mc_get :: "string \<Rightarrow> nat \<Rightarrow> MemoryCache \<Rightarrow> json option \<times> MemoryCache" where
  "mc_get key now c =
     (case map_of (mc_entries c) key of
        Some (d, timestamp) \<Rightarrow>
          if int now - int timestamp < cacheTimeout c
          then (Some d, c\<lparr>mc_entries := AList.delete key (mc_entries c) @ [(key, (d, timestamp))]\<rparr>)
          else (None, c\<lparr>mc_entries := AList.delete key (mc_entries c)\<rparr>)
      | None \<Rightarrow> (None, c))"

text \<open>
  \<open>set\<close>: an existing key is removed first; otherwise, at capacity, the oldest entry is
  evicted; the new entry goes to the end with the current time.
\<close>

definition mc_set :: "string \<Rightarrow> json \<Rightarrow> nat \<Rightarrow> MemoryCache \<Rightarrow> MemoryCache" where
  "mc_set key d now c =
     (let es = mc_entries c;
          es1 =
            (if key \<in> fst ` set es then AList.delete key es
             else if int (length es) \<ge> maxSize c
             then (case es of [] \<Rightarrow> [] | (oldestKey, _) # _ \<Rightarrow> AList.delete oldestKey es)
             else es)
      in c\<lparr>mc_entries := es1 @ [(key, (d, now))]\<rparr>)"

section \<open>The transport client\<close>

text \<open>
  What a request can throw: an axios error with its optional network code and optional
  HTTP status, a plain \<open>Error\<close> or \<open>TypeError\<close> raised by the response validation, and the
  wrapped failure that \<open>makeRequest\<close> raises, which carries its cause.
\<close>

datatype failure =
    AxiosError "string option" "nat option" string
  | PlainError string
  | TypeError string
  | FetchError string failure

fun message :: "failure \<Rightarrow> string" where
  "message (AxiosError _ _ m) = m"
| "message (PlainError m) = m"
| "message (TypeError m) = m"
| "message (FetchError m _) = m"

fun isRetryableError :: "failure \<Rightarrow> bool" where
  "isRetryableError (AxiosError code status _) =
     ((case code of
         Some c \<Rightarrow> c \<noteq> [] \<and> c \<in> set [''ECONNRESET'', ''ETIMEDOUT'', ''ECONNABORTED'']
       | None \<Rightarrow> False)
      \<or> status = Some 503 \<or> status = Some 429 \<or> status = Some 500
      \<or> status = Some 502 \<or> status = Some 504)"
| "isRetryableError _ = False"

text \<open>JavaScript truthiness of a JSON value.\<close>

fun js_truthy :: "json \<Rightarrow> bool" where
  "js_truthy JNull = False"
| "js_truthy (JBool b) = b"
| "js_truthy (JNum n) = (n \<noteq> 0)"
| "js_truthy (JStr s) = (s \<noteq> [])"
| "js_truthy (JArr _) = True"
| "js_truthy (JObj _) = True"

text \<open>
  \<open>validateResponse\<close>: the payload must be a non-empty object without a truthy
  \<open>error\<close> member and without a non-empty \<open>errors\<close> array.
\<close>

fun errorText :: "json \<Rightarrow> string" where
  "errorText (JStr s) = s"
| "errorText _ = ''Unknown error''"

fun joinWith :: "string \<Rightarrow> string list \<Rightarrow> string" where
  "joinWith sep [] = []"
| "joinWith sep [x] = x"
| "joinWith sep (x # y # ys) = x @ sep @ joinWith sep (y # ys)"

fun validateResponse :: "json \<Rightarrow> string \<Rightarrow> failure + unit" where
  "validateResponse JNull url = Inl (PlainError (''API returned null or undefined response for '' @ url))"
| "validateResponse (JObj kvs) url =
     (if kvs = [] then Inl (PlainError (''API returned empty object for '' @ url))
      else case map_of kvs ''error'' of
        Some e \<Rightarrow>
          if js_truthy e
          then Inl (PlainError (''API returned error: '' @
                 (case e of JStr m \<Rightarrow> m | _ \<Rightarrow> ''Unknown API error'')))
          else (case map_of kvs ''errors'' of
                  Some (JArr (x # xs)) \<Rightarrow>
                    Inl (PlainError (''API returned errors: '' @ joinWith '', '' (map errorText (x # xs))))
                | _ \<Rightarrow> Inr ())
      | None \<Rightarrow>
          (case map_of kvs ''errors'' of
             Some (JArr (x # xs)) \<Rightarrow>
               Inl (PlainError (''API returned errors: '' @ joinWith '', '' (map errorText (x # xs))))
           | _ \<Rightarrow> Inr ()))"
| "validateResponse (JArr _) url = Inl (TypeError (''API returned unexpected type 'array' for '' @ url))"
| "validateResponse (JBool _) url = Inl (TypeError (''API returned unexpected type 'boolean' for '' @ url))"
| "validateResponse (JNum _) url = Inl (TypeError (''API returned unexpected type 'number' for '' @ url))"
| "validateResponse (JStr _) url = Inl (TypeError (''API returned unexpected type 'string' for '' @ url))"

text \<open>The part of the configuration the transport reads.\<close>

record HttpConfig =
  baseUrl :: string
  maxRetryAttempts :: int
  baseRetryDelayMs :: int

definition defaultHttpConfig :: HttpConfig where
  "defaultHttpConfig =
     \<lparr> baseUrl = ''https://developer.apple.com/tutorials/data'',
       maxRetryAttempts = 3, baseRetryDelayMs = 500 \<rparr>"

text \<open>
  The world of a request: the clock, the number of \<open>axios.get\<close> calls issued so far, the
  delays waited so far (in order) and the response cache. The network is a function from
  the index of a call and its URL to the time the call takes and its outcome.
\<close>

record HttpWorld =
  now :: nat
  axiosCalls :: nat
  delays :: "int list"
  cache :: MemoryCache

type_synonym network = "nat \<Rightarrow> string \<Rightarrow> nat \<times> (failure + json)"

text \<open>
  \<open>makeRequest\<close>. Attempts count from 1. A cached truthy value is returned at once.
  Otherwise one call is made; a validated payload is cached and returned; a retryable
  failure below the attempt limit waits \<open>baseRetryDelayMs * 2 ^ (attempt - 1)\<close> and
  tries again with the next attempt number; any other failure is wrapped and raised.
\<close>

definition requestUrl :: "HttpConfig \<Rightarrow> string \<Rightarrow> string" where
  "requestUrl cfg path = baseUrl cfg @ ''/'' @ path"

definition cacheHit :: "json option \<Rightarrow> json option" where
  "cacheHit cached = (case cached of Some d \<Rightarrow> if js_truthy d then Some d else None | None \<Rightarrow> None)"

text \<open>
  The outcome of one \<open>axios.get\<close> call followed by the response validation, both inside
  the \<open>try\<close> block.
\<close>

definition callOutcome :: "network \<Rightarrow> nat \<Rightarrow> string \<Rightarrow> failure + json" where
  "callOutcome net k url =
     (case snd (net k url) of
        Inl error \<Rightarrow> Inl error
      | Inr d \<Rightarrow> (case validateResponse d url of Inl error \<Rightarrow> Inl error | Inr _ \<Rightarrow> Inr d))"

function makeRequest ::
  "HttpConfig \<Rightarrow> network \<Rightarrow> string \<Rightarrow> nat \<Rightarrow> HttpWorld \<Rightarrow> (failure + json) \<times> HttpWorld" where
  "makeRequest cfg net path attempt w =
     (let url = requestUrl cfg path;
          got = mc_get url (now w) (cache w);
          w1 = w\<lparr>cache := snd got\<rparr>
      in case cacheHit (fst got) of
        Some d \<Rightarrow> (Inr d, w1)
      | None \<Rightarrow>
         (let reply = net (axiosCalls w1) url;
              w2 = w1\<lparr>axiosCalls := Suc (axiosCalls w1), now := now w1 + fst reply\<rparr>;
              outcome = callOutcome net (axiosCalls w1) url
          in case outcome of
            Inr d \<Rightarrow> (Inr d, w2\<lparr>cache := mc_set url d (now w2) (cache w2)\<rparr>)
          | Inl error \<Rightarrow>
              if isRetryableError error \<and> int attempt < maxRetryAttempts cfg
              then
                (let delayMs = baseRetryDelayMs cfg * 2 ^ (attempt - 1);
                     w3 = w2\<lparr>delays := delays w2 @ [delayMs], now := now w2 + nat delayMs\<rparr>
                 in makeRequest cfg net path (attempt + 1) w3)
              else (Inl (FetchError (''Failed to fetch documentation: '' @ message error) error), w2)))"
  by pat_completeness auto
termination
  by (relation "measure (\<lambda>(cfg, net, path, attempt, w). nat (maxRetryAttempts cfg - int attempt))") auto

declare makeRequest.simps [simp del]

definition cacheMiss :: "string \<Rightarrow> HttpWorld \<Rightarrow> bool" where
  "cacheMiss url w = (cacheHit (fst (mc_get url (now w) (cache w))) = None)"

definition afterCall :: "HttpConfig \<Rightarrow> network \<Rightarrow> string \<Rightarrow> HttpWorld \<Rightarrow> HttpWorld" where
  "afterCall cfg net path w =
     w\<lparr>cache := snd (mc_get (requestUrl cfg path) (now w) (cache w)),
       axiosCalls := Suc (axiosCalls w),
       now := now w + fst (net (axiosCalls w) (requestUrl cfg path))\<rparr>"

definition backoffDelay :: "HttpConfig \<Rightarrow> nat \<Rightarrow> int" where
  "backoffDelay cfg n = baseRetryDelayMs cfg * 2 ^ (n - 1)"

definition afterBackoff :: "HttpConfig \<Rightarrow> nat \<Rightarrow> HttpWorld \<Rightarrow> HttpWorld" where
  "afterBackoff cfg n w =
     w\<lparr>delays := delays w @ [backoffDelay cfg n], now := now w + nat (backoffDelay cfg n)\<rparr>"

section \<open>Schemas\<close>

text \<open>
  The schema combinators used by \<open>schemas.ts\<close>, as data. An object schema lists its
  members (key, optional or not, schema of the value) and says whether unknown members
  pass through or are stripped.
\<close>

datatype zschema =
    ZString
  | ZBoolean
  | ZNumber
  | ZUnknown
  | ZArray zschema
  | ZRecord zschema
  | ZObject "(string \<times> bool \<times> zschema) list" bool

text \<open>
  \<open>safeParse\<close>: \<open>None\<close> when validation fails, otherwise the parsed value. The parsed
  object holds the parsed values of the known members and, with pass-through, the unknown
  members as they are. Members are kept at the place they have in the input: deep
  equality does not see the order of members.
\<close>

fun safeParse :: "zschema \<Rightarrow> json \<Rightarrow> json option"
  and parseElements :: "zschema \<Rightarrow> json list \<Rightarrow> json list option"
  and parseValues :: "zschema \<Rightarrow> (string \<times> json) list \<Rightarrow> (string \<times> json) list option"
  and parseMembers ::
    "(string \<times> bool \<times> zschema) list \<Rightarrow> (string \<times> json) list \<Rightarrow> (string \<times> json) list
       \<Rightarrow> (string \<times> json) list option" where
  "safeParse ZString v = (case v of JStr s \<Rightarrow> Some v | _ \<Rightarrow> None)"
| "safeParse ZBoolean v = (case v of JBool b \<Rightarrow> Some v | _ \<Rightarrow> None)"
| "safeParse ZNumber v = (case v of JNum n \<Rightarrow> Some v | _ \<Rightarrow> None)"
| "safeParse ZUnknown v = Some v"
| "safeParse (ZArray s) v =
     (case v of JArr xs \<Rightarrow> map_option JArr (parseElements s xs) | _ \<Rightarrow> None)"
| "safeParse (ZRecord s) v =
     (case v of JObj kvs \<Rightarrow> map_option JObj (parseValues s kvs) | _ \<Rightarrow> None)"
| "safeParse (ZObject shape passthrough) v =
     (case v of
        JObj kvs \<Rightarrow>
          map_option JObj
            (parseMembers shape kvs
               (if passthrough then kvs else filter (\<lambda>kv. fst kv \<in> fst ` set shape) kvs))
      | _ \<Rightarrow> None)"
| "parseElements s [] = Some []"
| "parseElements s (x # xs) =
     (case safeParse s x of
        None \<Rightarrow> None
      | Some y \<Rightarrow> map_option ((#) y) (parseElements s xs))"
| "parseValues s [] = Some []"
| "parseValues s (kv # kvs) =
     (case safeParse s (snd kv) of
        None \<Rightarrow> None
      | Some y \<Rightarrow> map_option ((#) (fst kv, y)) (parseValues s kvs))"
| "parseMembers [] kvs acc = Some acc"
| "parseMembers (field # shape) kvs acc =
     (case map_of kvs (fst field) of
        None \<Rightarrow> if fst (snd field) then parseMembers shape kvs acc else None
      | Some x \<Rightarrow>
          (case safeParse (snd (snd field)) x of
             None \<Rightarrow> None
           | Some y \<Rightarrow> parseMembers shape kvs (AList.update (fst field) y acc)))"

text \<open>The schemas of \<open>schemas.ts\<close> that the framework and symbol documents use.\<close>

definition PlatformInfoSchema :: zschema where
  "PlatformInfoSchema =
     ZObject [(''name'', False, ZString), (''introducedAt'', True, ZString),
              (''beta'', True, ZBoolean), (''deprecated'', True, ZBoolean),
              (''unavailable'', True, ZBoolean)] True"

definition PrimaryContentSectionSchema :: zschema where
  "PrimaryContentSectionSchema = ZObject [(''kind'', False, ZString)] True"

definition FragmentSchema :: zschema where
  "FragmentSchema =
     ZObject [(''kind'', False, ZString), (''text'', False, ZString),
              (''preciseIdentifier'', True, ZString)] True"

definition AbstractItemSchema :: zschema where
  "AbstractItemSchema = ZObject [(''text'', True, ZString), (''type'', False, ZString)] True"

definition TopicSectionSchema :: zschema where
  "TopicSectionSchema =
     ZObject [(''anchor'', True, ZString), (''identifiers'', False, ZArray ZString),
              (''title'', False, ZString)] True"

definition ReferenceDataSchema :: zschema where
  "ReferenceDataSchema =
     ZObject [(''type'', True, ZString), (''identifier'', True, ZString),
              (''title'', True, ZString), (''kind'', True, ZString),
              (''abstract'', True, ZArray AbstractItemSchema),
              (''platforms'', True, ZArray PlatformInfoSchema),
              (''url'', True, ZString)] True"

definition FrameworkDataSchema :: zschema where
  "FrameworkDataSchema =
     ZObject [(''abstract'', True, ZArray AbstractItemSchema),
              (''metadata'', False,
                 ZObject [(''platforms'', True, ZArray PlatformInfoSchema),
                          (''role'', True, ZString), (''title'', False, ZString)] True),
              (''references'', True, ZRecord ReferenceDataSchema),
              (''topicSections'', True, ZArray TopicSectionSchema)] True"

definition SymbolDataSchema :: zschema where
  "SymbolDataSchema =
     ZObject [(''abstract'', True, ZArray AbstractItemSchema),
              (''metadata'', False,
                 ZObject [(''platforms'', True, ZArray PlatformInfoSchema),
                          (''symbolKind'', True, ZString), (''title'', False, ZString),
                          (''roleHeading'', True, ZString),
                          (''fragments'', True, ZArray FragmentSchema)] True),
              (''primaryContentSections'', True, ZArray PrimaryContentSectionSchema),
              (''references'', True, ZRecord ReferenceDataSchema),
              (''topicSections'', True, ZArray TopicSectionSchema)] True"

text \<open>A schema all of whose object schemas, at any depth, pass unknown members through.\<close>

fun passesThrough :: "zschema \<Rightarrow> bool" where
  "passesThrough (ZArray s) = passesThrough s"
| "passesThrough (ZRecord s) = passesThrough s"
| "passesThrough (ZObject shape passthrough) =
     (passthrough \<and> list_all (\<lambda>field. passesThrough (snd (snd field))) shape)"
| "passesThrough _ = True"

section \<open>The persistent cache store\<close>

text \<open>
  The file system as the cache store sees it: what reading a path gives, and the faults
  that creating the cache directory or writing a path run into. An error of the file
  system is an errno exception with its code.
\<close>

datatype FileEntry = Missing | Unreadable string | Content string

record FileSystem =
  files :: "string \<Rightarrow> FileEntry"
  mkdirFault :: "string option"
  writeFault :: "string \<Rightarrow> string option"

datatype FsError = ErrnoException string

definition readFile :: "string \<Rightarrow> FileSystem \<Rightarrow> FsError + string" where
  "readFile p fs =
     (case files fs p of
        Missing \<Rightarrow> Inl (ErrnoException ''ENOENT'')
      | Unreadable code \<Rightarrow> Inl (ErrnoException code)
      | Content raw \<Rightarrow> Inr raw)"

definition writeFile :: "string \<Rightarrow> string \<Rightarrow> FileSystem \<Rightarrow> FsError + FileSystem" where
  "writeFile p raw fs =
     (case writeFault fs p of
        Some code \<Rightarrow> Inl (ErrnoException code)
      | None \<Rightarrow> Inr (fs\<lparr>files := (files fs)(p := Content raw)\<rparr>))"

text \<open>
  The functions of the platform that the store calls: \<open>JSON.parse\<close> (\<open>None\<close> for a
  \<open>SyntaxError\<close>), \<open>JSON.stringify\<close> and the hexadecimal SHA-256 digest.
\<close>

record Runtime =
  JSON_parse :: "string \<Rightarrow> json option"
  JSON_stringify :: "json \<Rightarrow> string"
  sha256hex :: "string \<Rightarrow> string"

record FileCache =
  docsDir :: string

definition joinPath :: "string \<Rightarrow> string \<Rightarrow> string" where
  "joinPath dir name = dir @ ''/'' @ name"

definition ensureCacheDir :: "FileCache \<Rightarrow> FileSystem \<Rightarrow> FsError + unit" where
  "ensureCacheDir fc fs =
     (case mkdirFault fs of Some code \<Rightarrow> Inl (ErrnoException code) | None \<Rightarrow> Inr ())"

text \<open>\<open>replaceAll(/[^\w-]/gi, '_')\<close>.\<close>

definition isWordChar :: "char \<Rightarrow> bool" where
  "isWordChar c =
     (c \<in> set ''ABCDEFGHIJKLMNOPQRSTUVWXYZabcdefghijklmnopqrstuvwxyz0123456789_'')"

definition sanitizeFrameworkName :: "string \<Rightarrow> string" where
  "sanitizeFrameworkName name = map (\<lambda>c. if isWordChar c \<or> c = CHR ''-'' then c else CHR ''_'') name"

text \<open>\<open>s.split(sep)\<close> for a separator of one character.\<close>

definition splitOn :: "char \<Rightarrow> string \<Rightarrow> string list" where
  "splitOn sep s = splitBy (\<lambda>c. c = sep) s"

definition sanitizeSymbolPath :: "Runtime \<Rightarrow> string \<Rightarrow> string" where
  "sanitizeSymbolPath rt path =
     (let hash = take 16 (sha256hex rt path);
          segments = filter (\<lambda>s. s \<noteq> []) (splitOn CHR ''/'' path);
          lastSegment = (if segments = [] then ''symbol'' else last segments);
          prefix = take 32 (sanitizeFrameworkName lastSegment)
      in prefix @ ''_'' @ hash)"

definition getCachePath :: "FileCache \<Rightarrow> string \<Rightarrow> string" where
  "getCachePath fc frameworkName = joinPath (docsDir fc) (sanitizeFrameworkName frameworkName @ ''.json'')"

definition symbolCachePath :: "Runtime \<Rightarrow> FileCache \<Rightarrow> string \<Rightarrow> string" where
  "symbolCachePath rt fc path = joinPath (docsDir fc) (sanitizeSymbolPath rt path @ ''.json'')"

text \<open>
  The body shared by the two load functions after the path is known: read, parse,
  validate. \<open>ENOENT\<close>, a syntax error and a schema mismatch give \<open>undefined\<close>; any other
  error is thrown again.
\<close>

definition loadValidated :: "Runtime \<Rightarrow> zschema \<Rightarrow> string \<Rightarrow> FileSystem \<Rightarrow> FsError + json option" where
  "loadValidated rt schema p fs =
     (case readFile p fs of
        Inl (ErrnoException code) \<Rightarrow>
          if code = ''ENOENT'' then Inr None else Inl (ErrnoException code)
      | Inr raw \<Rightarrow>
          (case JSON_parse rt raw of
             None \<Rightarrow> Inr None
           | Some parsed \<Rightarrow>
               (case safeParse schema parsed of
                  None \<Rightarrow> Inr None
                | Some d \<Rightarrow> Inr (Some d))))"

definition loadFramework :: "Runtime \<Rightarrow> FileCache \<Rightarrow> string \<Rightarrow> FileSystem \<Rightarrow> FsError + json option" where
  "loadFramework rt fc frameworkName fs =
     (case ensureCacheDir fc fs of
        Inl e \<Rightarrow> Inl e
      | Inr _ \<Rightarrow> loadValidated rt FrameworkDataSchema (getCachePath fc frameworkName) fs)"

definition saveFramework ::
  "Runtime \<Rightarrow> FileCache \<Rightarrow> string \<Rightarrow> json \<Rightarrow> FileSystem \<Rightarrow> FsError + FileSystem" where
  "saveFramework rt fc frameworkName d fs =
     (case ensureCacheDir fc fs of
        Inl e \<Rightarrow> Inl e
      | Inr _ \<Rightarrow> writeFile (getCachePath fc frameworkName) (JSON_stringify rt d) fs)"

definition loadSymbol :: "Runtime \<Rightarrow> FileCache \<Rightarrow> string \<Rightarrow> FileSystem \<Rightarrow> FsError + json option" where
  "loadSymbol rt fc path fs = loadValidated rt SymbolDataSchema (symbolCachePath rt fc path) fs"

definition saveSymbol ::
  "Runtime \<Rightarrow> FileCache \<Rightarrow> string \<Rightarrow> json \<Rightarrow> FileSystem \<Rightarrow> FsError + FileSystem" where
  "saveSymbol rt fc path d fs =
     (case ensureCacheDir fc fs of
        Inl e \<Rightarrow> Inl e
      | Inr _ \<Rightarrow> writeFile (symbolCachePath rt fc path) (JSON_stringify rt d) fs)"

text \<open>
  The states of a cache file that count as a miss: the file is absent, its text does not
  parse, or the parsed value fails the schema.
\<close>

definition unusable :: "Runtime \<Rightarrow> zschema \<Rightarrow> FileEntry \<Rightarrow> bool" where
  "unusable rt schema entry =
     (case entry of
        Missing \<Rightarrow> True
      | Unreadable code \<Rightarrow> False
      | Content raw \<Rightarrow>
          (case JSON_parse rt raw of None \<Rightarrow> True | Some v \<Rightarrow> safeParse schema v = None))"

section \<open>The documentation client\<close>

datatype ClientError = Transport failure | Storage FsError

definition getDocumentation ::
  "HttpConfig \<Rightarrow> network \<Rightarrow> string \<Rightarrow> HttpWorld \<Rightarrow> (failure + json) \<times> HttpWorld" where
  "getDocumentation cfg net path w = makeRequest cfg net (path @ ''.json'') 1 w"

text \<open>
  \<open>getFramework\<close> and \<open>getSymbol\<close>: a truthy value loaded from the store is returned;
  otherwise the document is fetched, then saved, then returned. Every step is awaited
  outside any handler, so an error of the load, of the fetch or of the save is the error
  of the call.
\<close>

definition getFramework ::
  "Runtime \<Rightarrow> FileCache \<Rightarrow> HttpConfig \<Rightarrow> network \<Rightarrow> string \<Rightarrow> FileSystem \<times> HttpWorld
     \<Rightarrow> (ClientError + json) \<times> FileSystem \<times> HttpWorld" where
  "getFramework rt fc cfg net frameworkName st =
     (case st of (fs, w) \<Rightarrow>
        (case loadFramework rt fc frameworkName fs of
           Inl e \<Rightarrow> (Inl (Storage e), fs, w)
         | Inr loaded \<Rightarrow>
             (case cacheHit loaded of
                Some cached \<Rightarrow> (Inr cached, fs, w)
              | None \<Rightarrow>
                  (case getDocumentation cfg net (''documentation/'' @ frameworkName) w of
                     (Inl e, w') \<Rightarrow> (Inl (Transport e), fs, w')
                   | (Inr d, w') \<Rightarrow>
                       (case saveFramework rt fc frameworkName d fs of
                          Inl e \<Rightarrow> (Inl (Storage e), fs, w')
                        | Inr fs' \<Rightarrow> (Inr d, fs', w'))))))"

definition cleanPath :: "string \<Rightarrow> string" where
  "cleanPath path = (if startsWith path ''/'' then drop 1 path else path)"

definition getSymbol ::
  "Runtime \<Rightarrow> FileCache \<Rightarrow> HttpConfig \<Rightarrow> network \<Rightarrow> string \<Rightarrow> FileSystem \<times> HttpWorld
     \<Rightarrow> (ClientError + json) \<times> FileSystem \<times> HttpWorld" where
  "getSymbol rt fc cfg net path st =
     (case st of (fs, w) \<Rightarrow>
        (let clean = cleanPath path in
         case loadSymbol rt fc clean fs of
           Inl e \<Rightarrow> (Inl (Storage e), fs, w)
         | Inr loaded \<Rightarrow>
             (case cacheHit loaded of
                Some cached \<Rightarrow> (Inr cached, fs, w)
              | None \<Rightarrow>
                  (case getDocumentation cfg net clean w of
                     (Inl e, w') \<Rightarrow> (Inl (Transport e), fs, w')
                   | (Inr d, w') \<Rightarrow>
                       (case saveSymbol rt fc clean d fs of
                          Inl e \<Rightarrow> (Inl (Storage e), fs, w')
                        | Inr fs' \<Rightarrow> (Inr d, fs', w'))))))"

section \<open>The tokenizer\<close>

text \<open>The delimiters of \<open>/[\s/._-]+/\<close>.\<close>

definition isDelimiter :: "char \<Rightarrow> bool" where
  "isDelimiter c = (isSpace c \<or> c \<in> set ''/._-'')"

definition isUpper :: "char \<Rightarrow> bool" where
  "isUpper c = (c \<in> set ''ABCDEFGHIJKLMNOPQRSTUVWXYZ'')"

text \<open>\<open>token.split(/(?=[A-Z])/)\<close>: a new part starts before every capital letter.\<close>

fun camelParts :: "string \<Rightarrow> string list" where
  "camelParts [] = []"
| "camelParts [c] = [[c]]"
| "camelParts (c # d # cs) =
     (if isUpper d then [c] # camelParts (d # cs)
      else (case camelParts (d # cs) of [] \<Rightarrow> [[c]] | p # ps \<Rightarrow> (c # p) # ps))"

text \<open>\<open>Set.add\<close> on a set kept in insertion order.\<close>

definition setAdd :: "'a \<Rightarrow> 'a list \<Rightarrow> 'a list" where
  "setAdd x xs = (if x \<in> set xs then xs else xs @ [x])"

definition addToken :: "string list \<Rightarrow> string \<Rightarrow> string list" where
  "addToken tokens token =
     (let tokens1 = setAdd token (setAdd (toLowerCase token) tokens);
          parts = filter (\<lambda>p. p \<noteq> []) (camelParts token)
      in if length parts > 1
         then setAdd (toLowerCase (concat parts))
                (foldl (\<lambda>acc part. setAdd part (setAdd (toLowerCase part) acc)) tokens1 parts)
         else tokens1)"

definition tokenize :: "string \<Rightarrow> string list" where
  "tokenize text =
     (if text = [] then []
      else foldl addToken [] (filter (\<lambda>t. t \<noteq> []) (splitBy isDelimiter text)))"

definition createSearchTokens :: "string \<Rightarrow> string \<Rightarrow> string \<Rightarrow> string list \<Rightarrow> string list" where
  "createSearchTokens title abstract path platforms =
     (let addAll = (\<lambda>acc text. foldl (\<lambda>a t. setAdd t a) acc (tokenize text))
      in foldl addAll (addAll (addAll (addAll [] title) abstract) path) platforms)"

section \<open>The local symbol index\<close>

datatype IndexState = uninitialized | building | ready | failed

record LocalSymbolIndexEntry =
  entry_id :: string
  entry_title :: string
  entry_path :: string
  entry_kind :: string
  entry_abstract :: string
  entry_platforms :: "string list"
  entry_tokens :: "string list"
  entry_filePath :: string

text \<open>
  The index: the symbol table (a \<open>Map\<close>, in insertion order), the directory it scans, the
  optional technology filter and the initialization state.
\<close>

record LocalSymbolIndex =
  symbols :: "(string \<times> LocalSymbolIndexEntry) list"
  cacheDir :: string
  technologyIdentifier :: "string option"
  indexState :: IndexState

definition newLocalSymbolIndex :: "string \<Rightarrow> string option \<Rightarrow> LocalSymbolIndex" where
  "newLocalSymbolIndex dir technology =
     \<lparr> symbols = [], cacheDir = dir, technologyIdentifier = technology,
       indexState = uninitialized \<rparr>"

text \<open>\<open>extractText\<close>: the texts of the abstract items, concatenated.\<close>

definition extractText :: "json option \<Rightarrow> string" where
  "extractText abstract =
     (case abstract of
        Some (JArr items) \<Rightarrow>
          concat (map (\<lambda>item. case asString (member item ''text'') of Some t \<Rightarrow> t | None \<Rightarrow> []) items)
      | _ \<Rightarrow> [])"

text \<open>\<open>platforms?.map(p => p.name).filter(Boolean)\<close>, empty when there are no platforms.\<close>

definition platformNames :: "json option \<Rightarrow> string list" where
  "platformNames platforms =
     (case platforms of
        Some (JArr ps) \<Rightarrow>
          filter (\<lambda>n. n \<noteq> [])
            (map (\<lambda>p. case asString (member p ''name'') of Some n \<Rightarrow> n | None \<Rightarrow> []) ps)
      | _ \<Rightarrow> [])"

text \<open>Optional member access \<open>o?.k\<close>.\<close>

definition optMember :: "json option \<Rightarrow> string \<Rightarrow> json option" where
  "optMember v k = (case v of Some x \<Rightarrow> member x k | None \<Rightarrow> None)"

definition orElse :: "string option \<Rightarrow> string \<Rightarrow> string" where
  "orElse v d = (case v of Some s \<Rightarrow> s | None \<Rightarrow> d)"

text \<open>
  The technology filter: with a non-empty filter and a non-empty path, the entry is
  skipped unless the lower-cased path contains the lower-cased filter.
\<close>

definition filteredOut :: "string option \<Rightarrow> string \<Rightarrow> bool" where
  "filteredOut technology path =
     (truthy technology \<and> path \<noteq> [] \<and>
      \<not> str_includes (toLowerCase path) (toLowerCase (orElse technology [])))"

text \<open>The entry that \<open>processSymbolData\<close> builds for a validated document.\<close>

definition documentTitle :: "json \<Rightarrow> string" where
  "documentTitle d =
     (case asString (optMember (member d ''metadata'') ''title'') of
        Some t \<Rightarrow> if t \<noteq> [] then t else ''Unknown''
      | None \<Rightarrow> ''Unknown'')"

definition documentPath :: "json \<Rightarrow> string" where
  "documentPath d = orElse (asString (optMember (member d ''metadata'') ''url'')) []"

definition documentEntry :: "json \<Rightarrow> string \<Rightarrow> LocalSymbolIndexEntry" where
  "documentEntry d filePath =
     (let title = documentTitle d;
          path = documentPath d;
          kind = orElse (asString (optMember (member d ''metadata'') ''symbolKind'')) ''framework'';
          abstract = extractText (member d ''abstract'');
          platforms = platformNames (optMember (member d ''metadata'') ''platforms'');
          tokens = createSearchTokens title abstract path platforms
      in \<lparr> entry_id = (if path \<noteq> [] then path else title), entry_title = title,
           entry_path = path, entry_kind = kind, entry_abstract = abstract,
           entry_platforms = platforms, entry_tokens = tokens, entry_filePath = filePath \<rparr>)"

text \<open>The entry that \<open>processReferences\<close> builds for a reference under its key.\<close>

definition referenceEntry :: "string \<Rightarrow> json \<Rightarrow> string \<Rightarrow> LocalSymbolIndexEntry" where
  "referenceEntry refId ref filePath =
     (let title = orElse (asString (member ref ''title'')) [];
          path = orElse (asString (member ref ''url'')) [];
          abstract = extractText (member ref ''abstract'');
          platforms = platformNames (member ref ''platforms'')
      in \<lparr> entry_id = refId, entry_title = title, entry_path = path,
           entry_kind = orElse (asString (member ref ''kind'')) [],
           entry_abstract = abstract, entry_platforms = platforms,
           entry_tokens = createSearchTokens title abstract path platforms,
           entry_filePath = filePath \<rparr>)"

text \<open>
  \<open>processReferences\<close>: every reference of kind \<open>symbol\<close> with a non-empty title that the
  filter lets through is stored under its key. The references are taken in the order of
  the table.
\<close>

definition processReference ::
  "string \<Rightarrow> LocalSymbolIndex \<Rightarrow> string \<times> json \<Rightarrow> LocalSymbolIndex" where
  "processReference filePath ix r =
     (case r of (refId, ref) \<Rightarrow>
        if asString (member ref ''kind'') = Some ''symbol'' \<and> truthy (asString (member ref ''title''))
        then
          (if filteredOut (technologyIdentifier ix) (orElse (asString (member ref ''url'')) [])
           then ix
           else ix\<lparr>symbols := AList.update refId (referenceEntry refId ref filePath) (symbols ix)\<rparr>)
        else ix)"

definition processReferences :: "json option \<Rightarrow> string \<Rightarrow> LocalSymbolIndex \<Rightarrow> LocalSymbolIndex" where
  "processReferences references filePath ix =
     (case references of
        Some (JObj refs) \<Rightarrow> foldl (processReference filePath) ix refs
      | _ \<Rightarrow> ix)"

text \<open>
  \<open>processSymbolData\<close>: a document that the filter rejects is skipped together with its
  references; otherwise its entry is stored under \<open>path || title\<close> and its references are
  processed.
\<close>

definition processSymbolData :: "json \<Rightarrow> string \<Rightarrow> LocalSymbolIndex \<Rightarrow> LocalSymbolIndex" where
  "processSymbolData d filePath ix =
     (if filteredOut (technologyIdentifier ix) (documentPath d) then ix
      else
        (let entry = documentEntry d filePath;
             ix1 = ix\<lparr>symbols := AList.update (entry_id entry) entry (symbols ix)\<rparr>
         in processReferences (member d ''references'') filePath ix1))"

text \<open>
  \<open>processFile\<close>: read, parse, validate as a symbol document, then as a framework
  document. Every failure is caught and reported as \<open>success: false\<close>.
\<close>

definition processFile ::
  "Runtime \<Rightarrow> FileSystem \<Rightarrow> string \<Rightarrow> LocalSymbolIndex \<Rightarrow> bool \<times> LocalSymbolIndex" where
  "processFile rt fs file ix =
     (let filePath = joinPath (cacheDir ix) file in
      case readFile filePath fs of
        Inl e \<Rightarrow> (False, ix)
      | Inr rawData \<Rightarrow>
          (case JSON_parse rt rawData of
             None \<Rightarrow> (False, ix)
           | Some parsed \<Rightarrow>
               (case safeParse SymbolDataSchema parsed of
                  Some d \<Rightarrow> (True, processSymbolData d filePath ix)
                | None \<Rightarrow>
                    (case safeParse FrameworkDataSchema parsed of
                       Some d \<Rightarrow> (True, processSymbolData d filePath ix)
                     | None \<Rightarrow> (False, ix)))))"

text \<open>
  The directory as the build sees it: whether \<open>access\<close> succeeds, and what \<open>readdir\<close>
  returns. Within a batch the files are taken in the order of the listing.
\<close>

record DirectoryView =
  accessible :: bool
  listing :: "FsError + string list"

definition endsWith :: "string \<Rightarrow> string \<Rightarrow> bool" where
  "endsWith s t = suffix t s"

text \<open>
  The batch loop: \<open>for (index = 0; index < files.length; index += batchSize)\<close>, each
  batch being \<open>files.slice(index, index + batchSize)\<close>.
\<close>

function processBatches ::
  "Runtime \<Rightarrow> FileSystem \<Rightarrow> nat \<Rightarrow> string list \<Rightarrow> LocalSymbolIndex \<Rightarrow> LocalSymbolIndex" where
  "processBatches rt fs batchSize remaining ix =
     (if remaining = [] \<or> batchSize = 0 then ix
      else processBatches rt fs batchSize (drop batchSize remaining)
             (foldl (\<lambda>acc file. snd (processFile rt fs file acc)) ix (take batchSize remaining)))"
  by pat_completeness auto

termination
  by (relation "measure (\<lambda>(rt, fs, batchSize, remaining, ix). length remaining)") auto

declare processBatches.simps [simp del]

text \<open>
  \<open>buildIndexFromCache\<close>: nothing happens when the index is ready or building; an
  inaccessible directory leaves a ready, empty index; a failing \<open>readdir\<close> leaves the
  index failed and raises; otherwise the \<open>.json\<close> files are processed in batches and the
  index is ready. With files to process and a batch size that is not positive the loop
  never ends: the result \<open>None\<close>.
\<close>

definition buildIndexFromCache ::
  "Runtime \<Rightarrow> FileSystem \<Rightarrow> DirectoryView \<Rightarrow> int \<Rightarrow> LocalSymbolIndex
     \<Rightarrow> ((FsError + unit) \<times> LocalSymbolIndex) option" where
  "buildIndexFromCache rt fs dir batchSize ix =
     (if indexState ix = ready \<or> indexState ix = building then Some (Inr (), ix)
      else if \<not> accessible dir then Some (Inr (), ix\<lparr>indexState := ready\<rparr>)
      else case listing dir of
        Inl e \<Rightarrow> Some (Inl e, ix\<lparr>indexState := failed\<rparr>)
      | Inr allFiles \<Rightarrow>
          (let files = filter (\<lambda>file. endsWith file ''.json'') allFiles in
           if files \<noteq> [] \<and> batchSize \<le> 0 then None
           else Some (Inr (),
                  (processBatches rt fs (nat batchSize) files (ix\<lparr>indexState := building\<rparr>))
                    \<lparr>indexState := ready\<rparr>)))"

text \<open>
  Invariants of the symbol table: a property of the filter, the key and the entry that
  holds for every stored entry, and what it takes for the two kinds of entries the build
  creates to have it.
\<close>

definition tableInvariant ::
  "(string option \<Rightarrow> string \<Rightarrow> LocalSymbolIndexEntry \<Rightarrow> bool) \<Rightarrow> LocalSymbolIndex \<Rightarrow> bool" where
  "tableInvariant P ix = (\<forall>kv \<in> set (symbols ix). P (technologyIdentifier ix) (fst kv) (snd kv))"

definition entryInvariant ::
  "(string option \<Rightarrow> string \<Rightarrow> LocalSymbolIndexEntry \<Rightarrow> bool) \<Rightarrow> bool" where
  "entryInvariant P =
     ((\<forall>t refId ref filePath.
         \<not> filteredOut t (orElse (asString (member ref ''url'')) []) \<longrightarrow>
         P t refId (referenceEntry refId ref filePath)) \<and>
      (\<forall>t d filePath.
         \<not> filteredOut t (documentPath d) \<longrightarrow>
         P t (entry_id (documentEntry d filePath)) (documentEntry d filePath)))"

section \<open>Searching the local symbol index\<close>

text \<open>\<open>s.replaceAll(pattern, replacement)\<close> for a non-empty literal pattern.\<close>

function replaceAll :: "string \<Rightarrow> string \<Rightarrow> string \<Rightarrow> string" where
  "replaceAll [] pat rep = []"
| "replaceAll (c # cs) pat rep =
     (if pat \<noteq> [] \<and> prefix pat (c # cs)
      then rep @ replaceAll (drop (length pat) (c # cs)) pat rep
      else c # replaceAll cs pat rep)"
  by pat_completeness auto

termination
  by (relation "measure (\<lambda>(s, pat, rep). length s)") (auto simp: neq_Nil_conv)

declare replaceAll.simps [simp del]

definition backslash :: char where
  "backslash = CHR 0x5C"

text \<open>The syntax characters that the search escapes: \<open>. + ^ $ { } [ ] | ( )\<close> and the backslash.\<close>

definition isEscaped :: "char \<Rightarrow> bool" where
  "isEscaped c = (c \<in> set ''.+^${}[]|()'' \<or> c = backslash)"

definition escapeSpecial :: "string \<Rightarrow> string" where
  "escapeSpecial s = concat (map (\<lambda>c. if isEscaped c then [backslash, c] else [c]) s)"

definition starPlaceholder :: string where
  "starPlaceholder = CHR 0x00 # ''STAR'' @ [CHR 0x00]"

definition questionPlaceholder :: string where
  "questionPlaceholder = CHR 0x00 # ''QUESTION'' @ [CHR 0x00]"

text \<open>The chain of replacements that turns a wildcard query into the source of a pattern.\<close>

definition wildcardPattern :: "string \<Rightarrow> string" where
  "wildcardPattern query =
     toLowerCase
       (replaceAll
          (replaceAll
             (escapeSpecial
                (replaceAll (replaceAll query ''*'' starPlaceholder) ''?'' questionPlaceholder))
             starPlaceholder ''.*'')
          questionPlaceholder ''.'')"

text \<open>
  Regular expressions, for the patterns this chain can produce: a literal character, any
  character other than a line terminator, and any sequence of such characters. The
  expression is anchored at both ends.
\<close>

datatype RxAtom = Lit char | AnyChar | AnyStar

definition isSyntaxChar :: "char \<Rightarrow> bool" where
  "isSyntaxChar c = (c \<in> set ''^$.*+?()[]{}|'' \<or> c = backslash)"

text \<open>
  The body of a pattern, up to and including the closing \<open>$\<close>. \<open>None\<close> stands for a pattern
  outside this fragment, among them the patterns the constructor rejects.
\<close>

fun parseBody :: "string \<Rightarrow> RxAtom list option" where
  "parseBody [] = None"
| "parseBody [c] = (if c = CHR ''$'' then Some [] else None)"
| "parseBody (c # d # cs) =
     (if c = backslash
      then (if isSyntaxChar d then map_option ((#) (Lit d)) (parseBody cs) else None)
      else if c = CHR ''.''
      then (if d = CHR ''*'' then map_option ((#) AnyStar) (parseBody cs)
            else map_option ((#) AnyChar) (parseBody (d # cs)))
      else if isSyntaxChar c then None
      else map_option ((#) (Lit c)) (parseBody (d # cs)))"

text \<open>\<open>new RegExp(source)\<close> for a source that starts with \<open>^\<close>; \<open>None\<close> when it throws.\<close>

definition RegExp_new :: "string \<Rightarrow> RxAtom list option" where
  "RegExp_new source =
     (case source of
        [] \<Rightarrow> None
      | c # body \<Rightarrow> if c = CHR ''^'' then parseBody body else None)"

definition isLineTerminator :: "char \<Rightarrow> bool" where
  "isLineTerminator c = (c = CHR 0x0A \<or> c = CHR 0x0D)"

text \<open>\<open>regex.test(s)\<close> for an anchored expression.\<close>

fun rxTest :: "RxAtom list \<Rightarrow> string \<Rightarrow> bool" where
  "rxTest [] s = (s = [])"
| "rxTest (Lit c # r) [] = False"
| "rxTest (Lit c # r) (d # s) = (c = d \<and> rxTest r s)"
| "rxTest (AnyChar # r) [] = False"
| "rxTest (AnyChar # r) (d # s) = (\<not> isLineTerminator d \<and> rxTest r s)"
| "rxTest (AnyStar # r) [] = rxTest r []"
| "rxTest (AnyStar # r) (d # s) =
     (rxTest r (d # s) \<or> (\<not> isLineTerminator d \<and> rxTest (AnyStar # r) s))"

definition hasWildcards :: "string \<Rightarrow> bool" where
  "hasWildcards query = (CHR ''*'' \<in> set query \<or> CHR ''?'' \<in> set query)"

text \<open>The regular expression compiled before the loop; \<open>None\<close> when there is none.\<close>

definition compileWildcard :: "string \<Rightarrow> RxAtom list option" where
  "compileWildcard query =
     (if hasWildcards query then RegExp_new (''^'' @ wildcardPattern query @ ''$'') else None)"

text \<open>The three \<open>score +=\<close> statements for one query token.\<close>

definition tokenHits :: "LocalSymbolIndexEntry \<Rightarrow> nat \<Rightarrow> string \<Rightarrow> nat" where
  "tokenHits entry score queryToken =
     (let score1 = (if str_includes (toLowerCase (entry_title entry)) (toLowerCase queryToken)
                    then score + 50 else score);
          score2 = (if queryToken \<in> set (entry_tokens entry) then score1 + 30 else score1);
          score3 = (if str_includes (toLowerCase (entry_abstract entry)) (toLowerCase queryToken)
                    then score2 + 10 else score2)
      in score3)"

text \<open>The body of the loop over the entries: the score of one entry.\<close>

definition entryScore ::
  "RxAtom list option \<Rightarrow> string \<Rightarrow> string list \<Rightarrow> LocalSymbolIndexEntry \<Rightarrow> nat" where
  "entryScore wildcardRegex query queryTokens entry =
     (if hasWildcards query then
        (case wildcardRegex of
           Some re \<Rightarrow>
             if rxTest re (toLowerCase (entry_title entry))
                \<or> rxTest re (toLowerCase (entry_path entry))
                \<or> list_ex (rxTest re) (entry_tokens entry)
             then 100 else 0
         | None \<Rightarrow>
             if str_includes (toLowerCase (entry_title entry)) (toLowerCase query)
                \<or> str_includes (toLowerCase (entry_path entry)) (toLowerCase query)
             then 50 else 0)
      else foldl (tokenHits entry) 0 queryTokens)"

text \<open>
  The search loop for a given result of the compilation, then the stable sort by
  descending score, the cut at \<open>maxResults\<close> and the projection to the entries.
\<close>

definition searchWith ::
  "RxAtom list option \<Rightarrow> string \<Rightarrow> nat \<Rightarrow> LocalSymbolIndex \<Rightarrow> LocalSymbolIndexEntry list" where
  "searchWith wildcardRegex query maxResults ix =
     (let queryTokens = tokenize query;
          results =
            foldl (\<lambda>res kv.
                     let score = entryScore wildcardRegex query queryTokens (snd kv)
                     in if score > 0 then res @ [(snd kv, score)] else res)
                  [] (symbols ix)
      in map fst (take maxResults (sort_key (\<lambda>r. - int (snd r)) results)))"

definition search :: "string \<Rightarrow> nat \<Rightarrow> LocalSymbolIndex \<Rightarrow> LocalSymbolIndexEntry list" where
  "search query maxResults ix = searchWith (compileWildcard query) query maxResults ix"

text \<open>
  The score of the specification for a query without wildcards: for every query token, 50
  for a title hit, 30 for membership in the entry's tokens and 10 for an abstract hit,
  summed over the tokens.
\<close>

definition tokenScore :: "string list \<Rightarrow> LocalSymbolIndexEntry \<Rightarrow> nat" where
  "tokenScore queryTokens entry =
     (\<Sum>t\<leftarrow>queryTokens.
        (if str_includes (toLowerCase (entry_title entry)) (toLowerCase t) then 50 else 0)
      + (if t \<in> set (entry_tokens entry) then 30 else 0)
      + (if str_includes (toLowerCase (entry_abstract entry)) (toLowerCase t) then 10 else 0))"

text \<open>
  The translation of a wildcard query in the words of the specification: \<open>*\<close> is any
  sequence, \<open>?\<close> is any character, every other character is itself, in lower case.
\<close>

definition wildcardAtoms :: "string \<Rightarrow> RxAtom list" where
  "wildcardAtoms query =
     map (\<lambda>c. if c = CHR ''*'' then AnyStar else if c = CHR ''?'' then AnyChar else Lit (toLowerChar c))
       query"

text \<open>The blocks that one character of the query contributes at each stage.\<close>

definition blockB :: "char \<Rightarrow> string" where
  "blockB c = (if c = CHR ''*'' then starPlaceholder else if c = CHR ''?'' then questionPlaceholder else [c])"

definition blockC :: "char \<Rightarrow> string" where
  "blockC c = (if c = CHR ''*'' then starPlaceholder else if c = CHR ''?'' then questionPlaceholder
               else if isEscaped c then [backslash, c] else [c])"

definition blockD :: "char \<Rightarrow> string" where
  "blockD c = (if c = CHR ''*'' then ''.*'' else if c = CHR ''?'' then questionPlaceholder
               else if isEscaped c then [backslash, c] else [c])"

definition blockE :: "char \<Rightarrow> string" where
  "blockE c = (if c = CHR ''*'' then ''.*'' else if c = CHR ''?'' then ''.''
               else if isEscaped c then [backslash, c] else [c])"

definition blockF :: "char \<Rightarrow> string" where
  "blockF c = (if c = CHR ''*'' then ''.*'' else if c = CHR ''?'' then ''.''
               else if isEscaped c then [backslash, c] else [toLowerChar c])"

text \<open>What the loop tests for a wildcard query, with and without a compiled expression.\<close>

definition wildcardMatches :: "RxAtom list \<Rightarrow> LocalSymbolIndexEntry \<Rightarrow> bool" where
  "wildcardMatches re entry =
     (rxTest re (toLowerCase (entry_title entry))
      \<or> rxTest re (toLowerCase (entry_path entry))
      \<or> list_ex (rxTest re) (entry_tokens entry))"

definition literalMatches :: "string \<Rightarrow> LocalSymbolIndexEntry \<Rightarrow> bool" where
  "literalMatches query entry =
     (str_includes (toLowerCase (entry_title entry)) (toLowerCase query)
      \<or> str_includes (toLowerCase (entry_path entry)) (toLowerCase query))"

text \<open>
  The placeholders of the replacement chain share their delimiter with each other and with
  a NUL character of the query. The texts below are those on which the chain reads a
  placeholder that no wildcard has put there: a NUL or a \<open>?\<close>, then \<open>STAR\<close>, then a NUL, a
  \<open>*\<close> or a \<open>?\<close>; and a NUL, then \<open>QUESTION\<close>, then a NUL or a \<open>?\<close>.
\<close>

definition collisions :: "string list" where
  "collisions =
     [x @ ''STAR'' @ y. x \<leftarrow> [[CHR 0x00], ''?''], y \<leftarrow> [[CHR 0x00], ''*'', ''?'']]
     @ [CHR 0x00 # ''QUESTION'' @ y. y \<leftarrow> [[CHR 0x00], ''?'']]"

definition collides :: "string \<Rightarrow> bool" where
  "collides query = list_ex (str_includes query) collisions"

text \<open>
  The tokenizer in the words of the specification. The text is cut at its delimiters into
  the runs of other characters, and a run is cut at its case boundaries, before every
  capital letter that is not its first character. A run contributes its lower case and
  itself; a run of more than one part also contributes the lower case of every part, every
  part and, once more, its own lower case. The tokens are these contributions, each kept
  where it occurs first.
\<close>

function delimitedRuns :: "string \<Rightarrow> string list" where
  "delimitedRuns [] = []"
| "delimitedRuns (c # cs) =
     (if isDelimiter c then delimitedRuns cs
      else (c # takeWhile (\<lambda>d. \<not> isDelimiter d) cs)
             # delimitedRuns (dropWhile (\<lambda>d. \<not> isDelimiter d) cs))"
  by pat_completeness auto

termination
  by (relation "measure length") (simp_all add: length_dropWhile_le le_imp_less_Suc)

function caseParts :: "string \<Rightarrow> string list" where
  "caseParts [] = []"
| "caseParts (c # cs) =
     (c # takeWhile (\<lambda>d. \<not> isUpper d) cs) # caseParts (dropWhile (\<lambda>d. \<not> isUpper d) cs)"
  by pat_completeness auto

termination
  by (relation "measure length") (simp_all add: length_dropWhile_le le_imp_less_Suc)

definition wordTokens :: "string \<Rightarrow> string list" where
  "wordTokens w =
     [toLowerCase w, w]
     @ (if length (caseParts w) > 1
        then concat (map (\<lambda>p. [toLowerCase p, p]) (caseParts w)) @ [toLowerCase w]
        else [])"

definition firstOccurrences :: "'a list \<Rightarrow> 'a list" where
  "firstOccurrences xs = rev (remdups (rev xs))"

definition delimiterCaseTokens :: "string \<Rightarrow> string list" where
  "delimiterCaseTokens s = firstOccurrences (concat (map wordTokens (delimitedRuns s)))"

section \<open>Fixtures\<close>

text \<open>The technologies and documents of the repository's test fixtures.\<close>

definition mockSwiftUITechnology :: Technology where
  "mockSwiftUITechnology =
     \<lparr> tech_identifier = ''doc://com.apple.documentation/documentation/swiftui'',
       tech_title = ''SwiftUI'', tech_url = ''/documentation/swiftui'',
       tech_kind = Some ''symbol'', tech_role = Some ''collection'' \<rparr>"

definition mockUIKitTechnology :: Technology where
  "mockUIKitTechnology =
     \<lparr> tech_identifier = ''doc://com.apple.documentation/documentation/uikit'',
       tech_title = ''UIKit'', tech_url = ''/documentation/uikit'',
       tech_kind = Some ''symbol'', tech_role = Some ''collection'' \<rparr>"

definition mockSwiftUIFramework :: json where
  "mockSwiftUIFramework =
     JObj [(''abstract'', JArr [JObj [(''text'', JStr ''Declare the user interface and behavior for your app.''), (''type'', JStr ''text'')]]),
           (''metadata'', JObj [(''title'', JStr ''SwiftUI''), (''role'', JStr ''collection''),
              (''platforms'', JArr [JObj [(''name'', JStr ''iOS''), (''introducedAt'', JStr ''13.0'')]])]),
           (''references'', JObj
              [(''doc://com.apple.documentation/documentation/swiftui/button'',
                 JObj [(''title'', JStr ''Button''), (''kind'', JStr ''struct''),
                       (''url'', JStr ''/documentation/swiftui/button'')])]),
           (''topicSections'', JArr
              [JObj [(''title'', JStr ''Views''),
                     (''identifiers'', JArr [JStr ''doc://com.apple.documentation/documentation/swiftui/view''])]])]"

text \<open>
  A session in which SwiftUI is selected and framework data, a framework index, an
  expanded identifier and a local index are all present.
\<close>

definition loadedState :: "(nat, nat, nat) ServerState" where
  "loadedState =
     setLocalSymbolIndex 7
       (markIdentifierExpanded ''doc://test''
         (setFrameworkIndex (Some 5)
           (setActiveFrameworkData (Some mockSwiftUIFramework)
             (setActiveTechnology (Some mockSwiftUITechnology) newServerState))))"

definition emptyWorld :: HttpWorld where
  "emptyWorld =
     \<lparr> now = 0, axiosCalls = 0, delays = [],
       cache = \<lparr> mc_entries = [], cacheTimeout = 600000, maxSize = 100 \<rparr> \<rparr>"

definition connReset :: failure where
  "connReset = AxiosError (Some ''ECONNRESET'') None ''read ECONNRESET''"

definition unavailable :: failure where
  "unavailable = AxiosError None (Some 503) ''Request failed with status code 503''"

definition flakyNetwork :: network where
  "flakyNetwork k url = (if k < 2 then (10, Inl connReset) else (10, Inr mockSwiftUIFramework))"

definition downNetwork :: network where
  "downNetwork k url = (10, Inl unavailable)"

definition mockViewSymbol :: json where
  "mockViewSymbol =
     JObj [(''metadata'', JObj [(''title'', JStr ''View''), (''url'', JStr ''/documentation/swiftui/view''),
              (''symbolKind'', JStr ''protocol''),
              (''platforms'', JArr [JObj [(''name'', JStr ''iOS''), (''introducedAt'', JStr ''13.0'')]])]),
           (''abstract'', JArr [JObj [(''text'', JStr ''A type that represents your UI.''), (''type'', JStr ''text'')]]),
           (''references'', JObj
              [(''doc://Text'',
                 JObj [(''title'', JStr ''Text''), (''url'', JStr ''/documentation/swiftui/text''),
                       (''kind'', JStr ''symbol'')])])]"

text \<open>
  A platform for the examples: the two fixture documents are written as fixed texts, and
  exactly these texts parse.
\<close>

definition fixtureRuntime :: Runtime where
  "fixtureRuntime =
     \<lparr> JSON_parse = (\<lambda>raw. if raw = ''<SwiftUI>'' then Some mockSwiftUIFramework
                           else if raw = ''<View>'' then Some mockViewSymbol
                           else if raw = ''{}'' then Some (JObj [])
                           else None),
       JSON_stringify = (\<lambda>v. if v = mockSwiftUIFramework then ''<SwiftUI>''
                              else if v = mockViewSymbol then ''<View>'' else ''{}''),
       sha256hex = (\<lambda>p. ''9f86d081884c7d659a2feaa0c55ad015'') \<rparr>"

definition fixtureCache :: FileCache where
  "fixtureCache = \<lparr> docsDir = ''/tmp/.cache'' \<rparr>"

definition emptyDisk :: FileSystem where
  "emptyDisk = \<lparr> files = (\<lambda>p. Missing), mkdirFault = None, writeFault = (\<lambda>p. None) \<rparr>"

definition fullDisk :: FileSystem where
  "fullDisk = \<lparr> files = (\<lambda>p. Missing), mkdirFault = None, writeFault = (\<lambda>p. Some ''ENOSPC'') \<rparr>"

definition lockedDisk :: FileSystem where
  "lockedDisk = \<lparr> files = (\<lambda>p. Missing), mkdirFault = Some ''EACCES'', writeFault = (\<lambda>p. None) \<rparr>"

definition corruptDisk :: FileSystem where
  "corruptDisk = \<lparr> files = (\<lambda>p. Content ''{not json''), mkdirFault = None, writeFault = (\<lambda>p. None) \<rparr>"

definition invalidDisk :: FileSystem where
  "invalidDisk = \<lparr> files = (\<lambda>p. Content ''{}''), mkdirFault = None, writeFault = (\<lambda>p. None) \<rparr>"

definition steadyNetwork :: network where
  "steadyNetwork k url = (10, Inr mockSwiftUIFramework)"

definition viewDirectory :: DirectoryView where
  "viewDirectory = \<lparr> accessible = True, listing = Inr [''view.json'', ''notes.txt''] \<rparr>"

definition textReference :: json where
  "textReference =
     JObj [(''title'', JStr ''Text''), (''url'', JStr ''/documentation/swiftui/text''),
           (''kind'', JStr ''symbol'')]"

definition viewIndex :: LocalSymbolIndex where
  "viewIndex =
     \<lparr> symbols =
         [(''/documentation/swiftui/view'', documentEntry mockViewSymbol ''/tmp/.cache/view.json''),
          (''doc://Text'', referenceEntry ''doc://Text'' textReference ''/tmp/.cache/view.json'')],
       cacheDir = ''/tmp/.cache'', technologyIdentifier = None, indexState = ready \<rparr>"

definition mockUIKitFramework :: json where
  "mockUIKitFramework =
     JObj [(''metadata'', JObj [(''title'', JStr ''UIKit''), (''role'', JStr ''collection'')]),
           (''references'', JObj
              [(''doc://com.apple.documentation/documentation/uikit/uiview'',
                 JObj [(''title'', JStr ''UIView''), (''url'', JStr ''/documentation/uikit/uiview''),
                       (''kind'', JStr ''symbol'')])])]"

definition mixedRuntime :: Runtime where
  "mixedRuntime =
     \<lparr> JSON_parse = (\<lambda>raw. if raw = ''<View>'' then Some mockViewSymbol
                           else if raw = ''<UIKit>'' then Some mockUIKitFramework
                           else None),
       JSON_stringify = (\<lambda>v. if v = mockViewSymbol then ''<View>'' else ''<UIKit>''),
       sha256hex = (\<lambda>p. ''9f86d081884c7d659a2feaa0c55ad015'') \<rparr>"

definition mixedDisk :: FileSystem where
  "mixedDisk =
     \<lparr> files = (\<lambda>p. if p = ''/tmp/.cache/view.json'' then Content ''<View>''
                       else if p = ''/tmp/.cache/uikit.json'' then Content ''<UIKit>''
                       else Missing),
       mkdirFault = None, writeFault = (\<lambda>p. None) \<rparr>"

definition mixedDirectory :: DirectoryView where
  "mixedDirectory = \<lparr> accessible = True, listing = Inr [''view.json'', ''uikit.json''] \<rparr>"

definition mixedIndex :: LocalSymbolIndex where
  "mixedIndex =
     \<lparr> symbols =
         [(''/documentation/swiftui/view'', documentEntry mockViewSymbol ''/tmp/.cache/view.json''),
          (''doc://Text'', referenceEntry ''doc://Text'' textReference ''/tmp/.cache/view.json''),
          (''UIKit'', documentEntry mockUIKitFramework ''/tmp/.cache/uikit.json'')],
       cacheDir = ''/tmp/.cache'', technologyIdentifier = Some ''swiftui'', indexState = ready \<rparr>"

text \<open>Symbol documents in the shape of the test fixtures, and an index that holds them.\<close>

definition symbolDocument :: "string \<Rightarrow> string \<Rightarrow> string \<Rightarrow> string \<Rightarrow> json" where
  "symbolDocument title path kind abstract =
     JObj [(''metadata'', JObj [(''title'', JStr title), (''url'', JStr path), (''symbolKind'', JStr kind),
              (''platforms'', JArr [JObj [(''name'', JStr ''iOS''), (''introducedAt'', JStr ''13.0'')]])]),
           (''abstract'', JArr [JObj [(''text'', JStr abstract), (''type'', JStr ''text'')]])]"

definition textEntry :: LocalSymbolIndexEntry where
  "textEntry = documentEntry
     (symbolDocument ''Text'' ''/documentation/swiftui/text'' ''struct''
        ''A view that displays one or more lines of read-only text.'') ''/tmp/.cache/text.json''"

definition buttonEntry :: LocalSymbolIndexEntry where
  "buttonEntry = documentEntry
     (symbolDocument ''Button'' ''/documentation/swiftui/button'' ''struct''
        ''A control that initiates an action.'') ''/tmp/.cache/button.json''"

definition viewEntry :: LocalSymbolIndexEntry where
  "viewEntry = documentEntry
     (symbolDocument ''View'' ''/documentation/swiftui/view'' ''protocol''
        ''A type that represents your UI.'') ''/tmp/.cache/view.json''"

definition gridItemEntry :: LocalSymbolIndexEntry where
  "gridItemEntry = documentEntry
     (symbolDocument ''GridItem'' ''/documentation/swiftui/griditem'' ''struct''
        ''A description of a row or a column in a lazy grid.'') ''/tmp/.cache/griditem.json''"

definition gridRowEntry :: LocalSymbolIndexEntry where
  "gridRowEntry = documentEntry
     (symbolDocument ''GridRow'' ''/documentation/swiftui/gridrow'' ''struct''
        ''A horizontal row in a two-dimensional grid container.'') ''/tmp/.cache/gridrow.json''"

definition demoIndex :: LocalSymbolIndex where
  "demoIndex =
     \<lparr> symbols = map (\<lambda>e. (entry_id e, e)) [textEntry, buttonEntry, viewEntry, gridItemEntry, gridRowEntry],
       cacheDir = ''/tmp/.cache'', technologyIdentifier = None, indexState = ready \<rparr>"

section \<open>Properties of the session state\<close>

lemma setActiveTechnology_changed:
  "map_option tech_identifier t \<noteq> map_option tech_identifier (getActiveTechnology st) \<Longrightarrow>
   setActiveTechnology t st =
     resetForTechnologyChange (st\<lparr>technologyState := ts_setActiveTechnology t (technologyState st)\<rparr>)"
  by (auto simp: setActiveTechnology_def Let_def hasChanged_def ts_setActiveTechnology_def
      getActiveTechnology_def)

lemma setActiveTechnology_same:
  "map_option tech_identifier t = map_option tech_identifier (getActiveTechnology st) \<Longrightarrow>
   setActiveTechnology t st =
     st\<lparr>technologyState := ts_setActiveTechnology t (technologyState st)\<rparr>"
  by (auto simp: setActiveTechnology_def Let_def hasChanged_def ts_setActiveTechnology_def
      getActiveTechnology_def)

lemmas state_defs =
  getActiveTechnology_def getActiveFrameworkData_def getFrameworkIndex_def
  getExpandedIdentifiers_def getLocalSymbolIndex_def resetForTechnologyChange_def
  fs_reset_def ss_resetForTechnologyChange_def ts_setActiveTechnology_def
  clearActiveFrameworkData_def fs_clearActiveFrameworkData_def

lemma loadedState_fields:
  "getActiveTechnology loadedState = Some mockSwiftUITechnology"
  "getActiveFrameworkData loadedState = Some mockSwiftUIFramework"
  "getFrameworkIndex loadedState = Some 5"
  "getExpandedIdentifiers loadedState = {''doc://test''}"
  "getLocalSymbolIndex loadedState = Some 7"
  by (simp_all add: loadedState_def setLocalSymbolIndex_def markIdentifierExpanded_def
      fs_markIdentifierExpanded_def setFrameworkIndex_def setActiveFrameworkData_def
      setActiveTechnology_def hasChanged_def newServerState_def Let_def state_defs)

text \<open>
  Claim C1. Setting an active technology whose identifier differs from the identifier of
  the current one (an absent technology has no identifier) leaves the framework data, the
  framework index and the local symbol index undefined and the expanded-identifiers set
  empty; setting a technology with the same identifier leaves all four unchanged.
\<close>

theorem setActiveTechnology_invalidation:
  "(map_option tech_identifier t \<noteq> map_option tech_identifier (getActiveTechnology st) \<longrightarrow>
      getActiveFrameworkData (setActiveTechnology t st) = None \<and>
      getFrameworkIndex (setActiveTechnology t st) = None \<and>
      getLocalSymbolIndex (setActiveTechnology t st) = None \<and>
      getExpandedIdentifiers (setActiveTechnology t st) = {}) \<and>
   (map_option tech_identifier t = map_option tech_identifier (getActiveTechnology st) \<longrightarrow>
      getActiveFrameworkData (setActiveTechnology t st) = getActiveFrameworkData st \<and>
      getFrameworkIndex (setActiveTechnology t st) = getFrameworkIndex st \<and>
      getLocalSymbolIndex (setActiveTechnology t st) = getLocalSymbolIndex st \<and>
      getExpandedIdentifiers (setActiveTechnology t st) = getExpandedIdentifiers st)"
proof (intro conjI impI)
  assume diff: "map_option tech_identifier t \<noteq> map_option tech_identifier (getActiveTechnology st)"
  note eq = setActiveTechnology_changed [OF diff]
  show "getActiveFrameworkData (setActiveTechnology t st) = None"
    by (simp add: eq state_defs)
  show "getFrameworkIndex (setActiveTechnology t st) = None"
    by (simp add: eq state_defs)
  show "getLocalSymbolIndex (setActiveTechnology t st) = None"
    by (simp add: eq state_defs)
  show "getExpandedIdentifiers (setActiveTechnology t st) = {}"
    by (simp add: eq state_defs)
next
  assume same: "map_option tech_identifier t = map_option tech_identifier (getActiveTechnology st)"
  note eq = setActiveTechnology_same [OF same]
  show "getActiveFrameworkData (setActiveTechnology t st) = getActiveFrameworkData st"
    by (simp add: eq state_defs)
  show "getFrameworkIndex (setActiveTechnology t st) = getFrameworkIndex st"
    by (simp add: eq state_defs)
  show "getLocalSymbolIndex (setActiveTechnology t st) = getLocalSymbolIndex st"
    by (simp add: eq state_defs)
  show "getExpandedIdentifiers (setActiveTechnology t st) = getExpandedIdentifiers st"
    by (simp add: eq state_defs)
qed

theorem setActiveTechnology_invalidation_witness:
  "map_option tech_identifier (Some mockUIKitTechnology)
      \<noteq> map_option tech_identifier (getActiveTechnology loadedState) \<and>
   getActiveFrameworkData (setActiveTechnology (Some mockUIKitTechnology) loadedState) = None \<and>
   getFrameworkIndex (setActiveTechnology (Some mockUIKitTechnology) loadedState) = None \<and>
   getLocalSymbolIndex (setActiveTechnology (Some mockUIKitTechnology) loadedState) = None \<and>
   getExpandedIdentifiers (setActiveTechnology (Some mockUIKitTechnology) loadedState) = {} \<and>
   map_option tech_identifier (Some mockSwiftUITechnology)
      = map_option tech_identifier (getActiveTechnology loadedState) \<and>
   getActiveFrameworkData (setActiveTechnology (Some mockSwiftUITechnology) loadedState)
      = Some mockSwiftUIFramework \<and>
   getFrameworkIndex (setActiveTechnology (Some mockSwiftUITechnology) loadedState) = Some 5 \<and>
   getLocalSymbolIndex (setActiveTechnology (Some mockSwiftUITechnology) loadedState) = Some 7 \<and>
   getExpandedIdentifiers (setActiveTechnology (Some mockSwiftUITechnology) loadedState)
      = {''doc://test''}"
proof -
  have d: "map_option tech_identifier (Some mockUIKitTechnology)
      \<noteq> map_option tech_identifier (getActiveTechnology loadedState)"
    by (simp add: loadedState_fields mockUIKitTechnology_def mockSwiftUITechnology_def)
  have s: "map_option tech_identifier (Some mockSwiftUITechnology)
      = map_option tech_identifier (getActiveTechnology loadedState)"
    by (simp add: loadedState_fields)
  show ?thesis
    using d s
      setActiveTechnology_invalidation [of "Some mockUIKitTechnology" loadedState]
      setActiveTechnology_invalidation [of "Some mockSwiftUITechnology" loadedState]
    by (simp add: loadedState_fields)
qed

section \<open>Properties of the choose-technology handler\<close>

lemma resolveTechnology_fixture:
  "resolveTechnology [mockSwiftUITechnology, mockUIKitTechnology] (Some ''swiftui'') None
     = Some mockSwiftUITechnology"
  by (simp add: resolveTechnology_def truthy_def trim_def toLowerCase_def toLowerChar_def
      isSpace_def mockSwiftUITechnology_def mockUIKitTechnology_def)

lemma ensureFramework_fixture: "ensureFramework mockSwiftUITechnology = Inr ()"
  by (simp add: ensureFramework_def mockSwiftUITechnology_def)

text \<open>
  Claim C10. Whenever the choose-technology handler resolves a framework technology, the
  active framework data is undefined afterwards, also when the chosen technology has the
  identifier of the one that was active; in that case the framework index and the local
  symbol index stay as they were.
\<close>

theorem chooseTechnology_clears_framework_data:
  assumes "chooseTechnology candidates name ident st = Inr (Selected chosen, st')"
  shows "getActiveTechnology st' = Some chosen \<and>
         getActiveFrameworkData st' = None \<and>
         (Some (tech_identifier chosen) = map_option tech_identifier (getActiveTechnology st) \<longrightarrow>
            getFrameworkIndex st' = getFrameworkIndex st \<and>
            getLocalSymbolIndex st' = getLocalSymbolIndex st)"
proof -
  from assms have st': "st' = clearActiveFrameworkData (setActiveTechnology (Some chosen) st)"
    by (auto simp: chooseTechnology_def split: option.splits sum.splits)
  have tech: "getActiveTechnology st' = Some chosen"
    by (simp add: st' setActiveTechnology_def Let_def state_defs)
  have data: "getActiveFrameworkData st' = None"
    by (simp add: st' state_defs)
  have keep: "getFrameworkIndex st' = getFrameworkIndex st \<and>
              getLocalSymbolIndex st' = getLocalSymbolIndex st"
    if "Some (tech_identifier chosen) = map_option tech_identifier (getActiveTechnology st)"
  proof -
    from that have "map_option tech_identifier (Some chosen)
        = map_option tech_identifier (getActiveTechnology st)"
      by simp
    from setActiveTechnology_same [OF this] show ?thesis
      by (simp add: st' state_defs)
  qed
  from tech data keep show ?thesis by blast
qed

theorem chooseTechnology_clears_framework_data_witness:
  "chooseTechnology [mockSwiftUITechnology, mockUIKitTechnology] (Some ''swiftui'') None loadedState
     = Inr (Selected mockSwiftUITechnology,
            clearActiveFrameworkData (setActiveTechnology (Some mockSwiftUITechnology) loadedState)) \<and>
   Some (tech_identifier mockSwiftUITechnology)
     = map_option tech_identifier (getActiveTechnology loadedState) \<and>
   getActiveFrameworkData loadedState = Some mockSwiftUIFramework \<and>
   getActiveFrameworkData
     (clearActiveFrameworkData (setActiveTechnology (Some mockSwiftUITechnology) loadedState)) = None \<and>
   getFrameworkIndex
     (clearActiveFrameworkData (setActiveTechnology (Some mockSwiftUITechnology) loadedState)) = Some 5 \<and>
   getLocalSymbolIndex
     (clearActiveFrameworkData (setActiveTechnology (Some mockSwiftUITechnology) loadedState)) = Some 7"
proof -
  have run: "chooseTechnology [mockSwiftUITechnology, mockUIKitTechnology] (Some ''swiftui'') None
      loadedState
     = Inr (Selected mockSwiftUITechnology,
            clearActiveFrameworkData (setActiveTechnology (Some mockSwiftUITechnology) loadedState))"
    by (simp add: chooseTechnology_def resolveTechnology_fixture ensureFramework_fixture)
  have same: "Some (tech_identifier mockSwiftUITechnology)
     = map_option tech_identifier (getActiveTechnology loadedState)"
    by (simp add: loadedState_fields)
  note sel = chooseTechnology_clears_framework_data [OF run]
  from sel have data: "getActiveFrameworkData
     (clearActiveFrameworkData (setActiveTechnology (Some mockSwiftUITechnology) loadedState)) = None"
    by blast
  from sel same have keep: "getFrameworkIndex
       (clearActiveFrameworkData (setActiveTechnology (Some mockSwiftUITechnology) loadedState))
         = getFrameworkIndex loadedState"
     "getLocalSymbolIndex
       (clearActiveFrameworkData (setActiveTechnology (Some mockSwiftUITechnology) loadedState))
         = getLocalSymbolIndex loadedState"
    by blast+
  show ?thesis
    by (intro conjI) (simp_all only: run same data keep loadedState_fields)
qed

section \<open>Properties of the transport client\<close>

lemma map_of_delete_append:
  "map_of (AList.delete k xs @ [(k, v)]) k = Some v"
  by (simp add: map_add_def AList.delete_conv')

lemma mc_get_miss_persists:
  assumes "cacheHit (fst (mc_get key t c)) = None"
  shows "cacheHit (fst (mc_get key t' (snd (mc_get key t c)))) = None"
  using assms
  by (auto simp: mc_get_def cacheHit_def map_of_delete_append AList.delete_conv'
      split: option.splits if_splits prod.splits)

lemma afterCall_fields [simp]:
  "axiosCalls (afterCall cfg net path w) = Suc (axiosCalls w)"
  "delays (afterCall cfg net path w) = delays w"
  by (simp_all add: afterCall_def)

lemma afterBackoff_fields [simp]:
  "axiosCalls (afterBackoff cfg n w) = axiosCalls w"
  "delays (afterBackoff cfg n w) = delays w @ [backoffDelay cfg n]"
  by (simp_all add: afterBackoff_def)

lemma cacheMiss_afterCall:
  "cacheMiss (requestUrl cfg path) w \<Longrightarrow>
   cacheMiss (requestUrl cfg path) (afterBackoff cfg n (afterCall cfg net path w))"
  by (simp add: cacheMiss_def afterBackoff_def afterCall_def mc_get_miss_persists)

lemma makeRequest_retry_step:
  assumes miss: "cacheMiss (requestUrl cfg path) w"
    and fail: "callOutcome net (axiosCalls w) (requestUrl cfg path) = Inl e"
    and retry: "isRetryableError e"
    and below: "int n < maxRetryAttempts cfg"
  shows "makeRequest cfg net path n w =
         makeRequest cfg net path (n + 1) (afterBackoff cfg n (afterCall cfg net path w))"
  using assms
  by (subst makeRequest.simps)
     (simp add: Let_def cacheMiss_def requestUrl_def afterBackoff_def afterCall_def backoffDelay_def)

lemma makeRequest_success_step:
  assumes miss: "cacheMiss (requestUrl cfg path) w"
    and ok: "callOutcome net (axiosCalls w) (requestUrl cfg path) = Inr d"
  shows "makeRequest cfg net path n w =
           (Inr d, (afterCall cfg net path w)
              \<lparr>cache := mc_set (requestUrl cfg path) d (now (afterCall cfg net path w))
                         (cache (afterCall cfg net path w))\<rparr>)"
  using assms
  by (subst makeRequest.simps)
     (simp add: Let_def cacheMiss_def requestUrl_def afterCall_def)

lemma makeRequest_final_step:
  assumes miss: "cacheMiss (requestUrl cfg path) w"
    and fail: "callOutcome net (axiosCalls w) (requestUrl cfg path) = Inl e"
    and stop: "\<not> (isRetryableError e \<and> int n < maxRetryAttempts cfg)"
  shows "makeRequest cfg net path n w
           = (Inl (FetchError (''Failed to fetch documentation: '' @ message e) e),
              afterCall cfg net path w)"
  using assms
  by (subst makeRequest.simps)
     (auto simp add: Let_def cacheMiss_def requestUrl_def afterCall_def)

lemma makeRequest_exhaust:
  assumes "maxRetryAttempts cfg = int m"
    and "n \<le> m" and "1 \<le> n"
    and "cacheMiss (requestUrl cfg path) w"
    and "\<forall>i \<le> m - n. \<exists>e. callOutcome net (axiosCalls w + i) (requestUrl cfg path) = Inl e \<and> isRetryableError e"
  shows "\<exists>e w'. makeRequest cfg net path n w
            = (Inl (FetchError (''Failed to fetch documentation: '' @ message e) e), w') \<and>
          callOutcome net (axiosCalls w + (m - n)) (requestUrl cfg path) = Inl e \<and>
          axiosCalls w' = axiosCalls w + (m - n + 1) \<and>
          delays w' = delays w @ map (backoffDelay cfg) [n..<m]"
  using assms
proof (induction "m - n" arbitrary: n w)
  case 0
  then have nm: "n = m" by simp
  from 0 obtain e where e: "callOutcome net (axiosCalls w) (requestUrl cfg path) = Inl e"
    by fastforce
  have "\<not> (isRetryableError e \<and> int n < maxRetryAttempts cfg)"
    using 0 nm by simp
  from makeRequest_final_step [OF "0.prems"(4) e this] e show ?case
    by (simp add: nm)
next
  case (Suc k)
  then have lt: "n < m" and k: "k = m - Suc n" by simp_all
  from Suc.prems(5) obtain e where e: "callOutcome net (axiosCalls w) (requestUrl cfg path) = Inl e"
    and re: "isRetryableError e"
    by fastforce
  let ?w = "afterBackoff cfg n (afterCall cfg net path w)"
  have step: "makeRequest cfg net path n w = makeRequest cfg net path (Suc n) ?w"
    using makeRequest_retry_step [OF Suc.prems(4) e re] lt Suc.prems(1) by simp
  have miss': "cacheMiss (requestUrl cfg path) ?w"
    by (rule cacheMiss_afterCall [OF Suc.prems(4)])
  have all': "\<forall>i \<le> m - Suc n. \<exists>e. callOutcome net (axiosCalls ?w + i) (requestUrl cfg path) = Inl e \<and> isRetryableError e"
  proof (intro allI impI)
    fix i assume "i \<le> m - Suc n"
    then have "Suc i \<le> m - n" using lt by simp
    with Suc.prems(5) show "\<exists>e. callOutcome net (axiosCalls ?w + i) (requestUrl cfg path) = Inl e \<and> isRetryableError e"
      by (metis add_Suc_shift afterBackoff_fields(1) afterCall_fields(1))
  qed
  from Suc.hyps(1) [OF k Suc.prems(1) _ _ miss' all'] lt
  obtain e' w' where r: "makeRequest cfg net path (Suc n) ?w
            = (Inl (FetchError (''Failed to fetch documentation: '' @ message e') e'), w')"
     "callOutcome net (axiosCalls ?w + (m - Suc n)) (requestUrl cfg path) = Inl e'"
     "axiosCalls w' = axiosCalls ?w + (m - Suc n + 1)"
     "delays w' = delays ?w @ map (backoffDelay cfg) [Suc n..<m]"
    by auto
  have idx: "axiosCalls ?w + (m - Suc n) = axiosCalls w + (m - n)" using lt by simp
  show ?case
    using r lt unfolding step idx
    by (auto simp: upt_conv_Cons)
qed

lemma makeRequest_twice_then_ok:
  assumes miss: "cacheMiss (requestUrl cfg path) w"
    and big: "3 \<le> maxRetryAttempts cfg"
    and f1: "callOutcome net (axiosCalls w) (requestUrl cfg path) = Inl e1" "isRetryableError e1"
    and f2: "callOutcome net (axiosCalls w + 1) (requestUrl cfg path) = Inl e2" "isRetryableError e2"
    and ok: "callOutcome net (axiosCalls w + 2) (requestUrl cfg path) = Inr d"
  shows "fst (makeRequest cfg net path 1 w) = Inr d \<and>
         axiosCalls (snd (makeRequest cfg net path 1 w)) = axiosCalls w + 3 \<and>
         delays (snd (makeRequest cfg net path 1 w))
           = delays w @ [baseRetryDelayMs cfg, baseRetryDelayMs cfg * 2]"
proof -
  let ?w1 = "afterBackoff cfg 1 (afterCall cfg net path w)"
  let ?w2 = "afterBackoff cfg 2 (afterCall cfg net path ?w1)"
  have s1: "makeRequest cfg net path 1 w = makeRequest cfg net path 2 ?w1"
    using makeRequest_retry_step [OF miss f1, of 1] big by (simp add: numeral_2_eq_2)
  have m1: "cacheMiss (requestUrl cfg path) ?w1"
    by (rule cacheMiss_afterCall [OF miss])
  have s2: "makeRequest cfg net path 2 ?w1 = makeRequest cfg net path 3 ?w2"
    using makeRequest_retry_step [OF m1 _ f2(2), of net 2] f2(1) big
    by (simp add: numeral_2_eq_2 numeral_3_eq_3)
  have m2: "cacheMiss (requestUrl cfg path) ?w2"
    by (rule cacheMiss_afterCall [OF m1])
  have s3: "makeRequest cfg net path 3 ?w2 =
     (Inr d, (afterCall cfg net path ?w2)
        \<lparr>cache := mc_set (requestUrl cfg path) d (now (afterCall cfg net path ?w2))
                   (cache (afterCall cfg net path ?w2))\<rparr>)"
    using makeRequest_success_step [OF m2, of net d 3] ok by (simp add: numeral_2_eq_2)
  show ?thesis
    unfolding s1 s2 s3 by (simp add: backoffDelay_def)
qed

lemma isRetryableError_iff:
  "isRetryableError e \<longleftrightarrow>
     (\<exists>code status msg. e = AxiosError code status msg \<and>
        (code \<in> Some ` {''ECONNRESET'', ''ETIMEDOUT'', ''ECONNABORTED''} \<or>
         status \<in> Some ` {429, 500, 502, 503, 504}))"
  by (cases e) (auto split: option.splits)

text \<open>
  Claim C6. A failure is retryable exactly when it is an axios error with network code
  ECONNRESET, ETIMEDOUT or ECONNABORTED or with HTTP status 429, 500, 502, 503 or 504.
  When the response cache misses, a retryable failure of attempt \<open>n\<close> below the attempt
  limit is followed by exactly one delay of \<open>baseRetryDelayMs * 2 ^ (n - 1)\<close>, which is
  \<open>baseRetryDelayMs * 2 ^ ((n + 1) - 2)\<close> before attempt \<open>n + 1\<close>, and by that attempt.
  With a limit of at least 3 (the default), two retryable failures followed by a success
  make exactly three calls, wait \<open>baseRetryDelayMs\<close> and \<open>baseRetryDelayMs * 2\<close>, and
  return the payload of the last call. When all attempts fail retryably the request
  raises the wrapped failure whose cause is the error of the last call.
\<close>

theorem makeRequest_retry_backoff:
  assumes miss: "cacheMiss (requestUrl cfg path) w"
  shows "(isRetryableError e \<longleftrightarrow>
            (\<exists>code status msg. e = AxiosError code status msg \<and>
               (code \<in> Some ` {''ECONNRESET'', ''ETIMEDOUT'', ''ECONNABORTED''} \<or>
                status \<in> Some ` {429, 500, 502, 503, 504}))) \<and>
         (callOutcome net (axiosCalls w) (requestUrl cfg path) = Inl e \<and> isRetryableError e \<and>
            1 \<le> n \<and> int n < maxRetryAttempts cfg \<longrightarrow>
            makeRequest cfg net path n w
              = makeRequest cfg net path (n + 1) (afterBackoff cfg n (afterCall cfg net path w)) \<and>
            axiosCalls (afterBackoff cfg n (afterCall cfg net path w)) = axiosCalls w + 1 \<and>
            delays (afterBackoff cfg n (afterCall cfg net path w))
              = delays w @ [baseRetryDelayMs cfg * 2 ^ ((n + 1) - 2)]) \<and>
         (3 \<le> maxRetryAttempts cfg \<and>
            callOutcome net (axiosCalls w) (requestUrl cfg path) = Inl ea \<and> isRetryableError ea \<and>
            callOutcome net (axiosCalls w + 1) (requestUrl cfg path) = Inl eb \<and> isRetryableError eb \<and>
            callOutcome net (axiosCalls w + 2) (requestUrl cfg path) = Inr d \<longrightarrow>
            fst (makeRequest cfg net path 1 w) = Inr d \<and>
            axiosCalls (snd (makeRequest cfg net path 1 w)) = axiosCalls w + 3 \<and>
            delays (snd (makeRequest cfg net path 1 w))
              = delays w @ [baseRetryDelayMs cfg, baseRetryDelayMs cfg * 2]) \<and>
         (maxRetryAttempts cfg = int m \<and> 1 \<le> m \<and>
            (\<forall>i < m. \<exists>x. callOutcome net (axiosCalls w + i) (requestUrl cfg path) = Inl x
                \<and> isRetryableError x) \<longrightarrow>
            (\<exists>x. callOutcome net (axiosCalls w + (m - 1)) (requestUrl cfg path) = Inl x \<and>
               fst (makeRequest cfg net path 1 w)
                 = Inl (FetchError (''Failed to fetch documentation: '' @ message x) x)) \<and>
            axiosCalls (snd (makeRequest cfg net path 1 w)) = axiosCalls w + m \<and>
            delays (snd (makeRequest cfg net path 1 w))
              = delays w @ map (\<lambda>k. baseRetryDelayMs cfg * 2 ^ (k - 1)) [1..<m])"
proof (intro conjI impI)
  show "isRetryableError e \<longleftrightarrow>
            (\<exists>code status msg. e = AxiosError code status msg \<and>
               (code \<in> Some ` {''ECONNRESET'', ''ETIMEDOUT'', ''ECONNABORTED''} \<or>
                status \<in> Some ` {429, 500, 502, 503, 504}))"
    by (rule isRetryableError_iff)
next
  assume a: "callOutcome net (axiosCalls w) (requestUrl cfg path) = Inl e \<and> isRetryableError e \<and>
            1 \<le> n \<and> int n < maxRetryAttempts cfg"
  then show "makeRequest cfg net path n w
      = makeRequest cfg net path (n + 1) (afterBackoff cfg n (afterCall cfg net path w))"
    using makeRequest_retry_step [OF miss] by blast
  show "axiosCalls (afterBackoff cfg n (afterCall cfg net path w)) = axiosCalls w + 1"
    by simp
  from a have "n + 1 - 2 = n - 1" by simp
  then show "delays (afterBackoff cfg n (afterCall cfg net path w))
      = delays w @ [baseRetryDelayMs cfg * 2 ^ ((n + 1) - 2)]"
    by (simp add: backoffDelay_def)
next
  assume a: "3 \<le> maxRetryAttempts cfg \<and>
            callOutcome net (axiosCalls w) (requestUrl cfg path) = Inl ea \<and> isRetryableError ea \<and>
            callOutcome net (axiosCalls w + 1) (requestUrl cfg path) = Inl eb \<and> isRetryableError eb \<and>
            callOutcome net (axiosCalls w + 2) (requestUrl cfg path) = Inr d"
  then have *: "fst (makeRequest cfg net path 1 w) = Inr d \<and>
         axiosCalls (snd (makeRequest cfg net path 1 w)) = axiosCalls w + 3 \<and>
         delays (snd (makeRequest cfg net path 1 w))
           = delays w @ [baseRetryDelayMs cfg, baseRetryDelayMs cfg * 2]"
    using makeRequest_twice_then_ok [OF miss] by blast
  from * show "fst (makeRequest cfg net path 1 w) = Inr d" by blast
  from * show "axiosCalls (snd (makeRequest cfg net path 1 w)) = axiosCalls w + 3" by blast
  from * show "delays (snd (makeRequest cfg net path 1 w))
           = delays w @ [baseRetryDelayMs cfg, baseRetryDelayMs cfg * 2]" by blast
next
  assume a: "maxRetryAttempts cfg = int m \<and> 1 \<le> m \<and>
            (\<forall>i < m. \<exists>x. callOutcome net (axiosCalls w + i) (requestUrl cfg path) = Inl x
                \<and> isRetryableError x)"
  then have all: "\<forall>i \<le> m - 1. \<exists>e. callOutcome net (axiosCalls w + i) (requestUrl cfg path) = Inl e
      \<and> isRetryableError e"
    by (metis Suc_pred le_imp_less_Suc less_eq_Suc_le One_nat_def)
  from a have mm: "maxRetryAttempts cfg = int m" "1 \<le> m" by simp_all
  from makeRequest_exhaust [OF mm(1) mm(2) order_refl miss all]
  obtain x w' where r: "makeRequest cfg net path 1 w
        = (Inl (FetchError (''Failed to fetch documentation: '' @ message x) x), w')"
      "callOutcome net (axiosCalls w + (m - 1)) (requestUrl cfg path) = Inl x"
      "axiosCalls w' = axiosCalls w + (m - 1 + 1)"
      "delays w' = delays w @ map (backoffDelay cfg) [1..<m]"
    by auto
  from r show "\<exists>x. callOutcome net (axiosCalls w + (m - 1)) (requestUrl cfg path) = Inl x \<and>
               fst (makeRequest cfg net path 1 w)
                 = Inl (FetchError (''Failed to fetch documentation: '' @ message x) x)"
    by auto
  from r a show "axiosCalls (snd (makeRequest cfg net path 1 w)) = axiosCalls w + m"
    by simp
  have "backoffDelay cfg = (\<lambda>k. baseRetryDelayMs cfg * 2 ^ (k - 1))"
    by (simp add: backoffDelay_def fun_eq_iff)
  with r show "delays (snd (makeRequest cfg net path 1 w))
              = delays w @ map (\<lambda>k. baseRetryDelayMs cfg * 2 ^ (k - 1)) [1..<m]"
    by simp
qed

lemma validateResponse_fixture: "validateResponse mockSwiftUIFramework url = Inr ()"
  by (simp add: mockSwiftUIFramework_def)

lemma emptyWorld_miss: "cacheMiss url emptyWorld"
  by (simp add: cacheMiss_def mc_get_def emptyWorld_def cacheHit_def)

theorem makeRequest_retry_backoff_witness:
  "cacheMiss (requestUrl defaultHttpConfig ''documentation/SwiftUI.json'') emptyWorld \<and>
   isRetryableError connReset \<and> isRetryableError unavailable \<and>
   fst (makeRequest defaultHttpConfig flakyNetwork ''documentation/SwiftUI.json'' 1 emptyWorld)
     = Inr mockSwiftUIFramework \<and>
   axiosCalls (snd (makeRequest defaultHttpConfig flakyNetwork ''documentation/SwiftUI.json'' 1 emptyWorld))
     = 3 \<and>
   delays (snd (makeRequest defaultHttpConfig flakyNetwork ''documentation/SwiftUI.json'' 1 emptyWorld))
     = [500, 1000] \<and>
   fst (makeRequest defaultHttpConfig downNetwork ''documentation/SwiftUI.json'' 1 emptyWorld)
     = Inl (FetchError ''Failed to fetch documentation: Request failed with status code 503''
              unavailable) \<and>
   axiosCalls (snd (makeRequest defaultHttpConfig downNetwork ''documentation/SwiftUI.json'' 1 emptyWorld))
     = 3 \<and>
   delays (snd (makeRequest defaultHttpConfig downNetwork ''documentation/SwiftUI.json'' 1 emptyWorld))
     = [500, 1000] \<and>
   makeRequest defaultHttpConfig downNetwork ''documentation/SwiftUI.json'' 1 emptyWorld
     = makeRequest defaultHttpConfig downNetwork ''documentation/SwiftUI.json'' 2
         (afterBackoff defaultHttpConfig 1
           (afterCall defaultHttpConfig downNetwork ''documentation/SwiftUI.json'' emptyWorld))"
proof -
  let ?p = "''documentation/SwiftUI.json''"
  let ?url = "requestUrl defaultHttpConfig ?p"
  have miss: "cacheMiss ?url emptyWorld"
    by (rule emptyWorld_miss)
  have r1: "isRetryableError connReset" and r2: "isRetryableError unavailable"
    by (simp_all add: connReset_def unavailable_def)
  have cfg: "maxRetryAttempts defaultHttpConfig = int 3" "baseRetryDelayMs defaultHttpConfig = 500"
    by (simp_all add: defaultHttpConfig_def)
  have w0: "axiosCalls emptyWorld = 0" "delays emptyWorld = []"
    by (simp_all add: emptyWorld_def)
  have flaky: "callOutcome flakyNetwork (axiosCalls emptyWorld) ?url = Inl connReset"
    "callOutcome flakyNetwork (axiosCalls emptyWorld + 1) ?url = Inl connReset"
    "callOutcome flakyNetwork (axiosCalls emptyWorld + 2) ?url = Inr mockSwiftUIFramework"
    by (simp_all add: callOutcome_def flakyNetwork_def w0 validateResponse_fixture)
  have down: "callOutcome downNetwork k ?url = Inl unavailable" for k
    by (simp add: callOutcome_def downNetwork_def)
  note ok = makeRequest_retry_backoff [OF miss, where net = flakyNetwork and ea = connReset
      and eb = connReset and d = mockSwiftUIFramework, THEN conjunct2, THEN conjunct2, THEN conjunct1]
  note ex = makeRequest_retry_backoff [OF miss, where net = downNetwork and m = 3,
      THEN conjunct2, THEN conjunct2, THEN conjunct2]
  note st = makeRequest_retry_backoff [OF miss, where net = downNetwork and n = 1 and e = unavailable,
      THEN conjunct2, THEN conjunct1]
  have a: "fst (makeRequest defaultHttpConfig flakyNetwork ?p 1 emptyWorld) = Inr mockSwiftUIFramework \<and>
      axiosCalls (snd (makeRequest defaultHttpConfig flakyNetwork ?p 1 emptyWorld)) = 3 \<and>
      delays (snd (makeRequest defaultHttpConfig flakyNetwork ?p 1 emptyWorld)) = [500, 1000]"
    using ok flaky r1 by (simp add: cfg w0)
  have b: "fst (makeRequest defaultHttpConfig downNetwork ?p 1 emptyWorld)
       = Inl (FetchError ''Failed to fetch documentation: Request failed with status code 503'' unavailable) \<and>
     axiosCalls (snd (makeRequest defaultHttpConfig downNetwork ?p 1 emptyWorld)) = 3 \<and>
     delays (snd (makeRequest defaultHttpConfig downNetwork ?p 1 emptyWorld)) = [500, 1000]"
    using ex r2 by (simp add: cfg w0 down upt_conv_Cons unavailable_def)
  have c: "makeRequest defaultHttpConfig downNetwork ?p 1 emptyWorld
     = makeRequest defaultHttpConfig downNetwork ?p 2
         (afterBackoff defaultHttpConfig 1 (afterCall defaultHttpConfig downNetwork ?p emptyWorld))"
    using st r2 by (simp add: cfg down numeral_2_eq_2)
  from miss r1 r2 a b c show ?thesis by blast
qed

section \<open>Properties of the persistent cache store\<close>

lemma safeParse_passesThrough:
  "passesThrough s \<Longrightarrow> safeParse s v = Some v' \<Longrightarrow> v' = v"
  "passesThrough s \<Longrightarrow> parseElements s xs = Some xs' \<Longrightarrow> xs' = xs"
  "passesThrough s \<Longrightarrow> parseValues s kvs = Some kvs' \<Longrightarrow> kvs' = kvs"
  "list_all (\<lambda>field. passesThrough (snd (snd field))) shape \<Longrightarrow> acc = kvs2 \<Longrightarrow>
     parseMembers shape kvs2 acc = Some r \<Longrightarrow> r = kvs2"
proof (induction s v and s xs and s kvs and shape kvs2 acc
    arbitrary: v' and xs' and kvs' and r rule: safeParse_parseElements_parseValues_parseMembers.induct)
  case (13 field shape kvs acc)
  show ?case
  proof (cases "map_of kvs (fst field)")
    case None
    with 13 show ?thesis by (auto split: if_splits)
  next
    case (Some x)
    with "13.prems" obtain y where y: "safeParse (snd (snd field)) x = Some y"
      and r: "parseMembers shape kvs (AList.update (fst field) y acc) = Some r"
      by (auto split: option.splits)
    from "13.IH"(2) [OF Some _ y] "13.prems" have "y = x" by simp
    with Some "13.prems" have "AList.update (fst field) y acc = kvs"
      by (simp add: AList.update_triv)
    with r "13.IH"(3) [OF Some y _ _ r] "13.prems" show ?thesis by simp
  qed
qed (auto split: json.splits option.splits if_splits)

lemma schemas_passThrough:
  "passesThrough FrameworkDataSchema" "passesThrough SymbolDataSchema"
  by (simp_all add: FrameworkDataSchema_def SymbolDataSchema_def AbstractItemSchema_def
      PlatformInfoSchema_def ReferenceDataSchema_def TopicSectionSchema_def FragmentSchema_def
      PrimaryContentSectionSchema_def)

lemma safeParse_mockSwiftUIFramework:
  "safeParse FrameworkDataSchema mockSwiftUIFramework = Some mockSwiftUIFramework"
  by (simp add: FrameworkDataSchema_def AbstractItemSchema_def
      PlatformInfoSchema_def ReferenceDataSchema_def TopicSectionSchema_def mockSwiftUIFramework_def)

lemma safeParse_mockViewSymbol:
  "safeParse SymbolDataSchema mockViewSymbol = Some mockViewSymbol"
  by (simp add: SymbolDataSchema_def AbstractItemSchema_def FragmentSchema_def
      PrimaryContentSectionSchema_def
      PlatformInfoSchema_def ReferenceDataSchema_def TopicSectionSchema_def mockViewSymbol_def)

lemma loadValidated_written:
  assumes "JSON_parse rt (JSON_stringify rt d) = Some d"
    and "passesThrough schema" and "safeParse schema d \<noteq> None"
    and "writeFile p (JSON_stringify rt d) fs = Inr fs'"
  shows "loadValidated rt schema p fs' = Inr (Some d)"
proof -
  from assms(4) have "files fs' p = Content (JSON_stringify rt d)"
    by (auto simp: writeFile_def split: option.splits)
  moreover from assms(3) obtain d' where d': "safeParse schema d = Some d'" by blast
  with safeParse_passesThrough(1) [OF assms(2)] have "safeParse schema d = Some d" by blast
  ultimately show ?thesis
    by (simp add: loadValidated_def readFile_def assms(1))
qed

lemma writeFile_mkdirFault: "writeFile p raw fs = Inr fs' \<Longrightarrow> mkdirFault fs' = mkdirFault fs"
  by (auto simp: writeFile_def split: option.splits)

text \<open>
  Claim C9. If the platform's \<open>JSON.parse\<close> reads back what \<open>JSON.stringify\<close> wrote for the
  document, then after a successful \<open>saveFramework\<close> of a schema-valid framework document
  \<open>loadFramework\<close> for the same name returns that document, and after a successful
  \<open>saveSymbol\<close> of a schema-valid symbol document \<open>loadSymbol\<close> for the same path returns
  that document, unknown members included.
\<close>

theorem save_load_roundtrip:
  assumes "JSON_parse rt (JSON_stringify rt d) = Some d"
  shows "(safeParse FrameworkDataSchema d \<noteq> None \<and> saveFramework rt fc n d fs = Inr fs' \<longrightarrow>
            loadFramework rt fc n fs' = Inr (Some d)) \<and>
         (safeParse SymbolDataSchema d \<noteq> None \<and> saveSymbol rt fc p d fs = Inr fs' \<longrightarrow>
            loadSymbol rt fc p fs' = Inr (Some d))"
proof (intro conjI impI)
  assume a: "safeParse FrameworkDataSchema d \<noteq> None \<and> saveFramework rt fc n d fs = Inr fs'"
  then have ok: "mkdirFault fs = None"
    and w: "writeFile (getCachePath fc n) (JSON_stringify rt d) fs = Inr fs'"
    by (auto simp: saveFramework_def ensureCacheDir_def split: option.splits)
  from writeFile_mkdirFault [OF w] ok have "ensureCacheDir fc fs' = Inr ()"
    by (simp add: ensureCacheDir_def)
  with loadValidated_written [OF assms schemas_passThrough(1) _ w] a
  show "loadFramework rt fc n fs' = Inr (Some d)"
    by (simp add: loadFramework_def)
next
  assume a: "safeParse SymbolDataSchema d \<noteq> None \<and> saveSymbol rt fc p d fs = Inr fs'"
  then have w: "writeFile (symbolCachePath rt fc p) (JSON_stringify rt d) fs = Inr fs'"
    by (auto simp: saveSymbol_def ensureCacheDir_def split: option.splits)
  with loadValidated_written [OF assms schemas_passThrough(2) _ w] a
  show "loadSymbol rt fc p fs' = Inr (Some d)"
    by (simp add: loadSymbol_def)
qed

lemma fixtureRuntime_roundtrip:
  "JSON_parse fixtureRuntime (JSON_stringify fixtureRuntime mockSwiftUIFramework) = Some mockSwiftUIFramework"
  "JSON_parse fixtureRuntime (JSON_stringify fixtureRuntime mockViewSymbol) = Some mockViewSymbol"
proof -
  have "mockViewSymbol \<noteq> mockSwiftUIFramework"
    by (simp add: mockViewSymbol_def mockSwiftUIFramework_def)
  then show "JSON_parse fixtureRuntime (JSON_stringify fixtureRuntime mockSwiftUIFramework) = Some mockSwiftUIFramework"
    "JSON_parse fixtureRuntime (JSON_stringify fixtureRuntime mockViewSymbol) = Some mockViewSymbol"
    by (simp_all add: fixtureRuntime_def)
qed

lemma save_on_emptyDisk:
  "\<not> isl (saveFramework rt fc n d emptyDisk)" "\<not> isl (saveSymbol rt fc p d emptyDisk)"
  by (simp_all add: saveFramework_def saveSymbol_def ensureCacheDir_def writeFile_def emptyDisk_def)

theorem save_load_roundtrip_witness:
  "JSON_parse fixtureRuntime (JSON_stringify fixtureRuntime mockSwiftUIFramework) = Some mockSwiftUIFramework \<and>
   safeParse FrameworkDataSchema mockSwiftUIFramework \<noteq> None \<and>
   \<not> isl (saveFramework fixtureRuntime fixtureCache ''SwiftUI'' mockSwiftUIFramework emptyDisk) \<and>
   loadFramework fixtureRuntime fixtureCache ''SwiftUI''
     (projr (saveFramework fixtureRuntime fixtureCache ''SwiftUI'' mockSwiftUIFramework emptyDisk))
       = Inr (Some mockSwiftUIFramework) \<and>
   JSON_parse fixtureRuntime (JSON_stringify fixtureRuntime mockViewSymbol) = Some mockViewSymbol \<and>
   safeParse SymbolDataSchema mockViewSymbol \<noteq> None \<and>
   \<not> isl (saveSymbol fixtureRuntime fixtureCache ''documentation/SwiftUI/View'' mockViewSymbol emptyDisk) \<and>
   loadSymbol fixtureRuntime fixtureCache ''documentation/SwiftUI/View''
     (projr (saveSymbol fixtureRuntime fixtureCache ''documentation/SwiftUI/View'' mockViewSymbol emptyDisk))
       = Inr (Some mockViewSymbol)"
proof -
  let ?sf = "saveFramework fixtureRuntime fixtureCache ''SwiftUI'' mockSwiftUIFramework emptyDisk"
  let ?ss = "saveSymbol fixtureRuntime fixtureCache ''documentation/SwiftUI/View'' mockViewSymbol emptyDisk"
  have sf: "?sf = Inr (projr ?sf)" and ss: "?ss = Inr (projr ?ss)"
    using save_on_emptyDisk by (simp_all add: sum.expand)
  have vf: "safeParse FrameworkDataSchema mockSwiftUIFramework \<noteq> None"
    by (simp add: safeParse_mockSwiftUIFramework)
  have vs: "safeParse SymbolDataSchema mockViewSymbol \<noteq> None"
    by (simp add: safeParse_mockViewSymbol)
  from save_load_roundtrip [OF fixtureRuntime_roundtrip(1), THEN conjunct1, rule_format, OF conjI, OF vf sf]
  have f: "loadFramework fixtureRuntime fixtureCache ''SwiftUI'' (projr ?sf) = Inr (Some mockSwiftUIFramework)" .
  from save_load_roundtrip [OF fixtureRuntime_roundtrip(2), THEN conjunct2, rule_format, OF conjI, OF vs ss]
  have g: "loadSymbol fixtureRuntime fixtureCache ''documentation/SwiftUI/View'' (projr ?ss) = Inr (Some mockViewSymbol)" .
  from fixtureRuntime_roundtrip vf vs save_on_emptyDisk f g show ?thesis by blast
qed

lemma loadValidated_unusable:
  "unusable rt schema (files fs p) \<Longrightarrow> loadValidated rt schema p fs = Inr None"
  by (auto simp: unusable_def loadValidated_def readFile_def split: FileEntry.splits option.splits)

text \<open>
  Claim C7 as stated fails: \<open>loadFramework\<close> ensures the cache directory before its
  \<open>try\<close> block, so with an absent file and a directory that cannot be created the load
  raises.
\<close>

theorem loadFramework_raises_counterexample:
  "unusable fixtureRuntime FrameworkDataSchema
     (files lockedDisk (getCachePath fixtureCache ''SwiftUI'')) \<and>
   loadFramework fixtureRuntime fixtureCache ''SwiftUI'' lockedDisk = Inl (ErrnoException ''EACCES'')"
  by (simp add: unusable_def lockedDisk_def loadFramework_def ensureCacheDir_def)

text \<open>
  Claim C7, amended. If the file is absent, holds text that does not parse, or holds a
  value that fails the schema, then \<open>loadSymbol\<close> returns \<open>undefined\<close> and does not raise, and
  so does \<open>loadFramework\<close> provided that ensuring the cache directory succeeds.
\<close>

theorem load_unusable_is_miss:
  "(ensureCacheDir fc fs = Inr () \<and>
      unusable rt FrameworkDataSchema (files fs (getCachePath fc n)) \<longrightarrow>
      loadFramework rt fc n fs = Inr None) \<and>
   (unusable rt SymbolDataSchema (files fs (symbolCachePath rt fc p)) \<longrightarrow>
      loadSymbol rt fc p fs = Inr None)"
  by (simp add: loadFramework_def loadSymbol_def loadValidated_unusable)

theorem load_unusable_is_miss_witness:
  "ensureCacheDir fixtureCache emptyDisk = Inr () \<and>
   unusable fixtureRuntime FrameworkDataSchema (files emptyDisk (getCachePath fixtureCache ''SwiftUI'')) \<and>
   loadFramework fixtureRuntime fixtureCache ''SwiftUI'' emptyDisk = Inr None \<and>
   ensureCacheDir fixtureCache corruptDisk = Inr () \<and>
   unusable fixtureRuntime FrameworkDataSchema (files corruptDisk (getCachePath fixtureCache ''SwiftUI'')) \<and>
   loadFramework fixtureRuntime fixtureCache ''SwiftUI'' corruptDisk = Inr None \<and>
   unusable fixtureRuntime SymbolDataSchema
     (files invalidDisk (symbolCachePath fixtureRuntime fixtureCache ''documentation/SwiftUI/View'')) \<and>
   loadSymbol fixtureRuntime fixtureCache ''documentation/SwiftUI/View'' invalidDisk = Inr None"
proof -
  have d1: "ensureCacheDir fixtureCache emptyDisk = Inr ()"
    and d2: "ensureCacheDir fixtureCache corruptDisk = Inr ()"
    by (simp_all add: ensureCacheDir_def emptyDisk_def corruptDisk_def)
  have u1: "unusable fixtureRuntime FrameworkDataSchema (files emptyDisk (getCachePath fixtureCache ''SwiftUI''))"
    by (simp add: unusable_def emptyDisk_def)
  have u2: "unusable fixtureRuntime FrameworkDataSchema (files corruptDisk (getCachePath fixtureCache ''SwiftUI''))"
    by (simp add: unusable_def corruptDisk_def fixtureRuntime_def)
  have u3: "unusable fixtureRuntime SymbolDataSchema
     (files invalidDisk (symbolCachePath fixtureRuntime fixtureCache ''documentation/SwiftUI/View''))"
    by (simp add: unusable_def invalidDisk_def fixtureRuntime_def SymbolDataSchema_def)
  from load_unusable_is_miss [of fixtureCache emptyDisk fixtureRuntime "''SwiftUI''"] d1 u1
  have l1: "loadFramework fixtureRuntime fixtureCache ''SwiftUI'' emptyDisk = Inr None" by blast
  from load_unusable_is_miss [of fixtureCache corruptDisk fixtureRuntime "''SwiftUI''"] d2 u2
  have l2: "loadFramework fixtureRuntime fixtureCache ''SwiftUI'' corruptDisk = Inr None" by blast
  from load_unusable_is_miss [of fixtureCache invalidDisk fixtureRuntime _ "''documentation/SwiftUI/View''"] u3
  have l3: "loadSymbol fixtureRuntime fixtureCache ''documentation/SwiftUI/View'' invalidDisk = Inr None"
    by blast
  from d1 d2 u1 u2 u3 l1 l2 l3 show ?thesis by blast
qed

section \<open>Properties of the documentation client\<close>

lemma steadyNetwork_fetch:
  "fst (getDocumentation defaultHttpConfig steadyNetwork path emptyWorld) = Inr mockSwiftUIFramework"
  using makeRequest_success_step [OF emptyWorld_miss, of steadyNetwork defaultHttpConfig "path @ ''.json''"
      mockSwiftUIFramework 1]
  by (simp add: getDocumentation_def callOutcome_def steadyNetwork_def validateResponse_fixture)

text \<open>
  Claim C3 as stated fails: the save is awaited without a handler, so when the store
  misses, the transport returns the document and the write fails, \<open>getFramework\<close> fails
  with the error of the write.
\<close>

theorem getFramework_save_failure_counterexample:
  "loadFramework fixtureRuntime fixtureCache ''SwiftUI'' fullDisk = Inr None \<and>
   fst (getDocumentation defaultHttpConfig steadyNetwork ''documentation/SwiftUI'' emptyWorld)
     = Inr mockSwiftUIFramework \<and>
   saveFramework fixtureRuntime fixtureCache ''SwiftUI'' mockSwiftUIFramework fullDisk
     = Inl (ErrnoException ''ENOSPC'') \<and>
   fst (getFramework fixtureRuntime fixtureCache defaultHttpConfig steadyNetwork ''SwiftUI''
          (fullDisk, emptyWorld))
     = Inl (Storage (ErrnoException ''ENOSPC''))"
proof -
  have l: "loadFramework fixtureRuntime fixtureCache ''SwiftUI'' fullDisk = Inr None"
    by (simp add: loadFramework_def ensureCacheDir_def loadValidated_def readFile_def fullDisk_def)
  have s: "saveFramework fixtureRuntime fixtureCache ''SwiftUI'' mockSwiftUIFramework fullDisk
     = Inl (ErrnoException ''ENOSPC'')"
    by (simp add: saveFramework_def ensureCacheDir_def writeFile_def fullDisk_def)
  note f = steadyNetwork_fetch [of "''documentation/SwiftUI''"]
  obtain w' where g: "getDocumentation defaultHttpConfig steadyNetwork ''documentation/SwiftUI'' emptyWorld
      = (Inr mockSwiftUIFramework, w')"
    using f by (cases "getDocumentation defaultHttpConfig steadyNetwork ''documentation/SwiftUI'' emptyWorld") auto
  have "fst (getFramework fixtureRuntime fixtureCache defaultHttpConfig steadyNetwork ''SwiftUI''
          (fullDisk, emptyWorld)) = Inl (Storage (ErrnoException ''ENOSPC''))"
    by (simp add: getFramework_def l s g cacheHit_def)
  with l s f show ?thesis by blast
qed

text \<open>
  Claim C3, amended. When the store misses and the transport returns a document, the
  document is written to the store; if the write succeeds the document is returned, and
  if the write fails the call fails with the error of the write.
\<close>

theorem get_reads_through:
  "(loadFramework rt fc n fs = Inr None \<and>
      getDocumentation cfg net (''documentation/'' @ n) w = (Inr d, w') \<longrightarrow>
      (saveFramework rt fc n d fs = Inr fs' \<longrightarrow>
         getFramework rt fc cfg net n (fs, w) = (Inr d, fs', w')) \<and>
      (saveFramework rt fc n d fs = Inl e \<longrightarrow>
         getFramework rt fc cfg net n (fs, w) = (Inl (Storage e), fs, w'))) \<and>
   (loadSymbol rt fc (cleanPath p) fs = Inr None \<and>
      getDocumentation cfg net (cleanPath p) w = (Inr d, w') \<longrightarrow>
      (saveSymbol rt fc (cleanPath p) d fs = Inr fs' \<longrightarrow>
         getSymbol rt fc cfg net p (fs, w) = (Inr d, fs', w')) \<and>
      (saveSymbol rt fc (cleanPath p) d fs = Inl e \<longrightarrow>
         getSymbol rt fc cfg net p (fs, w) = (Inl (Storage e), fs, w')))"
  by (simp add: getFramework_def getSymbol_def cacheHit_def Let_def)

theorem get_reads_through_witness:
  "loadFramework fixtureRuntime fixtureCache ''SwiftUI'' emptyDisk = Inr None \<and>
   fst (getDocumentation defaultHttpConfig steadyNetwork ''documentation/SwiftUI'' emptyWorld)
     = Inr mockSwiftUIFramework \<and>
   \<not> isl (saveFramework fixtureRuntime fixtureCache ''SwiftUI'' mockSwiftUIFramework emptyDisk) \<and>
   fst (getFramework fixtureRuntime fixtureCache defaultHttpConfig steadyNetwork ''SwiftUI''
          (emptyDisk, emptyWorld))
     = Inr mockSwiftUIFramework \<and>
   saveFramework fixtureRuntime fixtureCache ''SwiftUI'' mockSwiftUIFramework fullDisk
     = Inl (ErrnoException ''ENOSPC'') \<and>
   fst (getFramework fixtureRuntime fixtureCache defaultHttpConfig steadyNetwork ''SwiftUI''
          (fullDisk, emptyWorld))
     = Inl (Storage (ErrnoException ''ENOSPC'')) \<and>
   loadSymbol fixtureRuntime fixtureCache (cleanPath ''/documentation/SwiftUI/View'') emptyDisk = Inr None \<and>
   \<not> isl (saveSymbol fixtureRuntime fixtureCache (cleanPath ''/documentation/SwiftUI/View'')
            mockSwiftUIFramework emptyDisk) \<and>
   fst (getSymbol fixtureRuntime fixtureCache defaultHttpConfig steadyNetwork ''/documentation/SwiftUI/View''
          (emptyDisk, emptyWorld))
     = Inr mockSwiftUIFramework"
proof -
  let ?rt = fixtureRuntime and ?fc = fixtureCache and ?cfg = defaultHttpConfig
  let ?sp = "cleanPath ''/documentation/SwiftUI/View''"
  have l1: "loadFramework ?rt ?fc ''SwiftUI'' emptyDisk = Inr None"
    and l2: "loadFramework ?rt ?fc ''SwiftUI'' fullDisk = Inr None"
    and l3: "loadSymbol ?rt ?fc ?sp emptyDisk = Inr None"
    by (simp_all add: loadFramework_def loadSymbol_def ensureCacheDir_def loadValidated_def
        readFile_def emptyDisk_def fullDisk_def)
  note f = steadyNetwork_fetch [of "''documentation/SwiftUI''"]
  note fsym = steadyNetwork_fetch [of ?sp]
  obtain w' where g: "getDocumentation ?cfg steadyNetwork ''documentation/SwiftUI'' emptyWorld
      = (Inr mockSwiftUIFramework, w')"
    using f by (cases "getDocumentation ?cfg steadyNetwork ''documentation/SwiftUI'' emptyWorld") auto
  obtain w'' where h: "getDocumentation ?cfg steadyNetwork ?sp emptyWorld = (Inr mockSwiftUIFramework, w'')"
    using fsym by (cases "getDocumentation ?cfg steadyNetwork ?sp emptyWorld") auto
  let ?sf = "saveFramework ?rt ?fc ''SwiftUI'' mockSwiftUIFramework emptyDisk"
  let ?ss = "saveSymbol ?rt ?fc ?sp mockSwiftUIFramework emptyDisk"
  note ok = save_on_emptyDisk [of ?rt ?fc _ mockSwiftUIFramework]
  have sf: "?sf = Inr (projr ?sf)" and ss: "?ss = Inr (projr ?ss)"
    using ok by (simp_all add: sum.expand)
  have bad: "saveFramework ?rt ?fc ''SwiftUI'' mockSwiftUIFramework fullDisk = Inl (ErrnoException ''ENOSPC'')"
    by (simp add: saveFramework_def ensureCacheDir_def writeFile_def fullDisk_def)
  from get_reads_through [where rt = ?rt and fc = ?fc and n = "''SwiftUI''" and fs = emptyDisk
      and cfg = ?cfg and net = steadyNetwork and w = emptyWorld and d = mockSwiftUIFramework
      and w' = w' and fs' = "projr ?sf", THEN conjunct1] l1 g sf
  have a: "fst (getFramework ?rt ?fc ?cfg steadyNetwork ''SwiftUI'' (emptyDisk, emptyWorld))
       = Inr mockSwiftUIFramework"
    by simp
  from get_reads_through [where rt = ?rt and fc = ?fc and n = "''SwiftUI''" and fs = fullDisk
      and cfg = ?cfg and net = steadyNetwork and w = emptyWorld and d = mockSwiftUIFramework
      and w' = w' and e = "ErrnoException ''ENOSPC''", THEN conjunct1] l2 g bad
  have b: "fst (getFramework ?rt ?fc ?cfg steadyNetwork ''SwiftUI'' (fullDisk, emptyWorld))
       = Inl (Storage (ErrnoException ''ENOSPC''))"
    by simp
  from get_reads_through [where rt = ?rt and fc = ?fc and p = "''/documentation/SwiftUI/View''"
      and fs = emptyDisk and cfg = ?cfg and net = steadyNetwork and w = emptyWorld
      and d = mockSwiftUIFramework and w' = w'' and fs' = "projr ?ss", THEN conjunct2] l3 h ss
  have c: "fst (getSymbol ?rt ?fc ?cfg steadyNetwork ''/documentation/SwiftUI/View'' (emptyDisk, emptyWorld))
       = Inr mockSwiftUIFramework"
    by simp
  from l1 f ok(1) a bad b l3 ok(2) c show ?thesis by blast
qed

section \<open>Properties of the index build\<close>

lemma processBatches_foldl:
  "0 < batchSize \<Longrightarrow>
   processBatches rt fs batchSize remaining ix
     = foldl (\<lambda>acc file. snd (processFile rt fs file acc)) ix remaining"
proof (induction rt fs batchSize remaining ix rule: processBatches.induct)
  case (1 rt fs batchSize remaining ix)
  show ?case
  proof (cases "remaining = []")
    case True
    then show ?thesis by (simp add: processBatches.simps)
  next
    case False
    let ?step = "\<lambda>acc file. snd (processFile rt fs file acc)"
    have "processBatches rt fs batchSize remaining ix
        = processBatches rt fs batchSize (drop batchSize remaining)
            (foldl ?step ix (take batchSize remaining))"
      using False "1.prems" by (subst processBatches.simps) simp
    also have "\<dots> = foldl ?step (foldl ?step ix (take batchSize remaining)) (drop batchSize remaining)"
      using "1.IH" False "1.prems" by simp
    also have "\<dots> = foldl ?step ix (take batchSize remaining @ drop batchSize remaining)"
      by (simp only: foldl_append)
    finally show ?thesis by simp
  qed
qed

lemma set_update_subset: "set (AList.update k v al) \<subseteq> insert (k, v) (set al)"
  by (induction al) auto

text \<open>An invariant of the symbol table is an invariant of the whole build.\<close>

lemma foldl_invariant:
  assumes "I a" and "\<And>acc x. I acc \<Longrightarrow> I (f acc x)"
  shows "I (foldl f a xs)"
  using assms(1) by (induction xs arbitrary: a) (auto intro: assms(2))

lemma tableInvariant_update:
  "tableInvariant P ix \<Longrightarrow> P (technologyIdentifier ix) k e \<Longrightarrow>
   tableInvariant P (ix\<lparr>symbols := AList.update k e (symbols ix)\<rparr>)"
  using set_update_subset [of k e "symbols ix"] by (auto simp: tableInvariant_def)

lemma processReference_invariant:
  assumes "tableInvariant P ix"
    and "\<And>refId ref. \<not> filteredOut (technologyIdentifier ix) (orElse (asString (member ref ''url'')) [])
           \<Longrightarrow> P (technologyIdentifier ix) refId (referenceEntry refId ref filePath)"
  shows "tableInvariant P (processReference filePath ix r) \<and>
         technologyIdentifier (processReference filePath ix r) = technologyIdentifier ix"
  using assms by (cases r) (auto simp: processReference_def intro: tableInvariant_update)

lemma processReferences_invariant:
  assumes "tableInvariant P ix"
    and "\<And>refId ref. \<not> filteredOut (technologyIdentifier ix) (orElse (asString (member ref ''url'')) [])
           \<Longrightarrow> P (technologyIdentifier ix) refId (referenceEntry refId ref filePath)"
  shows "tableInvariant P (processReferences references filePath ix) \<and>
         technologyIdentifier (processReferences references filePath ix) = technologyIdentifier ix"
proof -
  let ?I = "\<lambda>acc. tableInvariant P acc \<and> technologyIdentifier acc = technologyIdentifier ix"
  have "?I (foldl (processReference filePath) ix refs)" for refs
  proof (rule foldl_invariant [where I = ?I])
    show "?I ix" using assms(1) by simp
  next
    fix acc x assume "?I acc"
    then show "?I (processReference filePath acc x)"
      using processReference_invariant [of P acc filePath x] assms(2) by simp
  qed
  then show ?thesis
    using assms(1) by (auto simp: processReferences_def split: option.splits json.splits)
qed

lemma processSymbolData_invariant:
  assumes "tableInvariant P ix"
    and "\<And>refId ref. \<not> filteredOut (technologyIdentifier ix) (orElse (asString (member ref ''url'')) [])
           \<Longrightarrow> P (technologyIdentifier ix) refId (referenceEntry refId ref filePath)"
    and "\<not> filteredOut (technologyIdentifier ix) (documentPath d)
           \<Longrightarrow> P (technologyIdentifier ix) (entry_id (documentEntry d filePath)) (documentEntry d filePath)"
  shows "tableInvariant P (processSymbolData d filePath ix) \<and>
         technologyIdentifier (processSymbolData d filePath ix) = technologyIdentifier ix"
proof (cases "filteredOut (technologyIdentifier ix) (documentPath d)")
  case True
  then show ?thesis using assms(1) by (simp add: processSymbolData_def)
next
  case False
  let ?e = "documentEntry d filePath"
  let ?ix1 = "ix\<lparr>symbols := AList.update (entry_id ?e) ?e (symbols ix)\<rparr>"
  have "tableInvariant P ?ix1"
    using assms(1) assms(3) [OF False] by (rule tableInvariant_update)
  moreover have "technologyIdentifier ?ix1 = technologyIdentifier ix" by simp
  ultimately show ?thesis
    using processReferences_invariant [of P ?ix1 filePath "member d ''references''"] assms(2) False
    by (simp add: processSymbolData_def Let_def)
qed

lemma processFile_invariant:
  assumes "entryInvariant P" and "tableInvariant P ix"
  shows "tableInvariant P (snd (processFile rt fs file ix)) \<and>
         technologyIdentifier (snd (processFile rt fs file ix)) = technologyIdentifier ix"
proof -
  have "tableInvariant P (processSymbolData d filePath ix) \<and>
        technologyIdentifier (processSymbolData d filePath ix) = technologyIdentifier ix" for d filePath
    using assms by (intro processSymbolData_invariant) (auto simp: entryInvariant_def)
  then show ?thesis
    using assms(2) by (auto simp: processFile_def Let_def split: sum.splits option.splits)
qed

lemma build_invariant:
  assumes inv: "entryInvariant P"
    and empty: "symbols ix = []"
    and built: "buildIndexFromCache rt fs dir batchSize ix = Some (r, ix')"
  shows "tableInvariant P ix' \<and> technologyIdentifier ix' = technologyIdentifier ix"
proof -
  let ?I = "\<lambda>acc. tableInvariant P acc \<and> technologyIdentifier acc = technologyIdentifier ix"
  let ?step = "\<lambda>acc file. snd (processFile rt fs file acc)"
  have start: "?I (ix\<lparr>indexState := s\<rparr>)" for s
    using empty by (simp add: tableInvariant_def)
  have run: "?I (foldl ?step (ix\<lparr>indexState := building\<rparr>) files)" for files
  proof (rule foldl_invariant [where I = ?I])
    show "?I (ix\<lparr>indexState := building\<rparr>)" by (rule start)
  next
    fix acc x assume "?I acc"
    then show "?I (?step acc x)"
      using processFile_invariant [OF inv, of acc rt fs x] by simp
  qed
  have state: "?I acc \<Longrightarrow> ?I (acc\<lparr>indexState := s\<rparr>)" for acc s
    by (auto simp: tableInvariant_def)
  from built show ?thesis
  proof (cases "indexState ix = ready \<or> indexState ix = building")
    case True
    with built have "ix' = ix" by (simp add: buildIndexFromCache_def)
    with empty show ?thesis by (simp add: tableInvariant_def)
  next
    case busy: False
    show ?thesis
    proof (cases "accessible dir")
      case False
      with busy built have "ix' = ix\<lparr>indexState := ready\<rparr>"
        by (auto simp: buildIndexFromCache_def)
      with start show ?thesis by simp
    next
      case True
      show ?thesis
      proof (cases "listing dir")
        case (Inl e)
        with True busy built have "ix' = ix\<lparr>indexState := failed\<rparr>"
          by (auto simp: buildIndexFromCache_def)
        with start show ?thesis by simp
      next
        case (Inr allFiles)
        let ?files = "filter (\<lambda>file. endsWith file ''.json'') allFiles"
        from Inr True busy built
        have ok: "\<not> (?files \<noteq> [] \<and> batchSize \<le> 0)"
          and ix': "ix' = (processBatches rt fs (nat batchSize) ?files (ix\<lparr>indexState := building\<rparr>))
                       \<lparr>indexState := ready\<rparr>"
          by (auto simp: buildIndexFromCache_def Let_def split: if_splits)
        have "processBatches rt fs (nat batchSize) ?files (ix\<lparr>indexState := building\<rparr>)
            = foldl ?step (ix\<lparr>indexState := building\<rparr>) ?files"
        proof (cases "?files = []")
          case True
          then show ?thesis by (simp add: processBatches.simps)
        next
          case False
          with ok have "0 < nat batchSize" by simp
          then show ?thesis by (rule processBatches_foldl)
        qed
        with run [of ?files] state show ?thesis unfolding ix' by simp
      qed
    qed
  qed
qed

lemma documentEntry_fields:
  "entry_id (documentEntry d filePath)
     = (if documentPath d \<noteq> [] then documentPath d else documentTitle d)"
  "entry_path (documentEntry d filePath) = documentPath d"
  "entry_title (documentEntry d filePath) = documentTitle d"
  by (simp_all add: documentEntry_def Let_def)

lemma referenceEntry_fields:
  "entry_id (referenceEntry refId ref filePath) = refId"
  "entry_path (referenceEntry refId ref filePath) = orElse (asString (member ref ''url'')) []"
  "entry_title (referenceEntry refId ref filePath) = orElse (asString (member ref ''title'')) []"
  by (simp_all add: referenceEntry_def Let_def)

lemma buildIndexFromCache_run:
  assumes "indexState ix = uninitialized" and "accessible dir" and "listing dir = Inr allFiles"
    and "0 < batchSize"
  shows "buildIndexFromCache rt fs dir batchSize ix
     = Some (Inr (),
         (foldl (\<lambda>acc file. snd (processFile rt fs file acc)) (ix\<lparr>indexState := building\<rparr>)
            (filter (\<lambda>file. endsWith file ''.json'') allFiles))\<lparr>indexState := ready\<rparr>)"
  using assms processBatches_foldl [of "nat batchSize"]
  by (simp add: buildIndexFromCache_def Let_def)

lemma safeParse_mockUIKitFramework:
  "safeParse SymbolDataSchema mockUIKitFramework = Some mockUIKitFramework"
  by (simp add: SymbolDataSchema_def AbstractItemSchema_def FragmentSchema_def
      PrimaryContentSectionSchema_def
      PlatformInfoSchema_def ReferenceDataSchema_def TopicSectionSchema_def mockUIKitFramework_def)

lemma fixture_documents:
  "documentPath mockViewSymbol = ''/documentation/swiftui/view''"
  "documentPath mockUIKitFramework = []"
  "documentTitle mockViewSymbol = ''View''"
  "documentTitle mockUIKitFramework = ''UIKit''"
  "member mockViewSymbol ''references'' = Some (JObj [(''doc://Text'', textReference)])"
  "member mockUIKitFramework ''references''
     = Some (JObj [(''doc://com.apple.documentation/documentation/uikit/uiview'',
          JObj [(''title'', JStr ''UIView''), (''url'', JStr ''/documentation/uikit/uiview''),
                (''kind'', JStr ''symbol'')])])"
  by (simp_all add: documentPath_def documentTitle_def optMember_def orElse_def mockViewSymbol_def
      mockUIKitFramework_def textReference_def)

lemma filter_fixtures:
  "\<not> filteredOut None p"
  "\<not> filteredOut t []"
  "\<not> filteredOut (Some ''swiftui'') ''/documentation/swiftui/view''"
  "\<not> filteredOut (Some ''swiftui'') ''/documentation/swiftui/text''"
  "filteredOut (Some ''swiftui'') ''/documentation/uikit/uiview''"
  by (simp_all add: filteredOut_def truthy_def orElse_def toLowerCase_def toLowerChar_def)

lemma processSymbolData_view:
  "technologyIdentifier ix = None \<or> technologyIdentifier ix = Some ''swiftui'' \<Longrightarrow>
   processSymbolData mockViewSymbol fp ix
     = ix\<lparr>symbols := AList.update ''doc://Text'' (referenceEntry ''doc://Text'' textReference fp)
         (AList.update ''/documentation/swiftui/view'' (documentEntry mockViewSymbol fp)
            (symbols ix))\<rparr>"
  apply (simp add: processSymbolData_def fixture_documents Let_def documentEntry_fields
      processReferences_def)
  apply (simp add: processReference_def textReference_def truthy_def orElse_def)
  apply (auto simp: filter_fixtures)
  done

lemma processSymbolData_uikit:
  "technologyIdentifier ix = Some ''swiftui'' \<Longrightarrow>
   processSymbolData mockUIKitFramework fp ix
     = ix\<lparr>symbols := AList.update ''UIKit'' (documentEntry mockUIKitFramework fp) (symbols ix)\<rparr>"
  apply (simp add: processSymbolData_def fixture_documents Let_def documentEntry_fields
      processReferences_def filter_fixtures)
  apply (simp add: processReference_def truthy_def orElse_def filter_fixtures)
  done

lemma mixed_reads:
  "readFile (joinPath ''/tmp/.cache'' ''view.json'') mixedDisk = Inr ''<View>''"
  "readFile (joinPath ''/tmp/.cache'' ''uikit.json'') mixedDisk = Inr ''<UIKit>''"
  "JSON_parse mixedRuntime ''<View>'' = Some mockViewSymbol"
  "JSON_parse mixedRuntime ''<UIKit>'' = Some mockUIKitFramework"
  by (simp_all add: readFile_def joinPath_def mixedDisk_def mixedRuntime_def)

lemma processFile_view:
  "technologyIdentifier ix = None \<or> technologyIdentifier ix = Some ''swiftui'' \<Longrightarrow>
   cacheDir ix = ''/tmp/.cache'' \<Longrightarrow>
   snd (processFile mixedRuntime mixedDisk ''view.json'' ix)
     = ix\<lparr>symbols := AList.update ''doc://Text''
           (referenceEntry ''doc://Text'' textReference (joinPath ''/tmp/.cache'' ''view.json''))
         (AList.update ''/documentation/swiftui/view''
            (documentEntry mockViewSymbol (joinPath ''/tmp/.cache'' ''view.json''))
            (symbols ix))\<rparr>"
  by (simp add: processFile_def mixed_reads safeParse_mockViewSymbol processSymbolData_view Let_def)

lemma processFile_uikit:
  "technologyIdentifier ix = Some ''swiftui'' \<Longrightarrow>
   cacheDir ix = ''/tmp/.cache'' \<Longrightarrow>
   snd (processFile mixedRuntime mixedDisk ''uikit.json'' ix)
     = ix\<lparr>symbols := AList.update ''UIKit''
            (documentEntry mockUIKitFramework (joinPath ''/tmp/.cache'' ''uikit.json''))
            (symbols ix)\<rparr>"
  by (simp add: processFile_def mixed_reads safeParse_mockUIKitFramework processSymbolData_uikit Let_def)

lemma build_mixedIndex:
  "buildIndexFromCache mixedRuntime mixedDisk mixedDirectory 10
     (newLocalSymbolIndex ''/tmp/.cache'' (Some ''swiftui'')) = Some (Inr (), mixedIndex)"
proof -
  let ?ix0 = "newLocalSymbolIndex ''/tmp/.cache'' (Some ''swiftui'')"
  have files: "filter (\<lambda>file. endsWith file ''.json'') [''view.json'', ''uikit.json'']
      = [''view.json'', ''uikit.json'']"
    by (simp add: endsWith_def suffix_to_prefix)
  have run: "buildIndexFromCache mixedRuntime mixedDisk mixedDirectory 10 ?ix0
     = Some (Inr (),
         (foldl (\<lambda>acc file. snd (processFile mixedRuntime mixedDisk file acc)) (?ix0\<lparr>indexState := building\<rparr>)
            [''view.json'', ''uikit.json''])\<lparr>indexState := ready\<rparr>)"
    using buildIndexFromCache_run [of ?ix0 mixedDirectory "[''view.json'', ''uikit.json'']" 10
        mixedRuntime mixedDisk]
    by (simp only: files) (simp add: newLocalSymbolIndex_def mixedDirectory_def)
  let ?ix1 = "snd (processFile mixedRuntime mixedDisk ''view.json'' (?ix0\<lparr>indexState := building\<rparr>))"
  have one: "?ix1 = ?ix0\<lparr>indexState := building,
      symbols := [(''/documentation/swiftui/view'', documentEntry mockViewSymbol ''/tmp/.cache/view.json''),
          (''doc://Text'', referenceEntry ''doc://Text'' textReference ''/tmp/.cache/view.json'')]\<rparr>"
    by (subst processFile_view) (simp_all add: newLocalSymbolIndex_def joinPath_def)
  have two: "snd (processFile mixedRuntime mixedDisk ''uikit.json'' ?ix1) = mixedIndex\<lparr>indexState := building\<rparr>"
    unfolding one
    by (subst processFile_uikit) (simp_all add: newLocalSymbolIndex_def mixedIndex_def joinPath_def)
  show ?thesis
    unfolding run by (simp add: two mixedIndex_def)
qed

lemma build_viewIndex:
  "buildIndexFromCache mixedRuntime mixedDisk viewDirectory 10
     (newLocalSymbolIndex ''/tmp/.cache'' None) = Some (Inr (), viewIndex)"
proof -
  let ?ix0 = "newLocalSymbolIndex ''/tmp/.cache'' None"
  have files: "filter (\<lambda>file. endsWith file ''.json'') [''view.json'', ''notes.txt''] = [''view.json'']"
    by (simp add: endsWith_def suffix_to_prefix)
  have run: "buildIndexFromCache mixedRuntime mixedDisk viewDirectory 10 ?ix0
     = Some (Inr (),
         (foldl (\<lambda>acc file. snd (processFile mixedRuntime mixedDisk file acc)) (?ix0\<lparr>indexState := building\<rparr>)
            [''view.json''])\<lparr>indexState := ready\<rparr>)"
    using buildIndexFromCache_run [of ?ix0 viewDirectory "[''view.json'', ''notes.txt'']" 10
        mixedRuntime mixedDisk]
    by (simp only: files) (simp add: newLocalSymbolIndex_def viewDirectory_def)
  have one: "snd (processFile mixedRuntime mixedDisk ''view.json'' (?ix0\<lparr>indexState := building\<rparr>))
     = viewIndex\<lparr>indexState := building\<rparr>"
    by (subst processFile_view) (simp_all add: newLocalSymbolIndex_def joinPath_def viewIndex_def)
  show ?thesis
    unfolding run by (simp add: one viewIndex_def)
qed

text \<open>
  Claim C2 as stated fails for the entries of references: \<open>processReferences\<close> gives such
  an entry the key of the reference as its id. Building the index over one cached
  document with a reference \<open>doc://Text\<close> whose URL is \<open>/documentation/swiftui/text\<close> stores
  an entry with that non-empty path and the id \<open>doc://Text\<close>.
\<close>

theorem reference_entry_id_counterexample:
  "buildIndexFromCache mixedRuntime mixedDisk viewDirectory 10
     (newLocalSymbolIndex ''/tmp/.cache'' None) = Some (Inr (), viewIndex) \<and>
   map (\<lambda>kv. (fst kv, entry_id (snd kv), entry_path (snd kv))) (symbols viewIndex)
     = [(''/documentation/swiftui/view'', ''/documentation/swiftui/view'', ''/documentation/swiftui/view''),
        (''doc://Text'', ''doc://Text'', ''/documentation/swiftui/text'')]"
  by (simp add: build_viewIndex)
     (simp add: viewIndex_def documentEntry_fields referenceEntry_fields fixture_documents
       textReference_def orElse_def)

text \<open>
  Claim C2, amended. The entry extracted for a cached document itself has its path as id
  when the path is non-empty and its title otherwise; the entry extracted from an embedded
  symbol-kind reference has the key of the reference as id. Every entry stored by an index
  build is of one of these two kinds and is stored under its id.
\<close>

theorem index_entry_identity:
  "entry_id (documentEntry d filePath)
     = (if entry_path (documentEntry d filePath) \<noteq> [] then entry_path (documentEntry d filePath)
        else entry_title (documentEntry d filePath)) \<and>
   entry_id (referenceEntry refId ref filePath) = refId \<and>
   (symbols ix = [] \<and> buildIndexFromCache rt fs dir batchSize ix = Some (r, ix') \<longrightarrow>
      (\<forall>kv \<in> set (symbols ix').
         entry_id (snd kv) = fst kv \<and>
         ((\<exists>d' p. snd kv = documentEntry d' p) \<or> (\<exists>ref' p. snd kv = referenceEntry (fst kv) ref' p))))"
proof (intro conjI impI)
  show "entry_id (documentEntry d filePath)
     = (if entry_path (documentEntry d filePath) \<noteq> [] then entry_path (documentEntry d filePath)
        else entry_title (documentEntry d filePath))"
    by (simp add: documentEntry_fields)
  show "entry_id (referenceEntry refId ref filePath) = refId"
    by (simp add: referenceEntry_fields)
next
  assume a: "symbols ix = [] \<and> buildIndexFromCache rt fs dir batchSize ix = Some (r, ix')"
  let ?P = "\<lambda>(t :: string option) k e. entry_id e = k \<and>
      ((\<exists>d' p. e = documentEntry d' p) \<or> (\<exists>ref' p. e = referenceEntry k ref' p))"
  have "entryInvariant ?P"
    unfolding entryInvariant_def by (auto simp: referenceEntry_fields)
  from build_invariant [OF this, of ix rt fs dir batchSize r ix'] a
  show "\<forall>kv \<in> set (symbols ix').
         entry_id (snd kv) = fst kv \<and>
         ((\<exists>d' p. snd kv = documentEntry d' p) \<or> (\<exists>ref' p. snd kv = referenceEntry (fst kv) ref' p))"
    by (simp add: tableInvariant_def)
qed

theorem index_entry_identity_witness:
  "symbols (newLocalSymbolIndex ''/tmp/.cache'' None) = [] \<and>
   buildIndexFromCache mixedRuntime mixedDisk viewDirectory 10
     (newLocalSymbolIndex ''/tmp/.cache'' None) = Some (Inr (), viewIndex) \<and>
   list_all (\<lambda>kv. entry_id (snd kv) = fst kv \<and>
         ((\<exists>d' p. snd kv = documentEntry d' p) \<or> (\<exists>ref' p. snd kv = referenceEntry (fst kv) ref' p)))
     (symbols viewIndex) \<and>
   map fst (symbols viewIndex) = [''/documentation/swiftui/view'', ''doc://Text'']"
proof -
  have e: "symbols (newLocalSymbolIndex ''/tmp/.cache'' None) = []"
    by (simp add: newLocalSymbolIndex_def)
  from index_entry_identity [of _ _ _ _ "newLocalSymbolIndex ''/tmp/.cache'' None" mixedRuntime
      mixedDisk viewDirectory 10 "Inr ()" viewIndex] e build_viewIndex
  have "\<forall>kv \<in> set (symbols viewIndex).
         entry_id (snd kv) = fst kv \<and>
         ((\<exists>d' p. snd kv = documentEntry d' p) \<or> (\<exists>ref' p. snd kv = referenceEntry (fst kv) ref' p))"
    by blast
  then have "list_all (\<lambda>kv. entry_id (snd kv) = fst kv \<and>
         ((\<exists>d' p. snd kv = documentEntry d' p) \<or> (\<exists>ref' p. snd kv = referenceEntry (fst kv) ref' p)))
     (symbols viewIndex)"
    by (simp only: list_all_iff)
  moreover have "map fst (symbols viewIndex) = [''/documentation/swiftui/view'', ''doc://Text'']"
    by (simp add: viewIndex_def)
  ultimately show ?thesis using e build_viewIndex by blast
qed

text \<open>
  Claim C8 as stated fails for entries with an empty path: the filter is applied only
  when the path is non-empty. Building with the filter \<open>swiftui\<close> over a SwiftUI symbol
  document and a UIKit framework document (whose metadata has no URL) stores the UIKit
  entry, with the empty path.
\<close>

theorem technology_filter_counterexample:
  "buildIndexFromCache mixedRuntime mixedDisk mixedDirectory 10
     (newLocalSymbolIndex ''/tmp/.cache'' (Some ''swiftui'')) = Some (Inr (), mixedIndex) \<and>
   map (\<lambda>kv. (entry_title (snd kv), entry_path (snd kv))) (symbols mixedIndex)
     = [(''View'', ''/documentation/swiftui/view''), (''Text'', ''/documentation/swiftui/text''),
        (''UIKit'', [])] \<and>
   \<not> str_includes (toLowerCase []) (toLowerCase ''swiftui'')"
  by (simp add: build_mixedIndex)
     (simp add: mixedIndex_def documentEntry_fields referenceEntry_fields fixture_documents
       textReference_def orElse_def toLowerCase_def)

text \<open>
  Claim C8, amended. With a non-empty technology filter, an entry is dropped exactly when
  its path is non-empty and does not contain the filter, both compared in lower case: a
  document so dropped is skipped together with its references, and a reference so dropped
  is skipped. Entries with an empty path are kept. So after a build from an empty table
  every stored entry has an empty path or a path that contains the filter.
\<close>

theorem build_technology_filter:
  "(t \<noteq> [] \<longrightarrow>
      (filteredOut (Some t) p \<longleftrightarrow> p \<noteq> [] \<and> \<not> str_includes (toLowerCase p) (toLowerCase t))) \<and>
   (filteredOut (technologyIdentifier ix) (documentPath d) \<longrightarrow> processSymbolData d filePath ix = ix) \<and>
   (filteredOut (technologyIdentifier ix) (orElse (asString (member ref ''url'')) []) \<longrightarrow>
      processReference filePath ix (refId, ref) = ix) \<and>
   (symbols ix = [] \<and> technologyIdentifier ix = Some t \<and> t \<noteq> [] \<and>
      buildIndexFromCache rt fs dir batchSize ix = Some (r, ix') \<longrightarrow>
      (\<forall>kv \<in> set (symbols ix').
         entry_path (snd kv) = [] \<or>
         str_includes (toLowerCase (entry_path (snd kv))) (toLowerCase t)))"
proof (intro conjI impI)
  assume "t \<noteq> []"
  then show "filteredOut (Some t) p \<longleftrightarrow> p \<noteq> [] \<and> \<not> str_includes (toLowerCase p) (toLowerCase t)"
    by (simp add: filteredOut_def truthy_def orElse_def)
next
  assume "filteredOut (technologyIdentifier ix) (documentPath d)"
  then show "processSymbolData d filePath ix = ix"
    by (simp add: processSymbolData_def)
next
  assume "filteredOut (technologyIdentifier ix) (orElse (asString (member ref ''url'')) [])"
  then show "processReference filePath ix (refId, ref) = ix"
    by (simp add: processReference_def)
next
  assume a: "symbols ix = [] \<and> technologyIdentifier ix = Some t \<and> t \<noteq> [] \<and>
      buildIndexFromCache rt fs dir batchSize ix = Some (r, ix')"
  let ?P = "\<lambda>(f :: string option) (k :: string) e. truthy f \<longrightarrow>
      entry_path e = [] \<or> str_includes (toLowerCase (entry_path e)) (toLowerCase (orElse f []))"
  have "entryInvariant ?P"
    unfolding entryInvariant_def
    by (auto simp: referenceEntry_fields documentEntry_fields filteredOut_def)
  from build_invariant [OF this, of ix rt fs dir batchSize r ix'] a
  show "\<forall>kv \<in> set (symbols ix').
         entry_path (snd kv) = [] \<or>
         str_includes (toLowerCase (entry_path (snd kv))) (toLowerCase t)"
    by (auto simp: tableInvariant_def truthy_def orElse_def)
qed

theorem build_technology_filter_witness:
  "filteredOut (Some ''swiftui'') ''/documentation/uikit/uiview'' \<and>
   \<not> filteredOut (Some ''swiftui'') ''/documentation/swiftui/view'' \<and>
   processReference ''/tmp/.cache/uikit.json''
       (newLocalSymbolIndex ''/tmp/.cache'' (Some ''swiftui''))
       (''doc://uiview'', JObj [(''title'', JStr ''UIView''), (''url'', JStr ''/documentation/uikit/uiview''),
                (''kind'', JStr ''symbol'')])
     = newLocalSymbolIndex ''/tmp/.cache'' (Some ''swiftui'') \<and>
   buildIndexFromCache mixedRuntime mixedDisk mixedDirectory 10
     (newLocalSymbolIndex ''/tmp/.cache'' (Some ''swiftui'')) = Some (Inr (), mixedIndex) \<and>
   list_all (\<lambda>kv. entry_path (snd kv) = [] \<or>
                str_includes (toLowerCase (entry_path (snd kv))) (toLowerCase ''swiftui''))
     (symbols mixedIndex) \<and>
   map fst (symbols mixedIndex) = [''/documentation/swiftui/view'', ''doc://Text'', ''UIKit'']"
proof -
  let ?ix0 = "newLocalSymbolIndex ''/tmp/.cache'' (Some ''swiftui'')"
  let ?ref = "JObj [(''title'', JStr ''UIView''), (''url'', JStr ''/documentation/uikit/uiview''),
                (''kind'', JStr ''symbol'')]"
  have e: "symbols ?ix0 = []" "technologyIdentifier ?ix0 = Some ''swiftui''"
    by (simp_all add: newLocalSymbolIndex_def)
  note inst = build_technology_filter [where ix = ?ix0 and t = "''swiftui''" and rt = mixedRuntime
      and fs = mixedDisk and dir = mixedDirectory and batchSize = 10 and r = "Inr ()"
      and ix' = mixedIndex and ref = ?ref and refId = "''doc://uiview''"
      and filePath = "''/tmp/.cache/uikit.json''"]
  have out: "filteredOut (technologyIdentifier ?ix0) (orElse (asString (member ?ref ''url'')) [])"
    by (simp add: e orElse_def filter_fixtures)
  from inst out have dropped: "processReference ''/tmp/.cache/uikit.json'' ?ix0 (''doc://uiview'', ?ref) = ?ix0"
    by blast
  from inst e build_mixedIndex
  have "\<forall>kv \<in> set (symbols mixedIndex).
         entry_path (snd kv) = [] \<or>
         str_includes (toLowerCase (entry_path (snd kv))) (toLowerCase ''swiftui'')"
    by simp
  then have all: "list_all (\<lambda>kv. entry_path (snd kv) = [] \<or>
                str_includes (toLowerCase (entry_path (snd kv))) (toLowerCase ''swiftui''))
     (symbols mixedIndex)"
    by (simp only: list_all_iff)
  have keys: "map fst (symbols mixedIndex) = [''/documentation/swiftui/view'', ''doc://Text'', ''UIKit'']"
    by (simp add: mixedIndex_def)
  from filter_fixtures(5) filter_fixtures(3) dropped build_mixedIndex all keys show ?thesis by blast
qed

section \<open>Properties of the tokenizer\<close>

lemma splitBy_unfold:
  "splitBy sep cs
     = takeWhile (\<lambda>d. \<not> sep d) cs
       # (case dropWhile (\<lambda>d. \<not> sep d) cs of [] \<Rightarrow> [] | d # ds \<Rightarrow> splitBy sep ds)"
  by (induction cs) simp_all

lemma splitBy_runs:
  "filter (\<lambda>t. t \<noteq> []) (splitBy isDelimiter s) = delimitedRuns s"
proof (induction s rule: delimitedRuns.induct)
  case 1
  then show ?case by simp
next
  case (2 c cs)
  show ?case
  proof (cases "isDelimiter c")
    case True
    with 2 show ?thesis by simp
  next
    case False
    let ?rest = "dropWhile (\<lambda>d. \<not> isDelimiter d) cs"
    from 2 False have IH: "filter (\<lambda>t. t \<noteq> []) (splitBy isDelimiter ?rest) = delimitedRuns ?rest"
      by simp
    have tail: "filter (\<lambda>t. t \<noteq> []) (case ?rest of [] \<Rightarrow> [] | d # ds \<Rightarrow> splitBy isDelimiter ds)
        = filter (\<lambda>t. t \<noteq> []) (splitBy isDelimiter ?rest)"
    proof (cases "dropWhile (\<lambda>d. \<not> isDelimiter d) cs")
      case Nil
      show ?thesis unfolding Nil by simp
    next
      case (Cons d ds)
      then have "isDelimiter d"
        using hd_dropWhile [of "\<lambda>d. \<not> isDelimiter d" cs] by auto
      with Cons show ?thesis by simp
    qed
    have "splitBy isDelimiter (c # cs)
        = (c # takeWhile (\<lambda>d. \<not> isDelimiter d) cs)
          # (case ?rest of [] \<Rightarrow> [] | d # ds \<Rightarrow> splitBy isDelimiter ds)"
      using False by (subst splitBy_unfold) simp
    with False tail IH show ?thesis by simp
  qed
qed

lemma camelParts_unfold:
  "camelParts (c # cs)
     = (c # takeWhile (\<lambda>d. \<not> isUpper d) cs) # camelParts (dropWhile (\<lambda>d. \<not> isUpper d) cs)"
  by (induction cs arbitrary: c) simp_all

lemma camelParts_caseParts: "camelParts w = caseParts w"
  by (induction w rule: caseParts.induct) (simp_all add: camelParts_unfold del: camelParts.simps(2,3))

lemma caseParts_nonempty: "filter (\<lambda>p. p \<noteq> []) (caseParts w) = caseParts w"
  by (induction w rule: caseParts.induct) simp_all

lemma concat_caseParts: "concat (caseParts w) = w"
  by (induction w rule: caseParts.induct) simp_all

text \<open>
  The parts of a run are cut exactly at its case boundaries: no part has a capital letter
  after its first character, and every part after the first starts with one.
\<close>

lemma caseParts_boundaries:
  "list_all (\<lambda>p. p \<noteq> [] \<and> \<not> list_ex isUpper (tl p)) (caseParts w) \<and>
   list_all (\<lambda>p. isUpper (hd p)) (tl (caseParts w))"
proof (induction w rule: caseParts.induct)
  case 1
  then show ?case by simp
next
  case (2 c cs)
  let ?rest = "dropWhile (\<lambda>d. \<not> isUpper d) cs"
  have "list_all (\<lambda>p. isUpper (hd p)) (caseParts ?rest)"
  proof (cases "dropWhile (\<lambda>d. \<not> isUpper d) cs")
    case Nil
    show ?thesis unfolding Nil by simp
  next
    case (Cons d ds)
    then have "isUpper d"
      using hd_dropWhile [of "\<lambda>d. \<not> isUpper d" cs] by auto
    with 2 Cons show ?thesis by simp
  qed
  with 2 show ?case
    by (auto simp: list_ex_iff dest: set_takeWhileD)
qed

text \<open>The runs of a text are free of delimiters and together hold its other characters.\<close>

lemma delimitedRuns_content:
  "list_all (\<lambda>w. w \<noteq> [] \<and> \<not> list_ex isDelimiter w) (delimitedRuns s) \<and>
   concat (delimitedRuns s) = filter (\<lambda>c. \<not> isDelimiter c) s"
proof (induction s rule: delimitedRuns.induct)
  case 1
  then show ?case by simp
next
  case (2 c cs)
  have "filter (\<lambda>c. \<not> isDelimiter c) cs
      = takeWhile (\<lambda>d. \<not> isDelimiter d) cs
        @ filter (\<lambda>c. \<not> isDelimiter c) (dropWhile (\<lambda>d. \<not> isDelimiter d) cs)"
    by (induction cs) simp_all
  with 2 show ?case
    by (auto simp: list_ex_iff dest: set_takeWhileD)
qed

lemma foldl_concat_map:
  "foldl f acc (concat (map g xs)) = foldl (\<lambda>a x. foldl f a (g x)) acc xs"
  by (induction xs arbitrary: acc) simp_all

lemma addToken_wordTokens:
  "addToken tokens token = foldl (\<lambda>a t. setAdd t a) tokens (wordTokens token)"
  by (simp add: addToken_def wordTokens_def Let_def camelParts_caseParts caseParts_nonempty
      concat_caseParts foldl_concat_map)

lemma foldl_setAdd: "foldl (\<lambda>a t. setAdd t a) [] xs = firstOccurrences xs"
proof (induction xs rule: rev_induct)
  case Nil
  then show ?case by (simp add: firstOccurrences_def)
next
  case (snoc x xs)
  have "firstOccurrences (xs @ [x]) = setAdd x (firstOccurrences xs)"
    by (simp add: firstOccurrences_def setAdd_def)
  with snoc show ?case by simp
qed

lemma tokenize_spec: "tokenize s = delimiterCaseTokens s"
proof -
  have "foldl addToken [] ws = foldl (\<lambda>a t. setAdd t a) [] (concat (map wordTokens ws))" for ws
    by (simp add: foldl_concat_map addToken_wordTokens [abs_def])
  then show ?thesis
    by (cases "s = []")
       (simp_all add: tokenize_def splitBy_runs foldl_setAdd delimiterCaseTokens_def firstOccurrences_def)
qed

lemma createSearchTokens_spec:
  "createSearchTokens title abstract path platforms
     = firstOccurrences (concat (map tokenize (title # abstract # path # platforms)))"
proof -
  have "foldl (\<lambda>acc s. foldl (\<lambda>a t. setAdd t a) acc (tokenize s)) acc platforms
      = foldl (\<lambda>a t. setAdd t a) acc (concat (map tokenize platforms))" for acc
    by (simp add: foldl_concat_map)
  then show ?thesis
    by (simp add: createSearchTokens_def Let_def foldl_setAdd [symmetric])
qed

section \<open>Properties of the search\<close>

lemma foldl_tokenHits:
  "foldl (tokenHits entry) score queryTokens = score + tokenScore queryTokens entry"
  by (induction queryTokens arbitrary: score) (simp_all add: tokenScore_def tokenHits_def Let_def)

lemma search_results:
  "foldl (\<lambda>res kv. let score = f (snd kv) in if score > 0 then res @ [(snd kv, score)] else res)
     acc table
   = acc @ map (\<lambda>e. (e, f e)) (filter (\<lambda>e. 0 < f e) (map snd table))"
  for f :: "'e \<Rightarrow> nat"
  by (induction table arbitrary: acc) (simp_all add: Let_def)

lemma sort_key_pairs:
  "sort_key (\<lambda>r. g (snd r)) (map (\<lambda>e. (e, f e)) xs) = map (\<lambda>e. (e, f e)) (sort_key (\<lambda>e. g (f e)) xs)"
  for g :: "'s \<Rightarrow> 'k::linorder"
proof (induction xs)
  case Nil
  then show ?case by simp
next
  case (Cons x xs)
  have ins: "insort_key (\<lambda>r. g (snd r)) (x, f x) (map (\<lambda>e. (e, f e)) ys)
      = map (\<lambda>e. (e, f e)) (insort_key (\<lambda>e. g (f e)) x ys)" for ys
    by (induction ys) simp_all
  from Cons show ?case by (simp add: ins)
qed

lemma searchWith_eq:
  "searchWith re query maxResults ix
     = take maxResults
         (sort_key (\<lambda>e. - int (entryScore re query (tokenize query) e))
            (filter (\<lambda>e. 0 < entryScore re query (tokenize query) e) (map snd (symbols ix))))"
proof -
  let ?f = "entryScore re query (tokenize query)"
  have "searchWith re query maxResults ix
      = map fst (take maxResults (sort_key (\<lambda>r. - int (snd r))
          (map (\<lambda>e. (e, ?f e)) (filter (\<lambda>e. 0 < ?f e) (map snd (symbols ix))))))"
    using search_results [of ?f "[]" "symbols ix"] by (simp add: searchWith_def Let_def)
  also have "\<dots> = take maxResults (map fst (map (\<lambda>e. (e, ?f e))
        (sort_key (\<lambda>e. - int (?f e)) (filter (\<lambda>e. 0 < ?f e) (map snd (symbols ix))))))"
    by (simp only: sort_key_pairs [of "\<lambda>s. - int s" ?f] take_map)
  finally show ?thesis by (simp add: comp_def)
qed

text \<open>
  Claim C5. For a query without wildcards the query tokens are those of the tokenizer of
  the index build, which cuts a text at its delimiters and at its case boundaries; the
  score of an entry is the sum over all query tokens of 50 for a title hit, 30 for token
  membership and 10 for an abstract hit; entries with score 0 are left out, the others are
  sorted by descending score (entries of equal score stay in table order) and the result
  is cut at \<open>maxResults\<close>.
\<close>

theorem search_token_ranking:
  assumes "\<not> hasWildcards query"
  shows "tokenize query = delimiterCaseTokens query \<and>
         createSearchTokens title abstract path platforms
           = firstOccurrences
               (concat (map delimiterCaseTokens (title # abstract # path # platforms))) \<and>
         entryScore (compileWildcard query) query (tokenize query) entry
           = tokenScore (delimiterCaseTokens query) entry \<and>
         search query maxResults ix
           = take maxResults
               (sort_key (\<lambda>e. - int (tokenScore (delimiterCaseTokens query) e))
                  (filter (\<lambda>e. 0 < tokenScore (delimiterCaseTokens query) e) (map snd (symbols ix)))) \<and>
         list_all (\<lambda>e. 0 < tokenScore (delimiterCaseTokens query) e) (search query maxResults ix) \<and>
         sorted (rev (map (\<lambda>e. tokenScore (delimiterCaseTokens query) e) (search query maxResults ix))) \<and>
         length (search query maxResults ix) \<le> maxResults"
proof -
  let ?s = "tokenScore (delimiterCaseTokens query)"
  have tokens: "tokenize query = delimiterCaseTokens query"
    by (rule tokenize_spec)
  have build: "createSearchTokens title abstract path platforms
      = firstOccurrences (concat (map delimiterCaseTokens (title # abstract # path # platforms)))"
    by (simp add: createSearchTokens_spec tokenize_spec [abs_def])
  have score: "entryScore re query (tokenize query) e = ?s e" for re e
    using assms by (simp add: entryScore_def foldl_tokenHits tokens)
  have eq: "search query maxResults ix
      = take maxResults (sort_key (\<lambda>e. - int (?s e)) (filter (\<lambda>e. 0 < ?s e) (map snd (symbols ix))))"
    by (simp add: search_def searchWith_eq score)
  let ?sorted = "sort_key (\<lambda>e. - int (?s e)) (filter (\<lambda>e. 0 < ?s e) (map snd (symbols ix)))"
  have pos: "list_all (\<lambda>e. 0 < ?s e) (search query maxResults ix)"
    unfolding eq list_all_iff by (auto dest: in_set_takeD)
  have "sorted (map (\<lambda>e. - int (?s e)) ?sorted)"
    by (rule sorted_sort_key)
  then have "sorted (map (\<lambda>e. - int (?s e)) (take maxResults ?sorted))"
    by (simp add: take_map [symmetric] sorted_wrt_take)
  then have desc: "sorted (rev (map ?s (search query maxResults ix)))"
    unfolding eq
    by (simp add: sorted_wrt_rev sorted_map sorted_wrt_map)
  have len: "length (search query maxResults ix) \<le> maxResults"
    unfolding eq by simp
  from tokens build score eq pos desc len show ?thesis
    by (simp only: simp_thms)
qed

section \<open>The compiled wildcard expression\<close>

lemma replaceAll_match:
  "pat \<noteq> [] \<Longrightarrow> replaceAll (pat @ rest) pat rep = rep @ replaceAll rest pat rep"
  by (cases pat) (simp_all add: replaceAll.simps)

lemma replaceAll_skip:
  "c \<noteq> hd pat \<Longrightarrow> replaceAll (c # rest) pat rep = c # replaceAll rest pat rep"
  by (cases pat) (simp_all add: replaceAll.simps)

lemma replaceAll_Nil [simp]: "replaceAll [] pat rep = []"
  by (simp add: replaceAll.simps)

lemma replaceAll_skips:
  "hd pat \<notin> set xs \<Longrightarrow> replaceAll (xs @ rest) pat rep = xs @ replaceAll rest pat rep"
  by (induction xs) (auto simp: replaceAll_skip)

lemma stageB:
  "replaceAll (replaceAll query ''*'' starPlaceholder) ''?'' questionPlaceholder
     = concat (map blockB query)"
proof (induction query)
  case Nil
  then show ?case by simp
next
  case (Cons c query)
  have star: "replaceAll (starPlaceholder @ rest) ''?'' questionPlaceholder
      = starPlaceholder @ replaceAll rest ''?'' questionPlaceholder" for rest
    by (rule replaceAll_skips) (simp add: starPlaceholder_def)
  have one: "replaceAll (CHR ''*'' # rest) ''*'' starPlaceholder
      = starPlaceholder @ replaceAll rest ''*'' starPlaceholder" for rest
    using replaceAll_match [of "''*''" rest starPlaceholder] by simp
  have q: "replaceAll (CHR ''?'' # rest) ''?'' questionPlaceholder
      = questionPlaceholder @ replaceAll rest ''?'' questionPlaceholder" for rest
    using replaceAll_match [of "''?''" rest questionPlaceholder] by simp
  from Cons show ?case
    by (auto simp: blockB_def star one q replaceAll_skip)
qed

lemma escapeSpecial_append: "escapeSpecial (xs @ ys) = escapeSpecial xs @ escapeSpecial ys"
  by (simp add: escapeSpecial_def)

lemma stageC: "escapeSpecial (concat (map blockB query)) = concat (map blockC query)"
proof (induction query)
  case Nil
  then show ?case by (simp add: escapeSpecial_def)
next
  case (Cons c query)
  have "escapeSpecial (blockB c) = blockC c"
    by (simp add: blockB_def blockC_def escapeSpecial_def isEscaped_def backslash_def
        starPlaceholder_def questionPlaceholder_def)
  with Cons show ?case by (simp add: escapeSpecial_append)
qed

lemma replaceAll_noprefix:
  "\<not> prefix pat (c # rest) \<Longrightarrow> replaceAll (c # rest) pat rep = c # replaceAll rest pat rep"
  by (simp add: replaceAll.simps)

lemma blockC_head:
  assumes "prefix (x # xs) (concat (map blockC q))" and "x \<noteq> CHR 0x00" and "x \<noteq> backslash"
  shows "\<exists>q'. q = x # q' \<and> prefix xs (concat (map blockC q'))"
proof (cases q)
  case Nil
  with assms show ?thesis by simp
next
  case (Cons d q')
  with assms show ?thesis
    by (auto simp: blockC_def starPlaceholder_def questionPlaceholder_def split: if_splits)
qed

lemma collides_Cons:
  "collides (c # q) \<longleftrightarrow> list_ex (\<lambda>t. prefix t (c # q)) collisions \<or> collides q"
  by (auto simp: collides_def list_ex_iff)

lemma blockC_literal_then:
  "prefix (xs @ ys) (concat (map blockC q)) \<Longrightarrow> CHR 0x00 \<notin> set xs \<Longrightarrow> backslash \<notin> set xs \<Longrightarrow>
   \<exists>q'. q = xs @ q' \<and> prefix ys (concat (map blockC q'))"
proof (induction xs arbitrary: q)
  case Nil
  then show ?case by simp
next
  case (Cons x xs)
  from blockC_head [of x "xs @ ys" q] Cons.prems
  obtain q1 where q: "q = x # q1" and p: "prefix (xs @ ys) (concat (map blockC q1))"
    by auto
  from Cons.IH [OF p] Cons.prems obtain q' where "q1 = xs @ q'" "prefix ys (concat (map blockC q'))"
    by auto
  with q show ?case by simp
qed

lemma blockC_nul:
  assumes "prefix [CHR 0x00] (concat (map blockC q))"
  shows "prefix [CHR 0x00] q \<or> prefix ''*'' q \<or> prefix ''?'' q"
proof (cases q)
  case Nil
  with assms show ?thesis by simp
next
  case (Cons d q')
  with assms show ?thesis
    by (auto simp: blockC_def backslash_def split: if_splits)
qed

lemma star_then_nul:
  assumes "prefix (''STAR'' @ [CHR 0x00]) (concat (map blockC q))"
  shows "prefix (''STAR'' @ [CHR 0x00]) q \<or> prefix ''STAR*'' q \<or> prefix ''STAR?'' q"
proof -
  from blockC_literal_then [OF assms]
  obtain q' where q: "q = ''STAR'' @ q'" and p: "prefix [CHR 0x00] (concat (map blockC q'))"
    by (auto simp: backslash_def)
  from blockC_nul [OF p] show ?thesis
    by (simp add: q)
qed

lemma stageD_nul:
  assumes "\<not> prefix (''STAR'' @ [CHR 0x00]) q" and "\<not> prefix ''STAR*'' q" and "\<not> prefix ''STAR?'' q"
  shows "replaceAll (CHR 0x00 # concat (map blockC q)) starPlaceholder ''.*''
       = CHR 0x00 # replaceAll (concat (map blockC q)) starPlaceholder ''.*''"
proof (rule replaceAll_noprefix)
  show "\<not> prefix starPlaceholder (CHR 0x00 # concat (map blockC q))"
  proof
    assume "prefix starPlaceholder (CHR 0x00 # concat (map blockC q))"
    then have "prefix (''STAR'' @ [CHR 0x00]) (concat (map blockC q))"
      by (simp add: starPlaceholder_def)
    from star_then_nul [OF this] assms show False
      by simp
  qed
qed

lemma stageD_question:
  assumes "\<not> prefix (''STAR'' @ [CHR 0x00]) q" and "\<not> prefix ''STAR*'' q" and "\<not> prefix ''STAR?'' q"
  shows "replaceAll (questionPlaceholder @ concat (map blockC q)) starPlaceholder ''.*''
       = questionPlaceholder @ replaceAll (concat (map blockC q)) starPlaceholder ''.*''"
proof -
  let ?rest = "concat (map blockC q)"
  have first: "replaceAll (CHR 0x00 # ''QUESTION'' @ CHR 0x00 # ?rest) starPlaceholder ''.*''
      = CHR 0x00 # replaceAll (''QUESTION'' @ CHR 0x00 # ?rest) starPlaceholder ''.*''"
    by (rule replaceAll_noprefix) (simp add: starPlaceholder_def)
  have middle: "replaceAll (''QUESTION'' @ CHR 0x00 # ?rest) starPlaceholder ''.*''
      = ''QUESTION'' @ replaceAll (CHR 0x00 # ?rest) starPlaceholder ''.*''"
    by (rule replaceAll_skips) (simp add: starPlaceholder_def)
  have "questionPlaceholder @ ?rest = CHR 0x00 # ''QUESTION'' @ CHR 0x00 # ?rest"
    by (simp add: questionPlaceholder_def)
  then show ?thesis
    by (simp only: first middle stageD_nul [OF assms]) (simp add: questionPlaceholder_def)
qed

lemma stageD:
  assumes "\<not> collides query"
  shows "replaceAll (concat (map blockC query)) starPlaceholder ''.*'' = concat (map blockD query)"
  using assms
proof (induction query)
  case Nil
  then show ?case by simp
next
  case (Cons c query)
  let ?rest = "concat (map blockC query)"
  from Cons have IH: "replaceAll ?rest starPlaceholder ''.*'' = concat (map blockD query)"
    and here: "\<not> list_ex (\<lambda>t. prefix t (c # query)) collisions"
    by (simp_all add: collides_Cons)
  have hd: "hd starPlaceholder = CHR 0x00" and ne: "starPlaceholder \<noteq> []"
    by (simp_all add: starPlaceholder_def)
  show ?case
  proof (cases "c = CHR ''*''")
    case True
    then have b: "blockC c = starPlaceholder" "blockD c = ''.*''"
      by (simp_all add: blockC_def blockD_def)
    from replaceAll_match [OF ne, of ?rest "''.*''"] IH show ?thesis
      by (simp add: b)
  next
    case star: False
    show ?thesis
    proof (cases "c = CHR ''?''")
      case True
      then have b: "blockC c = questionPlaceholder" "blockD c = questionPlaceholder"
        by (simp_all add: blockC_def blockD_def)
      from True here
      have "\<not> prefix (''STAR'' @ [CHR 0x00]) query" "\<not> prefix ''STAR*'' query" "\<not> prefix ''STAR?'' query"
        by (simp_all add: collisions_def)
      from stageD_question [OF this] IH show ?thesis
        by (simp add: b)
    next
      case question: False
      show ?thesis
      proof (cases "c = CHR 0x00")
        case True
        then have b: "blockC c = [CHR 0x00]" "blockD c = [CHR 0x00]"
          by (simp_all add: blockC_def blockD_def isEscaped_def backslash_def)
        from True here
        have "\<not> prefix (''STAR'' @ [CHR 0x00]) query" "\<not> prefix ''STAR*'' query" "\<not> prefix ''STAR?'' query"
          by (simp_all add: collisions_def)
        from stageD_nul [OF this] IH show ?thesis
          by (simp add: b)
      next
        case False
        with star question have b: "blockD c = blockC c"
          by (simp add: blockC_def blockD_def)
        have "hd starPlaceholder \<notin> set (blockC c)"
          using star question False by (simp add: hd blockC_def backslash_def)
        then have "replaceAll (blockC c @ ?rest) starPlaceholder ''.*''
            = blockC c @ replaceAll ?rest starPlaceholder ''.*''"
          by (rule replaceAll_skips)
        with IH show ?thesis
          by (simp add: b)
      qed
    qed
  qed
qed

lemma blockD_head:
  assumes "prefix (x # xs) (concat (map blockD q))"
    and "x \<noteq> CHR 0x00" and "x \<noteq> backslash" and "x \<noteq> CHR ''.''"
  shows "\<exists>q'. q = x # q' \<and> prefix xs (concat (map blockD q'))"
proof (cases q)
  case Nil
  with assms show ?thesis by simp
next
  case (Cons d q')
  with assms show ?thesis
    by (auto simp: blockD_def questionPlaceholder_def split: if_splits)
qed

lemma blockD_literal_then:
  "prefix (xs @ ys) (concat (map blockD q)) \<Longrightarrow>
   CHR 0x00 \<notin> set xs \<Longrightarrow> backslash \<notin> set xs \<Longrightarrow> CHR ''.'' \<notin> set xs \<Longrightarrow>
   \<exists>q'. q = xs @ q' \<and> prefix ys (concat (map blockD q'))"
proof (induction xs arbitrary: q)
  case Nil
  then show ?case by simp
next
  case (Cons x xs)
  from blockD_head [of x "xs @ ys" q] Cons.prems
  obtain q1 where q: "q = x # q1" and p: "prefix (xs @ ys) (concat (map blockD q1))"
    by auto
  from Cons.IH [OF p] Cons.prems obtain q' where "q1 = xs @ q'" "prefix ys (concat (map blockD q'))"
    by auto
  with q show ?case by simp
qed

lemma blockD_nul:
  assumes "prefix [CHR 0x00] (concat (map blockD q))"
  shows "prefix [CHR 0x00] q \<or> prefix ''?'' q"
proof (cases q)
  case Nil
  with assms show ?thesis by simp
next
  case (Cons d q')
  with assms show ?thesis
    by (auto simp: blockD_def backslash_def split: if_splits)
qed

lemma question_then_nul:
  assumes "prefix (''QUESTION'' @ [CHR 0x00]) (concat (map blockD q))"
  shows "prefix (''QUESTION'' @ [CHR 0x00]) q \<or> prefix ''QUESTION?'' q"
proof -
  from blockD_literal_then [OF assms]
  obtain q' where q: "q = ''QUESTION'' @ q'" and p: "prefix [CHR 0x00] (concat (map blockD q'))"
    by (auto simp: backslash_def)
  from blockD_nul [OF p] show ?thesis
    by (simp add: q)
qed

lemma stageE_nul:
  assumes "\<not> prefix (''QUESTION'' @ [CHR 0x00]) q" and "\<not> prefix ''QUESTION?'' q"
  shows "replaceAll (CHR 0x00 # concat (map blockD q)) questionPlaceholder ''.''
       = CHR 0x00 # replaceAll (concat (map blockD q)) questionPlaceholder ''.''"
proof (rule replaceAll_noprefix)
  show "\<not> prefix questionPlaceholder (CHR 0x00 # concat (map blockD q))"
  proof
    assume "prefix questionPlaceholder (CHR 0x00 # concat (map blockD q))"
    then have "prefix (''QUESTION'' @ [CHR 0x00]) (concat (map blockD q))"
      by (simp add: questionPlaceholder_def)
    from question_then_nul [OF this] assms show False
      by simp
  qed
qed

lemma stageE:
  assumes "\<not> collides query"
  shows "replaceAll (concat (map blockD query)) questionPlaceholder ''.'' = concat (map blockE query)"
  using assms
proof (induction query)
  case Nil
  then show ?case by simp
next
  case (Cons c query)
  let ?rest = "concat (map blockD query)"
  from Cons have IH: "replaceAll ?rest questionPlaceholder ''.'' = concat (map blockE query)"
    and here: "\<not> list_ex (\<lambda>t. prefix t (c # query)) collisions"
    by (simp_all add: collides_Cons)
  have hd: "hd questionPlaceholder = CHR 0x00" and ne: "questionPlaceholder \<noteq> []"
    by (simp_all add: questionPlaceholder_def)
  show ?case
  proof (cases "c = CHR ''?''")
    case True
    then have b: "blockD c = questionPlaceholder" "blockE c = ''.''"
      by (simp_all add: blockD_def blockE_def)
    from replaceAll_match [OF ne, of ?rest "''.''"] IH show ?thesis
      by (simp add: b)
  next
    case question: False
    then have b: "blockE c = blockD c"
      by (simp add: blockD_def blockE_def)
    show ?thesis
    proof (cases "c = CHR 0x00")
      case True
      then have n: "blockD c = [CHR 0x00]"
        by (simp add: blockD_def isEscaped_def backslash_def)
      from True here
      have "\<not> prefix (''QUESTION'' @ [CHR 0x00]) query" "\<not> prefix ''QUESTION?'' query"
        by (simp_all add: collisions_def)
      from stageE_nul [OF this] IH show ?thesis
        by (simp add: b n)
    next
      case False
      have "hd questionPlaceholder \<notin> set (blockD c)"
        using question False by (simp add: hd blockD_def backslash_def)
      then have "replaceAll (blockD c @ ?rest) questionPlaceholder ''.''
          = blockD c @ replaceAll ?rest questionPlaceholder ''.''"
        by (rule replaceAll_skips)
      with IH show ?thesis
        by (simp add: b)
    qed
  qed
qed

lemma toLowerChar_cases:
  "toLowerChar c = c \<or> toLowerChar c \<in> set ''abcdefghijklmnopqrstuvwxyz''"
  by (simp add: toLowerChar_def)

lemma isSyntaxChar_iff: "isSyntaxChar c \<longleftrightarrow> isEscaped c \<or> c = CHR ''*'' \<or> c = CHR ''?''"
proof
  assume "isSyntaxChar c"
  then show "isEscaped c \<or> c = CHR ''*'' \<or> c = CHR ''?''"
    unfolding isSyntaxChar_def list.set insert_iff empty_iff
    by (elim disjE) (simp_all add: isEscaped_def)
next
  assume "isEscaped c \<or> c = CHR ''*'' \<or> c = CHR ''?''"
  then show "isSyntaxChar c"
    unfolding isEscaped_def list.set insert_iff empty_iff
    by (elim disjE) (simp_all add: isSyntaxChar_def)
qed

lemma toLowerChar_escaped: "isEscaped c \<Longrightarrow> toLowerChar c = c"
  unfolding isEscaped_def list.set insert_iff empty_iff
  by (elim disjE) (simp_all add: toLowerChar_def backslash_def)

lemma syntaxChars: "isSyntaxChar backslash" "isSyntaxChar CHR ''.''" "isSyntaxChar CHR ''*''"
  by (simp_all add: isSyntaxChar_def)

lemma lower_not_syntax:
  "l \<in> set ''abcdefghijklmnopqrstuvwxyz'' \<Longrightarrow> \<not> isSyntaxChar l"
  unfolding list.set insert_iff empty_iff
  by (elim disjE) (simp_all add: isSyntaxChar_def backslash_def)

lemma toLowerChar_literal:
  assumes "\<not> isEscaped c" and "c \<noteq> CHR ''*''" and "c \<noteq> CHR ''?''"
  shows "\<not> isSyntaxChar (toLowerChar c)"
proof (cases "toLowerChar c = c")
  case True
  with assms show ?thesis by (simp add: isSyntaxChar_iff)
next
  case False
  with toLowerChar_cases [of c] have "toLowerChar c \<in> set ''abcdefghijklmnopqrstuvwxyz''"
    by blast
  then show ?thesis by (rule lower_not_syntax)
qed

lemma stageF: "toLowerCase (concat (map blockE query)) = concat (map blockF query)"
proof -
  have "map toLowerChar (blockE c) = blockF c" for c
    by (simp add: blockE_def blockF_def toLowerChar_escaped)
       (simp add: toLowerChar_def backslash_def)
  then show ?thesis
    by (simp add: toLowerCase_def map_concat comp_def)
qed

lemma blockF_next:
  "\<exists>d cs. concat (map blockF query) @ ''$'' = d # cs \<and> d \<noteq> CHR ''*''"
proof (cases query)
  case Nil
  then show ?thesis by simp
next
  case (Cons c q)
  show ?thesis
  proof (cases "c = CHR ''*'' \<or> c = CHR ''?'' \<or> isEscaped c")
    case True
    with Cons show ?thesis by (auto simp: blockF_def backslash_def)
  next
    case False
    then have "\<not> isSyntaxChar (toLowerChar c)"
      by (intro toLowerChar_literal) auto
    then have "toLowerChar c \<noteq> CHR ''*''"
      using syntaxChars(3) by auto
    with False Cons show ?thesis by (simp add: blockF_def)
  qed
qed

lemma stageG: "parseBody (concat (map blockF query) @ ''$'') = Some (wildcardAtoms query)"
proof (induction query)
  case Nil
  then show ?case by (simp add: wildcardAtoms_def)
next
  case (Cons c query)
  let ?rest = "concat (map blockF query) @ ''$''"
  from blockF_next [of query] obtain d cs where rest: "?rest = d # cs" and d: "d \<noteq> CHR ''*''"
    by blast
  have IH: "parseBody ?rest = Some (wildcardAtoms query)" by (rule Cons.IH)
  have atoms: "wildcardAtoms (c # query)
      = (if c = CHR ''*'' then AnyStar else if c = CHR ''?'' then AnyChar else Lit (toLowerChar c))
        # wildcardAtoms query"
    by (simp add: wildcardAtoms_def)
  show ?case
  proof (cases "c = CHR ''*''")
    case True
    then have "parseBody (concat (map blockF (c # query)) @ ''$'') = parseBody (CHR ''.'' # CHR ''*'' # ?rest)"
      by (simp add: blockF_def)
    also have "\<dots> = map_option ((#) AnyStar) (parseBody ?rest)"
      by (simp add: backslash_def)
    finally show ?thesis using True IH atoms by simp
  next
    case star: False
    show ?thesis
    proof (cases "c = CHR ''?''")
      case True
      then have "parseBody (concat (map blockF (c # query)) @ ''$'') = parseBody (CHR ''.'' # d # cs)"
        by (simp add: blockF_def rest [symmetric])
      also have "\<dots> = map_option ((#) AnyChar) (parseBody (d # cs))"
        using d by (simp add: backslash_def)
      finally show ?thesis using True IH atoms rest by simp
    next
      case question: False
      show ?thesis
      proof (cases "isEscaped c")
        case True
        then have syn: "isSyntaxChar c" by (simp add: isSyntaxChar_iff)
        from True star question
        have "parseBody (concat (map blockF (c # query)) @ ''$'') = parseBody (backslash # c # ?rest)"
          by (simp add: blockF_def)
        also have "\<dots> = map_option ((#) (Lit c)) (parseBody ?rest)"
          using syn by simp
        finally show ?thesis
          using True star question IH atoms by (simp add: toLowerChar_escaped)
      next
        case False
        let ?l = "toLowerChar c"
        from False star question have lit: "\<not> isSyntaxChar ?l"
          by (rule toLowerChar_literal)
        then have l: "?l \<noteq> backslash" "?l \<noteq> CHR ''.''"
          using syntaxChars by auto
        from False star question
        have "parseBody (concat (map blockF (c # query)) @ ''$'') = parseBody (?l # d # cs)"
          by (simp add: blockF_def rest [symmetric])
        also have "\<dots> = map_option ((#) (Lit ?l)) (parseBody (d # cs))"
          using lit l by simp
        finally show ?thesis
          using star question IH atoms rest by simp
      qed
    qed
  qed
qed

lemma wildcardPattern_blocks:
  assumes "\<not> collides query"
  shows "wildcardPattern query = concat (map blockF query)"
  using assms by (simp add: wildcardPattern_def stageB stageC stageD stageE stageF)

lemma compileWildcard_atoms:
  assumes "hasWildcards query" and "\<not> collides query"
  shows "compileWildcard query = Some (wildcardAtoms query)"
  using assms stageG [of query]
  by (simp add: compileWildcard_def RegExp_new_def wildcardPattern_blocks)

section \<open>Properties of the wildcard search\<close>

lemma sort_key_constant:
  "(\<And>x. x \<in> set xs \<Longrightarrow> f x = k) \<Longrightarrow> sort_key f xs = xs"
proof (induction xs)
  case Nil
  then show ?case by simp
next
  case (Cons x xs)
  then have "sort_key f xs = xs" by simp
  moreover have "insort_key f x xs = x # xs"
    using Cons.prems by (cases xs) simp_all
  ultimately show ?case by simp
qed

lemma searchWith_flat:
  assumes "\<And>e. entryScore re query (tokenize query) e = (if M e then k else 0)" and "0 < k"
  shows "searchWith re query maxResults ix = take maxResults (filter M (map snd (symbols ix)))"
proof -
  have f: "filter (\<lambda>e. 0 < entryScore re query (tokenize query) e) xs = filter M xs" for xs
    using assms by (simp cong: filter_cong)
  have "sort_key (\<lambda>e. - int (entryScore re query (tokenize query) e)) (filter M xs) = filter M xs" for xs
    by (rule sort_key_constant [where k = "- int k"]) (simp add: assms(1))
  then show ?thesis
    by (simp add: searchWith_eq f)
qed

lemma demo_grid_star:
  "map entry_title (take 20 (filter (wildcardMatches (wildcardAtoms ''Grid*'')) (map snd (symbols demoIndex))))
     = [''GridItem'', ''GridRow'']"
  by code_simp

lemma demo_vie_question:
  "map entry_title (take 20 (filter (wildcardMatches (wildcardAtoms ''Vie?'')) (map snd (symbols demoIndex))))
     = [''Text'', ''View'']"
  by code_simp

lemma demo_queries:
  "hasWildcards ''Grid*'' \<and> \<not> collides ''Grid*''"
  "hasWildcards ''Vie?'' \<and> \<not> collides ''Vie?''"
  "\<not> hasWildcards ''GridItem''"
  by code_simp+

lemma demo_tokens:
  "delimiterCaseTokens ''GridItem'' = [''griditem'', ''GridItem'', ''grid'', ''Grid'', ''item'', ''Item'']"
  "delimiterCaseTokens ''nav view'' = [''nav'', ''view'']"
  "delimiterCaseTokens ''swiftUI/list-row.view_model''
     = [''swiftui'', ''swiftUI'', ''swift'', ''u'', ''U'', ''i'', ''I'', ''list'', ''row'', ''view'', ''model'']"
  by code_simp+

lemma demo_griditem_ranking:
  "map (\<lambda>e. (entry_title e, tokenScore (delimiterCaseTokens ''GridItem'') e))
     (take 20 (sort_key (\<lambda>e. - int (tokenScore (delimiterCaseTokens ''GridItem'') e))
        (filter (\<lambda>e. 0 < tokenScore (delimiterCaseTokens ''GridItem'') e) (map snd (symbols demoIndex)))))
   = [(''GridItem'', 500), (''GridRow'', 180)]"
  by code_simp

theorem search_token_ranking_witness:
  "\<not> hasWildcards ''GridItem'' \<and>
   tokenize ''GridItem'' = [''griditem'', ''GridItem'', ''grid'', ''Grid'', ''item'', ''Item''] \<and>
   map entry_title (map snd (symbols demoIndex)) = [''Text'', ''Button'', ''View'', ''GridItem'', ''GridRow''] \<and>
   map (\<lambda>e. (entry_title e, tokenScore (tokenize ''GridItem'') e)) (search ''GridItem'' 20 demoIndex)
     = [(''GridItem'', 500), (''GridRow'', 180)]"
proof -
  have titles: "map entry_title (map snd (symbols demoIndex))
      = [''Text'', ''Button'', ''View'', ''GridItem'', ''GridRow'']"
    by code_simp
  note inst = search_token_ranking [OF demo_queries(3), where maxResults = 20 and ix = demoIndex]
  from inst have tokens: "tokenize ''GridItem'' = delimiterCaseTokens ''GridItem''"
    by blast
  from inst have "search ''GridItem'' 20 demoIndex
      = take 20 (sort_key (\<lambda>e. - int (tokenScore (delimiterCaseTokens ''GridItem'') e))
          (filter (\<lambda>e. 0 < tokenScore (delimiterCaseTokens ''GridItem'') e) (map snd (symbols demoIndex))))"
    by blast
  with demo_griditem_ranking demo_queries(3) titles demo_tokens(1) show ?thesis
    by (simp add: tokens)
qed

text \<open>
  Claim C4 as stated fails because of the cut at \<open>maxResults\<close>: for the query \<open>Grid*\<close> and
  \<open>maxResults = 1\<close> the entry \<open>GridRow\<close> is in the index and its lower-cased title matches
  the compiled expression, and it is not returned.
\<close>

theorem wildcard_cut_counterexample:
  "compileWildcard ''Grid*'' = Some [Lit CHR ''g'', Lit CHR ''r'', Lit CHR ''i'', Lit CHR ''d'', AnyStar] \<and>
   map entry_title (map snd (symbols demoIndex)) = [''Text'', ''Button'', ''View'', ''GridItem'', ''GridRow''] \<and>
   rxTest [Lit CHR ''g'', Lit CHR ''r'', Lit CHR ''i'', Lit CHR ''d'', AnyStar] (toLowerCase ''GridRow'') \<and>
   map entry_title (search ''Grid*'' 1 demoIndex) = [''GridItem'']"
  by code_simp

text \<open>
  The chain of replacements shares the delimiter of its placeholders: in the query
  \<open>?STAR*\<close> the end of the placeholder of \<open>?\<close>, the text \<open>STAR\<close> and the start of the
  placeholder of \<open>*\<close> read as a placeholder of \<open>*\<close>, and the compiled expression is not
  the translation of the query. The comment above the chain and the description of the
  search tool both promise the translation, so this is a defect of the chain.
\<close>

lemma placeholder_collision:
  "wildcardAtoms ''?STAR*''
     = [AnyChar, Lit CHR ''s'', Lit CHR ''t'', Lit CHR ''a'', Lit CHR ''r'', AnyStar] \<and>
   compileWildcard ''?STAR*''
     = Some [Lit (CHR 0x00), Lit CHR ''q'', Lit CHR ''u'', Lit CHR ''e'', Lit CHR ''s'', Lit CHR ''t'',
             Lit CHR ''i'', Lit CHR ''o'', Lit CHR ''n'', AnyStar, Lit CHR ''s'', Lit CHR ''t'',
             Lit CHR ''a'', Lit CHR ''r'', Lit (CHR 0x00)]"
  by code_simp

text \<open>
  Every one of the eight colliding texts, in a query with a wildcard, is compiled to
  something else than the translation of the query; queries that come close to them
  without holding one are translated.
\<close>

lemma collisions_mistranslated:
  "list_all (\<lambda>q. hasWildcards q \<and> collides q \<and> compileWildcard q \<noteq> Some (wildcardAtoms q))
     [CHR 0x00 # ''STAR'' @ CHR 0x00 # ''*'', CHR 0x00 # ''STAR*'', CHR 0x00 # ''STAR?'',
      ''?STAR'' @ [CHR 0x00], ''?STAR*'', ''?STAR?'',
      CHR 0x00 # ''QUESTION'' @ CHR 0x00 # ''*'', CHR 0x00 # ''QUESTION?'']"
  by code_simp

lemma near_collisions_translated:
  "list_all (\<lambda>q. hasWildcards q \<and> \<not> collides q \<and> compileWildcard q = Some (wildcardAtoms q))
     [''?START*'', ''a?STAR'', ''a'' @ CHR 0x00 # ''b*'', ''*STAR*'', ''?QUESTION?'', ''?star*'',
      CHR 0x00 # ''QUESTION*'', ''*STAR'' @ [CHR 0x00]]"
  by code_simp

text \<open>
  Claim C4, amended. For a query that contains \<open>*\<close> or \<open>?\<close>: unless the query holds one of
  the colliding texts, the expression compiled before the loop is the anchored translation
  of the query (\<open>*\<close> to \<open>.*\<close>, \<open>?\<close> to \<open>.\<close>, every other character literally, in lower case).
  Whatever expression has been compiled, an entry scores the flat 100 exactly when the
  expression matches its lower-cased title, its lower-cased path or one of its tokens, and
  0 otherwise, and the entries that score, in the order of the table and cut at
  \<open>maxResults\<close>, are returned. If the compilation fails, the entries whose lower-cased title
  or path contains the lower-cased query are returned instead, again cut at \<open>maxResults\<close>.
  In the demonstration index with \<open>maxResults = 20\<close>, \<open>Grid*\<close> returns \<open>GridItem\<close> and
  \<open>GridRow\<close> and not \<open>Button\<close>, and \<open>Vie?\<close> returns \<open>View\<close> (and \<open>Text\<close>, whose tokens contain
  \<open>view\<close>).
\<close>

theorem search_wildcard:
  "(hasWildcards query \<and> \<not> collides query \<longrightarrow>
      compileWildcard query = Some (wildcardAtoms query) \<and>
      entryScore (compileWildcard query) query queryTokens entry
        = (if wildcardMatches (wildcardAtoms query) entry then 100 else 0) \<and>
      search query maxResults ix
        = take maxResults (filter (wildcardMatches (wildcardAtoms query)) (map snd (symbols ix)))) \<and>
   (hasWildcards query \<longrightarrow>
      entryScore (Some re) query queryTokens entry = (if wildcardMatches re entry then 100 else 0) \<and>
      searchWith (Some re) query maxResults ix
        = take maxResults (filter (wildcardMatches re) (map snd (symbols ix)))) \<and>
   (hasWildcards query \<longrightarrow>
      entryScore None query queryTokens entry = (if literalMatches query entry then 50 else 0) \<and>
      searchWith None query maxResults ix
        = take maxResults (filter (literalMatches query) (map snd (symbols ix)))) \<and>
   map entry_title (search ''Grid*'' 20 demoIndex) = [''GridItem'', ''GridRow''] \<and>
   map entry_title (search ''Vie?'' 20 demoIndex) = [''Text'', ''View'']"
proof (intro conjI impI)
  assume a: "hasWildcards query \<and> \<not> collides query"
  then show c: "compileWildcard query = Some (wildcardAtoms query)"
    by (simp add: compileWildcard_atoms)
  have score: "entryScore (compileWildcard query) query qts e
      = (if wildcardMatches (wildcardAtoms query) e then 100 else 0)" for qts e
    using a by (simp add: c entryScore_def wildcardMatches_def)
  show "entryScore (compileWildcard query) query queryTokens entry
        = (if wildcardMatches (wildcardAtoms query) entry then 100 else 0)"
    by (rule score)
  show "search query maxResults ix
        = take maxResults (filter (wildcardMatches (wildcardAtoms query)) (map snd (symbols ix)))"
    unfolding search_def by (rule searchWith_flat [where k = 100]) (simp_all add: score)
next
  assume h: "hasWildcards query"
  have score: "entryScore (Some re) query qts e = (if wildcardMatches re e then 100 else 0)" for qts e
    using h by (simp add: entryScore_def wildcardMatches_def)
  show "entryScore (Some re) query queryTokens entry = (if wildcardMatches re entry then 100 else 0)"
    by (rule score)
  show "searchWith (Some re) query maxResults ix
        = take maxResults (filter (wildcardMatches re) (map snd (symbols ix)))"
    by (rule searchWith_flat [where k = 100]) (simp_all add: score)
next
  assume h: "hasWildcards query"
  have score: "entryScore None query qts e = (if literalMatches query e then 50 else 0)" for qts e
    using h by (simp add: entryScore_def literalMatches_def)
  show "entryScore None query queryTokens entry = (if literalMatches query entry then 50 else 0)"
    by (rule score)
  show "searchWith None query maxResults ix
        = take maxResults (filter (literalMatches query) (map snd (symbols ix)))"
    by (rule searchWith_flat [where k = 50]) (simp_all add: score)
next
  show "map entry_title (search ''Grid*'' 20 demoIndex) = [''GridItem'', ''GridRow'']"
    by code_simp
  show "map entry_title (search ''Vie?'' 20 demoIndex) = [''Text'', ''View'']"
    by code_simp
qed

theorem search_wildcard_witness:
  "hasWildcards ''Grid*'' \<and> \<not> collides ''Grid*'' \<and>
   compileWildcard ''Grid*'' = Some (wildcardAtoms ''Grid*'') \<and>
   wildcardAtoms ''Grid*'' = [Lit CHR ''g'', Lit CHR ''r'', Lit CHR ''i'', Lit CHR ''d'', AnyStar] \<and>
   map entry_title (search ''Grid*'' 20 demoIndex) = [''GridItem'', ''GridRow''] \<and>
   map entry_title (searchWith (Some [Lit CHR ''v'', AnyStar]) ''Grid*'' 20 demoIndex) = [''Text'', ''View''] \<and>
   map entry_title (searchWith None ''Grid*'' 20 demoIndex) = []"
proof -
  note inst = search_wildcard [of "''Grid*''" "[]" viewEntry 20 demoIndex "[Lit CHR ''v'', AnyStar]"]
  from inst demo_queries(1)
  have c: "compileWildcard ''Grid*'' = Some (wildcardAtoms ''Grid*'')"
    and s: "search ''Grid*'' 20 demoIndex
        = take 20 (filter (wildcardMatches (wildcardAtoms ''Grid*'')) (map snd (symbols demoIndex)))"
    and g: "searchWith (Some [Lit CHR ''v'', AnyStar]) ''Grid*'' 20 demoIndex
        = take 20 (filter (wildcardMatches [Lit CHR ''v'', AnyStar]) (map snd (symbols demoIndex)))"
    and l: "searchWith None ''Grid*'' 20 demoIndex
        = take 20 (filter (literalMatches ''Grid*'') (map snd (symbols demoIndex)))"
    by blast+
  have given: "map entry_title
      (take 20 (filter (wildcardMatches [Lit CHR ''v'', AnyStar]) (map snd (symbols demoIndex)))) = [''Text'', ''View'']"
    by code_simp
  have atoms: "wildcardAtoms ''Grid*'' = [Lit CHR ''g'', Lit CHR ''r'', Lit CHR ''i'', Lit CHR ''d'', AnyStar]"
    by code_simp
  have lit: "map entry_title (take 20 (filter (literalMatches ''Grid*'') (map snd (symbols demoIndex)))) = []"
    by code_simp
  from demo_queries(1) c atoms demo_grid_star given lit show ?thesis
    by (simp only: s g l) simp
qed

end
